(* ===== verification/GoPrelude.thy ===== *)
theory GoPrelude
  imports Complex_Main "HOL-Library.AList" "HOL-Library.Word" "HOL-Library.Multiset"
    "HOL-Library.List_Lexorder" "HOL-Library.Char_ord" "HOL-Library.Sublist"
begin

text \<open>
  The part of Go and of its standard library that the modelled code uses, and the lemmas every
  component shares. A Go string is a byte string, here a \<open>string\<close> (its characters are bytes), so
  \<open>length\<close> is Go's \<open>len\<close> and \<open><\<close> is Go's bytewise order. A Go \<open>float64\<close> is a \<open>rat\<close>: sums, products
  and quotients are exact, and rounding to 53 bits is not modelled. A slice expression is
  \<open>take\<close>/\<open>drop\<close>, written only where the code has checked the bounds.
\<close>

named_theorems go_simps \<open>unfolding rules of the Go library functions\<close>
named_theorems inv_intros \<open>one preservation lemma per operation of a component\<close>

type_synonym go_float = rat
type_synonym byte = "8 word"
type_synonym u64 = "64 word"
type_synonym argv = "string list"
type_synonym env = "(string \<times> string) list"

section \<open>Strings\<close>

definition has_prefix :: "string \<Rightarrow> string \<Rightarrow> bool" where
  "has_prefix s p \<longleftrightarrow> take (length p) s = p"

definition has_suffix :: "string \<Rightarrow> string \<Rightarrow> bool" where
  "has_suffix s p \<longleftrightarrow> length p \<le> length s \<and> drop (length s - length p) s = p"

definition trim_suffix :: "string \<Rightarrow> string \<Rightarrow> string" where
  "trim_suffix s p = (if has_suffix s p then take (length s - length p) s else s)"

definition trim_prefix :: "string \<Rightarrow> string \<Rightarrow> string" where
  "trim_prefix s p = (if has_prefix s p then drop (length p) s else s)"

text \<open>\<open>strings.Index\<close>, \<open>strings.Contains\<close>, \<open>strings.LastIndex\<close> and \<open>strings.IndexByte\<close>.\<close>

fun str_index :: "string \<Rightarrow> string \<Rightarrow> nat option" where
  "str_index [] p = (if p = [] then Some 0 else None)"
| "str_index (c # cs) p =
     (if has_prefix (c # cs) p then Some 0 else map_option Suc (str_index cs p))"

definition str_contains :: "string \<Rightarrow> string \<Rightarrow> bool" where
  "str_contains s p \<longleftrightarrow> str_index s p \<noteq> None"

fun str_last_index :: "string \<Rightarrow> string \<Rightarrow> nat option" where
  "str_last_index [] p = (if p = [] then Some 0 else None)"
| "str_last_index (c # cs) p =
     (case str_last_index cs p of
        Some k \<Rightarrow> Some (Suc k)
      | None \<Rightarrow> if has_prefix (c # cs) p then Some 0 else None)"

fun index_byte :: "string \<Rightarrow> (char \<Rightarrow> bool) \<Rightarrow> nat option" where
  "index_byte [] p = None"
| "index_byte (c # cs) p = (if p c then Some 0 else map_option Suc (index_byte cs p))"

text \<open>\<open>strings.Split\<close> on a one-byte separator (never empty) and \<open>strings.Cut\<close>.\<close>

fun split_on :: "char \<Rightarrow> string \<Rightarrow> string list" where
  "split_on d [] = [[]]"
| "split_on d (c # cs) =
     (if c = d then [] # split_on d cs
      else (case split_on d cs of [] \<Rightarrow> [[c]] | s # ss \<Rightarrow> (c # s) # ss))"

fun join_with :: "string \<Rightarrow> string list \<Rightarrow> string" where
  "join_with d [] = []"
| "join_with d [s] = s"
| "join_with d (s # ss) = s @ d @ join_with d ss"

definition str_cut :: "string \<Rightarrow> char \<Rightarrow> (string \<times> string) option" where
  "str_cut s d = (case index_byte s (\<lambda>c. c = d) of
     None \<Rightarrow> None | Some i \<Rightarrow> Some (take i s, drop (Suc i) s))"

text \<open>\<open>strings.TrimSpace\<close> and \<open>strings.ToLower\<close> on ASCII text; \<open>strings.TrimRight\<close>.\<close>

definition is_space :: "char \<Rightarrow> bool" where
  "is_space c \<longleftrightarrow> c \<in> {CHR 0x20, CHR 0x09, CHR 0x0A, CHR 0x0B, CHR 0x0C, CHR 0x0D}"

definition trim_right :: "(char \<Rightarrow> bool) \<Rightarrow> string \<Rightarrow> string" where
  "trim_right p s = rev (dropWhile p (rev s))"

definition trim_space :: "string \<Rightarrow> string" where
  "trim_space s = trim_right is_space (dropWhile is_space s)"

definition lower_char :: "char \<Rightarrow> char" where
  "lower_char c = (let n = of_char c :: nat
     in if 65 \<le> n \<and> n \<le> 90 then char_of (n + 32) else c)"

definition to_lower :: "string \<Rightarrow> string" where
  "to_lower s = map lower_char s"

text \<open>\<open>strings.ReplaceAll\<close> with a non-empty pattern: leftmost, non-overlapping.\<close>

function replace_all :: "string \<Rightarrow> string \<Rightarrow> string \<Rightarrow> string" where
  "replace_all s p r =
     (if p = [] \<or> s = [] then s
      else if has_prefix s p then r @ replace_all (drop (length p) s) p r
      else hd s # replace_all (tl s) p r)"
  by pat_completeness auto
termination
  by (relation "measure (\<lambda>(s, p, r). length s)") auto

declare replace_all.simps [simp del]

section \<open>Numbers and their text\<close>

definition is_digit :: "char \<Rightarrow> bool" where
  "is_digit c \<longleftrightarrow> (let n = of_char c :: nat in 48 \<le> n \<and> n \<le> 57)"

definition digit_val :: "char \<Rightarrow> nat" where
  "digit_val c = (of_char c :: nat) - 48"

definition digit_char :: "nat \<Rightarrow> char" where
  "digit_char d = char_of (48 + d)"

fun utoa :: "nat \<Rightarrow> string" where
  "utoa n = (if n < 10 then [digit_char n] else utoa (n div 10) @ [digit_char (n mod 10)])"

declare utoa.simps [simp del]

text \<open>\<open>strconv.Itoa\<close> / \<open>FormatInt(_, 10)\<close>.\<close>

definition itoa :: "int \<Rightarrow> string" where
  "itoa i = (if i < 0 then CHR ''-'' # utoa (nat (- i)) else utoa (nat i))"

fun parse_digits :: "nat \<Rightarrow> string \<Rightarrow> nat option" where
  "parse_digits a [] = Some a"
| "parse_digits a (c # cs) =
     (if is_digit c then parse_digits (10 * a + digit_val c) cs else None)"

definition parse_nat :: "string \<Rightarrow> nat option" where
  "parse_nat s = (if s = [] then None else parse_digits 0 s)"

text \<open>\<open>strconv.Atoi\<close> / \<open>ParseInt(_, 10, 64)\<close>: an optional sign, decimal digits, and an error
  (\<open>None\<close>) outside the range of a signed 64-bit integer.\<close>

definition atoi :: "string \<Rightarrow> int option" where
  "atoi s =
     (let (neg, ds) = (case s of
          [] \<Rightarrow> (False, [])
        | c # cs \<Rightarrow> if c = CHR ''-'' then (True, cs)
                    else if c = CHR ''+'' then (False, cs) else (False, s))
      in case parse_nat ds of
           None \<Rightarrow> None
         | Some n \<Rightarrow> if neg then (if int n \<le> 2 ^ 63 then Some (- int n) else None)
                     else (if int n < 2 ^ 63 then Some (int n) else None))"

text \<open>\<open>strconv.ParseUint(_, 10, 64)\<close>: no sign, an error above 64 bits.\<close>

definition parse_uint64 :: "string \<Rightarrow> nat option" where
  "parse_uint64 s = (case parse_nat s of
     Some n \<Rightarrow> if int n < 2 ^ 64 then Some n else None | None \<Rightarrow> None)"

text \<open>\<open>strconv.ParseFloat(_, 64)\<close> on the decimal syntax \<open>[+-]digits[.digits][e[+-]digits]\<close>.
  Hexadecimal floats, infinities and NaNs are not part of the texts the program parses.\<close>

definition span_digits :: "string \<Rightarrow> string \<times> string" where
  "span_digits s = (takeWhile is_digit s, dropWhile is_digit s)"

definition digits_val :: "string \<Rightarrow> nat" where
  "digits_val s = (case parse_digits 0 s of None \<Rightarrow> 0 | Some n \<Rightarrow> n)"

definition strip_sign :: "string \<Rightarrow> bool \<times> string" where
  "strip_sign s = (case s of [] \<Rightarrow> (False, [])
     | c # cs \<Rightarrow> if c = CHR ''-'' then (True, cs)
                 else if c = CHR ''+'' then (False, cs) else (False, s))"

definition parse_exponent :: "string \<Rightarrow> int option" where
  "parse_exponent s = (case s of
      [] \<Rightarrow> Some 0
    | c # cs \<Rightarrow> if c = CHR ''e'' \<or> c = CHR ''E''
        then (let (neg, ds) = strip_sign cs
              in if ds \<noteq> [] \<and> list_all is_digit ds
                 then Some (if neg then - int (digits_val ds) else int (digits_val ds))
                 else None)
        else None)"

definition scale10 :: "rat \<Rightarrow> int \<Rightarrow> rat" where
  "scale10 r e = (if 0 \<le> e then r * 10 ^ nat e else r / 10 ^ nat (- e))"

definition parse_float :: "string \<Rightarrow> go_float option" where
  "parse_float s =
     (let (neg, body) = strip_sign s;
          (ip, rest) = span_digits body;
          (fp, tail) = (case rest of
              [] \<Rightarrow> ([], [])
            | c # cs \<Rightarrow> if c = CHR ''.'' then span_digits cs else ([], rest))
      in if ip = [] \<and> fp = [] then None
         else case parse_exponent tail of
                None \<Rightarrow> None
              | Some e \<Rightarrow>
                  (let m = scale10 (of_nat (digits_val (ip @ fp))) (e - int (length fp))
                   in Some (if neg then - m else m)))"

text \<open>\<open>strconv.FormatFloat(x, 'f', prec, 64)\<close> and \<open>%.<prec>f\<close>: round half to even, at least one
  digit before the point, the sign kept also where the digits round to zero.\<close>

definition round_half_even :: "rat \<Rightarrow> int" where
  "round_half_even x =
     (let f = \<lfloor>x\<rfloor>; d = x - of_int f
      in if d < 1 / 2 then f else if 1 / 2 < d then f + 1
         else if even f then f else f + 1)"

definition pad_left :: "nat \<Rightarrow> char \<Rightarrow> string \<Rightarrow> string" where
  "pad_left n c s = replicate (n - length s) c @ s"

definition format_fixed :: "nat \<Rightarrow> rat \<Rightarrow> string" where
  "format_fixed p x =
     (let m = nat (round_half_even (\<bar>x\<bar> * 10 ^ p));
          ip = utoa (m div 10 ^ p);
          fp = pad_left p (CHR ''0'') (utoa (m mod 10 ^ p))
      in (if x < 0 then ''-'' else '''') @ ip @ (if p = 0 then [] else CHR ''.'' # fp))"

section \<open>Argument vectors\<close>

text \<open>\<open>indexOfArg(args, key, from)\<close>; the Go result \<open>-1\<close> is \<open>None\<close>.\<close>

fun find_from :: "('a \<Rightarrow> bool) \<Rightarrow> 'a list \<Rightarrow> nat option" where
  "find_from p [] = None"
| "find_from p (x # xs) = (if p x then Some 0 else map_option Suc (find_from p xs))"

definition index_of_arg :: "argv \<Rightarrow> string \<Rightarrow> nat \<Rightarrow> nat option" where
  "index_of_arg args key from =
     map_option ((+) from) (find_from (\<lambda>a. a = key) (drop from args))"

section \<open>Lemmas on the library functions\<close>

lemma find_from_Some: "find_from p xs = Some i \<Longrightarrow> i < length xs \<and> p (xs ! i) \<and> (\<forall>j<i. \<not> p (xs ! j))"
proof (induction xs arbitrary: i)
  case (Cons x xs)
  then show ?case
    by (auto split: if_splits simp: nth_Cons less_Suc_eq_0_disj split: nat.splits)
qed simp

lemma find_from_None [simp]: "find_from p xs = None \<longleftrightarrow> (\<forall>x\<in>set xs. \<not> p x)"
  by (induction xs) auto

lemma find_from_split:
  "find_from p xs = Some i \<Longrightarrow>
    xs = take i xs @ xs ! i # drop (Suc i) xs \<and> p (xs ! i) \<and> (\<forall>x\<in>set (take i xs). \<not> p x)"
  using find_from_Some [of p xs i] by (auto simp: in_set_conv_nth id_take_nth_drop)

lemma find_from_append:
  "\<forall>x\<in>set xs. \<not> p x \<Longrightarrow> find_from p (xs @ ys) = map_option ((+) (length xs)) (find_from p ys)"
proof (induction xs)
  case Nil
  show ?case by (cases "find_from p ys") (simp_all del: find_from_None)
next
  case (Cons x xs)
  then show ?case by (cases "find_from p ys") (auto simp del: find_from_None)
qed

lemma index_of_arg_Some:
  "index_of_arg args key n = Some i \<Longrightarrow> n \<le> i \<and> i < length args \<and> args ! i = key"
  unfolding index_of_arg_def
  by (auto dest!: find_from_Some)

lemma of_char_digit_char: "d < 10 \<Longrightarrow> (of_char (digit_char d) :: nat) = 48 + d"
  by (simp add: digit_char_def)

lemma is_digit_digit_char [simp]: "d < 10 \<Longrightarrow> is_digit (digit_char d)"
  by (simp add: is_digit_def of_char_digit_char Let_def)

lemma digit_val_digit_char [simp]: "d < 10 \<Longrightarrow> digit_val (digit_char d) = d"
  by (simp add: digit_val_def of_char_digit_char)

lemma parse_digits_append:
  "parse_digits a (xs @ ys) =
     (case parse_digits a xs of None \<Rightarrow> None | Some b \<Rightarrow> parse_digits b ys)"
  by (induction xs arbitrary: a) auto

lemma utoa_not_Nil [simp]: "utoa n \<noteq> []"
  by (subst utoa.simps) auto

lemma utoa_digits: "\<forall>c\<in>set (utoa n). is_digit c"
proof (induction n rule: utoa.induct)
  case (1 n)
  then show ?case by (subst utoa.simps) auto
qed

lemma parse_digits_utoa: "parse_digits 0 (utoa n) = Some n"
proof (induction n rule: utoa.induct)
  case (1 n)
  show ?case
  proof (cases "n < 10")
    case False
    with "1.IH" show ?thesis
      by (subst utoa.simps) (simp add: parse_digits_append)
  qed (subst utoa.simps, simp)
qed

lemma parse_nat_utoa [simp]: "parse_nat (utoa n) = Some n"
  by (simp add: parse_nat_def parse_digits_utoa)

lemma utoa_inj: "utoa m = utoa n \<longleftrightarrow> m = n"
  by (metis parse_digits_utoa option.inject)

lemma digit_not_sign: "is_digit c \<Longrightarrow> c \<noteq> CHR ''-'' \<and> c \<noteq> CHR ''+''"
  by (auto simp: is_digit_def)

lemma hd_utoa: "is_digit (hd (utoa n))"
  using utoa_digits [of n] hd_in_set [OF utoa_not_Nil] by blast

text \<open>Printing and parsing an integer are inverse on the whole signed 64-bit range.\<close>

lemma atoi_itoa:
  assumes "- (2 ^ 63) \<le> i" and "i < 2 ^ 63"
  shows "atoi (itoa i) = Some i"
proof (cases "i < 0")
  case True
  then have "int (nat (- i)) \<le> 2 ^ 63" using assms(1) by simp
  with True show ?thesis by (simp add: atoi_def itoa_def)
next
  case False
  obtain c cs where cs: "utoa (nat i) = c # cs"
    by (cases "utoa (nat i)") auto
  with hd_utoa [of "nat i"] have "c \<noteq> CHR ''-''" "c \<noteq> CHR ''+''"
    by (auto dest: digit_not_sign)
  moreover have "parse_nat (c # cs) = Some (nat i)"
    using parse_nat_utoa [of "nat i"] cs by simp
  moreover have "int (nat i) < 2 ^ 63" using assms(2) False by simp
  ultimately show ?thesis using False cs by (simp add: atoi_def itoa_def)
qed

lemma itoa_not_Nil [simp]: "itoa i \<noteq> []"
  by (simp add: itoa_def)

lemma parse_nat_not_sign: "parse_nat (CHR ''-'' # s) = None"
  by (simp add: parse_nat_def is_digit_def)

lemma itoa_inverse:
  "(if hd (itoa i) = CHR ''-'' then - int (digits_val (tl (itoa i)))
    else int (digits_val (itoa i))) = i"
proof -
  have "hd (utoa (nat i)) \<noteq> CHR ''-''"
    using hd_utoa [of "nat i"] by (auto dest: digit_not_sign)
  then show ?thesis
    by (simp add: itoa_def digits_val_def parse_digits_utoa)
qed

lemma itoa_inj: "itoa i = itoa j \<longleftrightarrow> i = j"
  using itoa_inverse [of i] itoa_inverse [of j] by metis

lemma split_on_not_Nil [simp]: "split_on d s \<noteq> []"
  by (induction s) (auto split: list.splits)

lemma split_on_no_sep: "\<forall>p\<in>set (split_on d s). d \<notin> set p"
  by (induction s) (auto split: list.splits)

lemma join_split_on: "join_with [d] (split_on d s) = s"
proof (induction s)
  case (Cons c cs)
  then show ?case
    by (cases "split_on d cs"; cases "tl (split_on d cs)") auto
qed simp

lemma has_prefix_append [simp]: "has_prefix (p @ s) p"
  by (simp add: has_prefix_def)

lemma has_prefix_iff: "has_prefix s p \<longleftrightarrow> (\<exists>t. s = p @ t)"
  by (metis append_take_drop_id has_prefix_append has_prefix_def)

lemma has_suffix_iff: "has_suffix s p \<longleftrightarrow> (\<exists>t. s = t @ p)"
  by (auto simp: has_suffix_def) (metis append_take_drop_id)

lemma str_contains_iff: "str_contains s p \<longleftrightarrow> (\<exists>u v. s = u @ p @ v)"
proof (induction s)
  case (Cons c cs)
  have "str_contains (c # cs) p \<longleftrightarrow> has_prefix (c # cs) p \<or> str_contains cs p"
    by (auto simp: str_contains_def)
  also have "\<dots> \<longleftrightarrow> (\<exists>u v. c # cs = u @ p @ v)"
  proof
    assume "has_prefix (c # cs) p \<or> str_contains cs p"
    then show "\<exists>u v. c # cs = u @ p @ v"
    proof
      assume "has_prefix (c # cs) p"
      then show ?thesis by (auto simp: has_prefix_iff intro: exI [of _ "[]"])
    next
      assume "str_contains cs p"
      then obtain u v where "cs = u @ p @ v" by (auto simp: Cons.IH)
      then have "c # cs = (c # u) @ p @ v" by simp
      then show ?thesis by blast
    qed
  next
    assume "\<exists>u v. c # cs = u @ p @ v"
    then obtain u v where "c # cs = u @ p @ v" by blast
    then show "has_prefix (c # cs) p \<or> str_contains cs p"
      using Cons.IH by (cases u) (auto simp: has_prefix_iff intro: exI [of _ v])
  qed
  finally show ?case .
qed (simp add: str_contains_def)

lemma split_on_join:
  "\<forall>s\<in>set ss. d \<notin> set s \<Longrightarrow> ss \<noteq> [] \<Longrightarrow> split_on d (join_with [d] ss) = ss"
proof (induction ss)
  case (Cons s ss)
  have single: "d \<notin> set t \<Longrightarrow> split_on d t = [t]" for t
    by (induction t) auto
  have app: "d \<notin> set t \<Longrightarrow> split_on d (t @ d # u) = t # split_on d u" for t u
    by (induction t) auto
  show ?case
  proof (cases ss)
    case Nil
    with Cons.prems show ?thesis by (simp add: single)
  next
    case (Cons a list)
    with Cons.IH Cons.prems show ?thesis by (simp add: app)
  qed
qed simp

lemma str_index_le: "str_index s p = Some j \<Longrightarrow> j + length p \<le> length s"
proof (induction s arbitrary: j)
  case Nil
  then show ?case by (simp split: if_splits)
next
  case (Cons c s)
  then show ?case by (cases "has_prefix (c # s) p") (auto simp: has_prefix_iff dest!: arg_cong [of "c # s" _ length])
qed

lemma str_index_prefix: "str_index s p = Some j \<Longrightarrow> str_index (take (j + length p) s @ x) p = Some j"
proof (induction s arbitrary: j)
  case Nil
  then show ?case by (cases p; cases x) (auto simp: has_prefix_def split: if_splits)
next
  case (Cons c s)
  show ?case
  proof (cases "has_prefix (c # s) p")
    case True
    with Cons.prems have "j = 0" by simp
    moreover have "take (length p) (c # s) = p" using True by (simp add: has_prefix_def)
    ultimately show ?thesis by (cases p; cases x) (simp_all add: has_prefix_def)
  next
    case False
    with Cons.prems obtain k where k: "j = Suc k" "str_index s p = Some k" by auto
    have "\<not> has_prefix (c # take (k + length p) s @ x) p"
    proof
      assume "has_prefix (c # take (k + length p) s @ x) p"
      moreover have "k + length p \<le> length s" using str_index_le [OF k(2)] .
      ultimately have "take (length p) (c # s) = p"
        by (cases "length p") (auto simp: has_prefix_def)
      then show False using False by (simp add: has_prefix_def)
    qed
    then show ?thesis using Cons.IH [OF k(2)] k by simp
  qed
qed

lemma set_join: "set (join_with d ps) \<subseteq> set d \<union> \<Union> (set (map set ps))"
  by (induction d ps rule: join_with.induct) auto

lemma set_split: "p \<in> set (split_on d s) \<Longrightarrow> set p \<subseteq> set s"
proof (induction s arbitrary: p)
  case (Cons c s)
  from Cons.prems show ?case
  proof (cases "split_on d s")
    case (Cons q qs)
    then have "set q \<subseteq> set s" "\<forall>p\<in>set qs. set p \<subseteq> set s" using \<open>\<And>p. p \<in> set (split_on d s) \<Longrightarrow> set p \<subseteq> set s\<close> by auto
    with Cons \<open>p \<in> set (split_on d (c # s))\<close> show ?thesis by (auto split: if_splits)
  qed simp
qed auto

section \<open>Go maps\<close>

text \<open>
  A Go map is an association list without duplicate keys; a position in the list carries no
  meaning, because Go iterates over a map in an arbitrary order. The locale states what the
  clients of such a map (worker pool, session tracker, checkpoint cache, task registry, probe and
  Pass caches) rely on; it is interpreted on \<open>AList.update\<close> and \<open>AList.delete\<close>.
\<close>

locale go_map =
  fixes lookup :: "'m \<Rightarrow> 'k \<Rightarrow> 'v option"
    and put :: "'k \<Rightarrow> 'v \<Rightarrow> 'm \<Rightarrow> 'm"
    and remove :: "'k \<Rightarrow> 'm \<Rightarrow> 'm"
    and okm :: "'m \<Rightarrow> bool"
    and size_of :: "'m \<Rightarrow> nat"
  assumes lookup_put: "lookup (put k v m) k' = (if k' = k then Some v else lookup m k')"
    and lookup_remove: "lookup (remove k m) k' = (if k' = k then None else lookup m k')"
    and ok_put: "okm m \<Longrightarrow> okm (put k v m)"
    and ok_remove: "okm m \<Longrightarrow> okm (remove k m)"
    and size_put: "okm m \<Longrightarrow> size_of (put k v m) = (if lookup m k = None then Suc (size_of m) else size_of m)"
    and size_remove: "okm m \<Longrightarrow> size_of (remove k m) = (if lookup m k = None then size_of m else size_of m - 1)"
    and size_pos: "okm m \<Longrightarrow> lookup m k \<noteq> None \<Longrightarrow> 0 < size_of m"
begin

lemma put_then_get: "lookup (put k v m) k = Some v"
  by (simp add: lookup_put)

lemma remove_then_get: "lookup (remove k m) k = None"
  by (simp add: lookup_remove)

lemma put_remove_other: "k \<noteq> k' \<Longrightarrow> lookup (remove k (put k' v m)) k' = Some v"
  by (simp add: lookup_put lookup_remove)

lemma remove_after_put: "lookup (remove k (put k v m)) = lookup (remove k m)"
  by (auto simp: lookup_put lookup_remove fun_eq_iff)

lemma size_remove_put: "okm m \<Longrightarrow> lookup m k = None \<Longrightarrow> size_of (remove k (put k v m)) = size_of m"
  by (simp add: size_remove size_put ok_put lookup_put)

end

definition distinct_keys :: "('k \<times> 'v) list \<Rightarrow> bool" where
  "distinct_keys m \<longleftrightarrow> distinct (map fst m)"

lemma length_update_alist:
  "length (AList.update k v m) = (if map_of m k = None then Suc (length m) else length m)"
  by (induction m) auto

lemma length_delete_alist:
  "distinct_keys m \<Longrightarrow>
    length (AList.delete k m) = (if map_of m k = None then length m else length m - 1)"
proof (induction m)
  case (Cons p m)
  have *: "k \<notin> fst ` set m \<Longrightarrow> AList.delete k m = m"
    by (rule delete_id)
  from Cons show ?case
    by (cases p; cases m) (auto simp: distinct_keys_def map_of_eq_None_iff *)
qed simp

interpretation gomap: go_map map_of AList.update AList.delete distinct_keys length
proof
  fix m :: "('k \<times> 'v) list" and k v
  show "distinct_keys m \<Longrightarrow> distinct_keys (AList.update k v m)"
    by (simp add: distinct_keys_def distinct_update)
  show "distinct_keys m \<Longrightarrow> distinct_keys (AList.delete k m)"
    by (simp add: distinct_keys_def distinct_delete)
  show "map_of m k \<noteq> None \<Longrightarrow> 0 < length m"
    by (cases m) auto
qed (auto simp: update_conv' map_of_delete length_update_alist length_delete_alist delete_conv')

section \<open>Components as state machines\<close>

text \<open>
  Every mutex-protected operation is one atomic step, so a concurrent execution is a list of
  operations in the order in which they took the lock. A component that shows each operation
  keeps its invariant gets it for every such list.
\<close>

locale machine =
  fixes step :: "'e \<Rightarrow> 's \<Rightarrow> 's" and good :: "'s \<Rightarrow> bool"
  assumes step_good: "good s \<Longrightarrow> good (step e s)"
begin

lemma fold_good: "good s \<Longrightarrow> good (fold step es s)"
  by (induction es arbitrary: s) (auto intro: step_good)

end

end
