(* ===== verification/OrchPool.thy ===== *)
theory OrchPool
  imports GoPrelude
begin

text \<open>
  The worker pool of the orchestrator (\<open>src/orchestrator/main.go\<close>): the worker record, the bitset
  of discovery sources that vouch for a worker, and the four operations that change the set of
  workers (\<open>refresh\<close> from DNS, \<open>loadList\<close>, \<open>register\<close>, \<open>reapPush\<close>), each under the pool's mutex and
  so one atomic step. The abstraction \<open>vouchers\<close> reads a pool as the set of sources behind each
  URL; every operation is shown to be a plain set operation on it.
\<close>

section \<open>Workers and sources\<close>

type_synonym gotime = int

definition srcDNS :: byte where "srcDNS = 1"
definition srcList :: byte where "srcList = 2"
definition srcPush :: byte where "srcPush = 4"

unbundle bit_operations_syntax

definition sources_string :: "byte \<Rightarrow> string" where
  "sources_string s =
     (let parts = (if s AND srcDNS \<noteq> 0 then [''dns''] else [])
                @ (if s AND srcList \<noteq> 0 then [''list''] else [])
                @ (if s AND srcPush \<noteq> 0 then [''push''] else [])
      in if parts = [] then ''none'' else join_with ''+'' parts)"

text \<open>
  \<open>w_ptr\<close> stands for the Go pointer: the number of the allocation. Two workers that have had the
  same URL at different times are different objects. A time is in nanoseconds and the zero time is
  \<open>0\<close>; \<open>accepted\<close> is keyed by the ticket's pointer.
\<close>

record worker =
  w_ptr :: nat
  w_host :: string
  w_url :: string
  sources :: byte
  healthy :: bool
  activeSessions :: int
  pending :: int
  accepted :: "(nat \<times> gotime) list"
  lastProbeStart :: gotime
  downAt :: gotime
  maxSessions :: int
  gpuLoad :: go_float
  gpuEngines :: int
  backend :: string
  lastErr :: string
  lastUpdated :: gotime
  lastHeartbeat :: gotime

definition new_worker :: "nat \<Rightarrow> string \<Rightarrow> string \<Rightarrow> byte \<Rightarrow> gotime \<Rightarrow> worker" where
  "new_worker ptr host url src hb =
     \<lparr>w_ptr = ptr, w_host = host, w_url = url, sources = src, healthy = False,
      activeSessions = 0, pending = 0, accepted = [], lastProbeStart = 0, downAt = 0,
      maxSessions = 0, gpuLoad = 0, gpuEngines = 0, backend = [], lastErr = [],
      lastUpdated = 0, lastHeartbeat = hb\<rparr>"

datatype lbStrategy = LbLoad | LbRoundRobin | LbLeastSessions | LbRandom

record pool =
  workers :: "(string \<times> worker) list"
  next_ptr :: nat
  strategy :: lbStrategy
  flatPool :: bool
  rrCursor :: u64
  pool_dns :: string
  pool_port :: int

section \<open>URLs and the WORKERS_LIST parser\<close>

text \<open>\<open>net.JoinHostPort\<close> brackets a host that contains a colon.\<close>

definition joinHostPort :: "string \<Rightarrow> string \<Rightarrow> string" where
  "joinHostPort host port =
     (if CHR '':'' \<in> set host then ''['' @ host @ '']:'' @ port else host @ '':'' @ port)"

definition workerURL :: "string \<Rightarrow> int \<Rightarrow> string" where
  "workerURL host port = ''http://'' @ joinHostPort host (itoa port)"

record hostPort =
  hp_host :: string
  hp_port :: int

definition hp_url :: "hostPort \<Rightarrow> string" where
  "hp_url hp = workerURL (hp_host hp) (hp_port hp)"

text \<open>One pass of the loop of \<open>parseWorkerList\<close>: \<open>None\<close> is a \<open>continue\<close>.\<close>

definition parseEntry :: "int \<Rightarrow> string \<Rightarrow> hostPort option" where
  "parseEntry defaultPort raw =
     (let entry = trim_space raw
      in if entry = [] then None
         else case str_last_index entry '':'' of
             Some i \<Rightarrow>
               (let host = trim_space (take i entry);
                    portStr = trim_space (drop (Suc i) entry)
                in case atoi portStr of
                     None \<Rightarrow> None
                   | Some p \<Rightarrow>
                       if p < 1 \<or> p > 65535 then None
                       else if host = [] then None
                       else Some \<lparr>hp_host = host, hp_port = p\<rparr>)
           | None \<Rightarrow> Some \<lparr>hp_host = entry, hp_port = defaultPort\<rparr>)"

fun filter_map :: "('a \<Rightarrow> 'b option) \<Rightarrow> 'a list \<Rightarrow> 'b list" where
  "filter_map f [] = []"
| "filter_map f (x # xs) = (case f x of None \<Rightarrow> filter_map f xs | Some y \<Rightarrow> y # filter_map f xs)"

definition parseWorkerList :: "string \<Rightarrow> int \<Rightarrow> hostPort list" where
  "parseWorkerList s defaultPort =
     (if trim_space s = [] then [] else filter_map (parseEntry defaultPort) (split_on (CHR '','') s))"

section \<open>Pool operations\<close>

definition pool_get :: "pool \<Rightarrow> string \<Rightarrow> worker option" where
  "pool_get p url = find (\<lambda>w. w_url w = url) (map snd (workers p))"

text \<open>
  The body the three discovery operations share: set the source's bit on a known worker (and, for
  PUSH, the heartbeat), or add a new worker that only this source vouches for.
\<close>

definition vouch :: "byte \<Rightarrow> (worker \<Rightarrow> worker) \<Rightarrow> gotime \<Rightarrow> string \<Rightarrow> string \<Rightarrow> pool \<Rightarrow> pool" where
  "vouch src touch hb host url p =
     (case map_of (workers p) url of
        Some w \<Rightarrow> p\<lparr>workers := AList.update url (touch (w\<lparr>sources := sources w OR src\<rparr>)) (workers p)\<rparr>
      | None \<Rightarrow> p\<lparr>workers := AList.update url (new_worker (next_ptr p) host url src hb) (workers p),
                  next_ptr := Suc (next_ptr p)\<rparr>)"

text \<open>
  The sweep the DNS refresh and the PUSH reaper share: the source's bit is cleared on every worker
  that carries it and is not kept; a worker left with no source is deleted.
\<close>

fun sweep :: "byte \<Rightarrow> (string \<Rightarrow> worker \<Rightarrow> bool) \<Rightarrow> (string \<times> worker) list \<Rightarrow> (string \<times> worker) list" where
  "sweep src keep [] = []"
| "sweep src keep ((url, w) # ws) =
     (if sources w AND src = 0 \<or> keep url w then (url, w) # sweep src keep ws
      else (let s = sources w AND NOT src
            in if s = 0 then sweep src keep ws
               else (url, w\<lparr>sources := s\<rparr>) # sweep src keep ws))"

text \<open>\<open>refresh\<close>: the argument is what \<open>net.LookupHost\<close> returned, \<open>None\<close> for an error.\<close>

definition hostOf :: "string list \<Rightarrow> int \<Rightarrow> (string \<times> string) list" where
  "hostOf ips port = fold (\<lambda>ip m. AList.update (workerURL ip port) ip m) ips []"

definition refresh :: "string list option \<Rightarrow> int \<Rightarrow> pool \<Rightarrow> pool" where
  "refresh lookup port p =
     (case lookup of
        None \<Rightarrow> p
      | Some ips \<Rightarrow>
          (let seen = hostOf ips port;
               p1 = fold (\<lambda>(url, ip). vouch srcDNS id 0 ip url) seen p
           in p1\<lparr>workers := sweep srcDNS (\<lambda>url w. map_of seen url \<noteq> None) (workers p1)\<rparr>))"

definition loadList :: "hostPort list \<Rightarrow> pool \<Rightarrow> pool" where
  "loadList entries p = fold (\<lambda>e. vouch srcList id 0 (hp_host e) (hp_url e)) entries p"

text \<open>\<open>register\<close> also returns whether the call created the worker.\<close>

definition register :: "string \<Rightarrow> int \<Rightarrow> gotime \<Rightarrow> pool \<Rightarrow> bool \<times> pool" where
  "register host port now p =
     (let url = workerURL host port
      in (map_of (workers p) url = None,
          vouch srcPush (\<lambda>w. w\<lparr>lastHeartbeat := now\<rparr>) now host url p))"

definition reapPush :: "gotime \<Rightarrow> int \<Rightarrow> pool \<Rightarrow> pool" where
  "reapPush now timeout p =
     p\<lparr>workers := sweep srcPush (\<lambda>url w. now - lastHeartbeat w \<le> timeout) (workers p)\<rparr>"

text \<open>An update of one worker object through a pointer; objects no longer in the pool are not
  found, as a detached Go object is not seen by the pool.\<close>

definition on_worker :: "nat \<Rightarrow> (worker \<Rightarrow> worker) \<Rightarrow> pool \<Rightarrow> pool" where
  "on_worker ptr f p =
     p\<lparr>workers := map (\<lambda>(url, w). (url, if w_ptr w = ptr then f w else w)) (workers p)\<rparr>"

text \<open>\<open>pool.list\<close> copies the values in Go's arbitrary map order; \<open>ws\<close> is one such order.\<close>

definition is_listing :: "pool \<Rightarrow> worker list \<Rightarrow> bool" where
  "is_listing p ws \<longleftrightarrow> mset ws = mset (map snd (workers p))"

section \<open>Abstraction and invariant\<close>

datatype source = DNS | LIST | PUSH

fun bit_of :: "source \<Rightarrow> byte" where
  "bit_of DNS = srcDNS"
| "bit_of LIST = srcList"
| "bit_of PUSH = srcPush"

definition source_set :: "byte \<Rightarrow> source set" where
  "source_set b = {s. b AND bit_of s \<noteq> 0}"

definition vouchers :: "pool \<Rightarrow> string \<Rightarrow> source set" where
  "vouchers p url = (case map_of (workers p) url of None \<Rightarrow> {} | Some w \<Rightarrow> source_set (sources w))"

text \<open>Each key is its worker's URL, no worker is in the pool without a source, no byte carries a
  bit of an unknown source, and pointers are allocated once.\<close>

definition worker_ok :: "string \<Rightarrow> worker \<Rightarrow> bool" where
  "worker_ok url w \<longleftrightarrow> w_url w = url \<and> sources w \<noteq> 0 \<and> sources w AND 7 = sources w"

definition pool_ok :: "pool \<Rightarrow> bool" where
  "pool_ok p \<longleftrightarrow> distinct_keys (workers p) \<and> (\<forall>(url, w)\<in>set (workers p). worker_ok url w)
     \<and> distinct (map (w_ptr \<circ> snd) (workers p)) \<and> (\<forall>(url, w)\<in>set (workers p). w_ptr w < next_ptr p)"

section \<open>Bits and source sets\<close>

lemma bit_of_pow: "bit_of s = 2 ^ (case s of DNS \<Rightarrow> 0 | LIST \<Rightarrow> 1 | PUSH \<Rightarrow> 2)"
  by (cases s) (simp_all add: srcDNS_def srcList_def srcPush_def)

lemma mem_source_set:
  "s \<in> source_set b \<longleftrightarrow> bit b (case s of DNS \<Rightarrow> 0 | LIST \<Rightarrow> 1 | PUSH \<Rightarrow> 2)"
  by (simp add: source_set_def bit_of_pow and_exp_eq_0_iff_not_bit)

lemma source_set_or [simp]: "source_set (b OR bit_of s) = insert s (source_set b)"
  by (auto simp: mem_source_set bit_of_pow bit_or_iff bit_exp_iff split: source.splits)

lemma source_set_clear [simp]: "source_set (b AND NOT (bit_of s)) = source_set b - {s}"
  by (auto simp: mem_source_set bit_of_pow bit_and_iff bit_not_iff bit_exp_iff split: source.splits)

lemma source_set_bit_of [simp]: "source_set (bit_of s) = {s}"
  using source_set_or [of 0 s] by (simp add: source_set_def)

lemma not_in_source_set: "b AND bit_of s = 0 \<longleftrightarrow> s \<notin> source_set b"
  by (simp add: source_set_def)

lemma bit_7: "bit (7 :: byte) n \<longleftrightarrow> n < 3"
proof -
  have m: "(7 :: byte) = mask 3" by (simp add: mask_eq_exp_minus_1)
  show ?thesis unfolding m by (auto simp: bit_mask_iff)
qed

lemma known_sources_zero:
  assumes "b AND 7 = b"
  shows "b = 0 \<longleftrightarrow> source_set b = {}"
proof
  assume e: "source_set b = {}"
  have "bit b n = False" for n
  proof (cases "n < 3")
    case True
    then consider "n = 0" | "n = 1" | "n = 2" by linarith
    then show ?thesis
      using e mem_source_set [of DNS b] mem_source_set [of LIST b] mem_source_set [of PUSH b]
      by cases auto
  next
    case False
    then show ?thesis using assms by (metis bit_7 bit_and_iff)
  qed
  then show "b = 0" by (simp add: bit_eq_iff)
qed (simp add: source_set_def)

lemma known_bit_of: "bit_of s AND 7 = bit_of s" "bit_of s \<noteq> 0"
  by (cases s; simp add: srcDNS_def srcList_def srcPush_def)+

lemma known_or: "b AND 7 = b \<Longrightarrow> (b OR bit_of s) AND 7 = b OR bit_of s"
  by (simp add: word_ao_dist known_bit_of)

lemma known_clear: "b AND 7 = b \<Longrightarrow> (b AND NOT (bit_of s)) AND 7 = b AND NOT (bit_of s)"
  by (auto simp: bit_eq_iff bit_and_iff)

section \<open>The sweep\<close>

lemma sweep_keys: "set (map fst (sweep b keep ws)) \<subseteq> set (map fst ws)"
  by (induction b keep ws rule: sweep.induct) (auto simp: Let_def)

lemma sweep_distinct: "distinct_keys ws \<Longrightarrow> distinct_keys (sweep b keep ws)"
proof (induction b keep ws rule: sweep.induct)
  case (2 src keep url w ws)
  then show ?case
    using sweep_keys [of src keep ws] by (auto simp: distinct_keys_def Let_def)
qed (simp add: distinct_keys_def)

lemma map_of_sweep:
  "distinct_keys ws \<Longrightarrow> map_of (sweep b keep ws) url =
     (case map_of ws url of
        None \<Rightarrow> None
      | Some w \<Rightarrow> if sources w AND b = 0 \<or> keep url w then Some w
                  else if sources w AND NOT b = 0 then None
                  else Some (w\<lparr>sources := sources w AND NOT b\<rparr>))"
proof (induction b keep ws rule: sweep.induct)
  case (2 src keep u w ws)
  have "u \<notin> set (map fst (sweep src keep ws))"
    using "2.prems" sweep_keys [of src keep ws] by (auto simp: distinct_keys_def)
  then have "map_of (sweep src keep ws) u = None"
    by (simp add: map_of_eq_None_iff)
  with 2 show ?case
    by (auto simp: distinct_keys_def Let_def)
qed simp

lemma sweep_distinct_ptrs:
  "distinct (map (w_ptr \<circ> snd) ws) \<Longrightarrow>
     distinct (map (w_ptr \<circ> snd) (sweep b keep ws)) \<and>
     set (map (w_ptr \<circ> snd) (sweep b keep ws)) \<subseteq> set (map (w_ptr \<circ> snd) ws)"
  by (induction b keep ws rule: sweep.induct) (auto simp: Let_def)

section \<open>Every operation keeps the invariant\<close>

definition keeps_id :: "(worker \<Rightarrow> worker) \<Rightarrow> bool" where
  "keeps_id f \<longleftrightarrow> (\<forall>w. w_url (f w) = w_url w \<and> w_ptr (f w) = w_ptr w \<and> sources (f w) = sources w)"

lemma keeps_idD:
  "keeps_id f \<Longrightarrow> w_url (f w) = w_url w"
  "keeps_id f \<Longrightarrow> w_ptr (f w) = w_ptr w"
  "keeps_id f \<Longrightarrow> sources (f w) = sources w"
  by (simp_all add: keeps_id_def)

lemma keeps_id_id [simp]: "keeps_id id"
  and keeps_id_heartbeat [simp]: "keeps_id (\<lambda>w. w\<lparr>lastHeartbeat := t\<rparr>)"
  by (simp_all add: keeps_id_def)

lemma set_update_alist:
  "distinct_keys m \<Longrightarrow> set (AList.update k v m) = insert (k, v) {x \<in> set m. fst x \<noteq> k}"
proof (induction m)
  case (Cons x m)
  then show ?case
    by (cases x) (auto simp: distinct_keys_def image_iff)
qed simp

lemma map_ptr_update:
  "map_of m k = Some w \<Longrightarrow> w_ptr v = w_ptr w \<Longrightarrow>
     map (w_ptr \<circ> snd) (AList.update k v m) = map (w_ptr \<circ> snd) m"
  by (induction m) auto

lemma update_new: "map_of m k = None \<Longrightarrow> AList.update k v m = m @ [(k, v)]"
  by (induction m) auto

lemma vouch_ok [inv_intros]:
  assumes "pool_ok p" and "keeps_id touch"
  shows "pool_ok (vouch (bit_of s) touch hb host url p)"
proof (cases "map_of (workers p) url")
  case None
  let ?w = "new_worker (next_ptr p) host url (bit_of s) hb"
  have eq: "vouch (bit_of s) touch hb host url p =
      p\<lparr>workers := workers p @ [(url, ?w)], next_ptr := Suc (next_ptr p)\<rparr>"
    by (simp add: vouch_def None update_new)
  have w: "worker_ok url ?w" "w_ptr ?w = next_ptr p"
    using known_bit_of [of s] by (simp_all add: worker_ok_def new_worker_def)
  have fresh: "url \<notin> fst ` set (workers p)"
    using None by (simp add: map_of_eq_None_iff)
  show ?thesis
    using assms w fresh unfolding eq
    by (auto simp: pool_ok_def distinct_keys_def less_Suc_eq)
next
  case (Some w)
  then have "(url, w) \<in> set (workers p)" by (rule map_of_SomeD)
  then have w: "worker_ok url w" "w_ptr w < next_ptr p"
    using assms(1) by (auto simp: pool_ok_def)
  have "sources w OR bit_of s \<noteq> 0"
    using known_sources_zero [OF known_or [of "sources w" s]] w(1) by (auto simp: worker_ok_def)
  then have v: "worker_ok url (touch (w\<lparr>sources := sources w OR bit_of s\<rparr>))"
    using w(1) assms(2) by (simp add: worker_ok_def known_or keeps_id_def)
  show ?thesis
    using assms(1,2) Some v w
    by (auto simp: pool_ok_def vouch_def set_update_alist map_ptr_update gomap.ok_put keeps_id_def)
qed

lemma fold_vouch_ok:
  "pool_ok p \<Longrightarrow> keeps_id touch \<Longrightarrow> pool_ok (fold (\<lambda>x. vouch (bit_of s) touch hb (h x) (u x)) xs p)"
  by (induction xs arbitrary: p) (auto intro: vouch_ok)

lemma sweep_workers_ok:
  "\<forall>(url, w)\<in>set ws. worker_ok url w \<and> w_ptr w < n \<Longrightarrow>
     \<forall>(url, w)\<in>set (sweep b keep ws). worker_ok url w \<and> w_ptr w < n"
proof (induction b keep ws rule: sweep.induct)
  case (2 src keep url w ws)
  then show ?case
    by (auto simp: Let_def worker_ok_def) (simp_all add: and.assoc and.commute and.left_commute)
qed simp

lemma sweep_ok [inv_intros]:
  assumes "pool_ok p"
  shows "pool_ok (p\<lparr>workers := sweep b keep (workers p)\<rparr>)"
proof -
  have "\<forall>(url, w)\<in>set (workers p). worker_ok url w \<and> w_ptr w < next_ptr p"
    using assms by (auto simp: pool_ok_def)
  then show ?thesis
    using assms sweep_workers_ok [of "workers p" "next_ptr p" b keep]
      sweep_distinct_ptrs [of "workers p" b keep]
    by (auto simp: pool_ok_def sweep_distinct)
qed

lemma refresh_ok [inv_intros]: "pool_ok p \<Longrightarrow> pool_ok (refresh lookup port p)"
  using fold_vouch_ok [of p id DNS 0 snd fst]
  by (auto simp: refresh_def Let_def case_prod_unfold intro!: sweep_ok split: option.split)

lemma loadList_ok [inv_intros]: "pool_ok p \<Longrightarrow> pool_ok (loadList es p)"
  using fold_vouch_ok [of p id LIST 0 hp_host hp_url es] by (simp add: loadList_def)

lemma register_ok [inv_intros]: "pool_ok p \<Longrightarrow> pool_ok (snd (register host port now p))"
  using vouch_ok [of p "\<lambda>w. w\<lparr>lastHeartbeat := now\<rparr>" PUSH]
  by (simp add: register_def Let_def)

lemma reapPush_ok [inv_intros]: "pool_ok p \<Longrightarrow> pool_ok (reapPush now timeout p)"
  by (simp add: reapPush_def sweep_ok)

lemma map_workers_ok:
  assumes "pool_ok p" and "keeps_id g"
  shows "pool_ok (p\<lparr>workers := map (\<lambda>(url, w). (url, g w)) (workers p)\<rparr>)"
proof -
  have "map fst (map (\<lambda>(url, w). (url, g w)) (workers p)) = map fst (workers p)"
    by (simp add: case_prod_unfold comp_def)
  moreover have "map (w_ptr \<circ> snd) (map (\<lambda>(url, w). (url, g w)) (workers p)) = map (w_ptr \<circ> snd) (workers p)"
    using assms(2) by (simp add: case_prod_unfold comp_def keeps_id_def)
  moreover have "worker_ok url (g w) \<longleftrightarrow> worker_ok url w" "w_ptr (g w) = w_ptr w" for url w
    using assms(2) by (simp_all add: worker_ok_def keeps_id_def)
  ultimately show ?thesis
    using assms(1) by (auto simp: pool_ok_def distinct_keys_def simp del: map_map)
qed

lemma on_worker_ok [inv_intros]:
  assumes "pool_ok p" and "keeps_id f"
  shows "pool_ok (on_worker ptr f p)"
  using map_workers_ok [OF assms(1), of "\<lambda>w. if w_ptr w = ptr then f w else w"] assms(2)
  by (simp add: on_worker_def keeps_id_def)

section \<open>Every operation is a set operation on the vouchers\<close>

lemma vouchers_vouch:
  assumes "keeps_id touch"
  shows "vouchers (vouch (bit_of s) touch hb host url p) u =
     (if u = url then insert s (vouchers p u) else vouchers p u)"
  using assms
  by (auto simp: vouchers_def vouch_def gomap.lookup_put new_worker_def keeps_id_def split: option.splits)

lemma vouchers_fold_vouch:
  "keeps_id touch \<Longrightarrow> vouchers (fold (\<lambda>x. vouch (bit_of s) touch hb (h x) (u x)) xs p) url =
     (if url \<in> u ` set xs then insert s (vouchers p url) else vouchers p url)"
  by (induction xs arbitrary: p) (auto simp: vouchers_vouch)

lemma vouchers_sweep:
  assumes "pool_ok p"
  shows "vouchers (p\<lparr>workers := sweep (bit_of s) keep (workers p)\<rparr>) url =
     (case map_of (workers p) url of
        None \<Rightarrow> {}
      | Some w \<Rightarrow> if keep url w then vouchers p url else vouchers p url - {s})"
proof (cases "map_of (workers p) url")
  case (Some w)
  then have "worker_ok url w"
    using assms by (auto simp: pool_ok_def dest!: map_of_SomeD)
  then have "sources w AND NOT (bit_of s) = 0 \<longleftrightarrow> source_set (sources w) \<subseteq> {s}"
    using known_sources_zero [OF known_clear [of "sources w" s]] by (auto simp: worker_ok_def)
  with Some assms show ?thesis
    by (auto simp: vouchers_def map_of_sweep pool_ok_def not_in_source_set)
qed (use assms in \<open>simp add: vouchers_def map_of_sweep pool_ok_def\<close>)

lemma in_pool_iff:
  assumes "pool_ok p"
  shows "map_of (workers p) url \<noteq> None \<longleftrightarrow> vouchers p url \<noteq> {}"
proof (cases "map_of (workers p) url")
  case (Some w)
  then have "worker_ok url w"
    using assms by (auto simp: pool_ok_def dest!: map_of_SomeD)
  with Some show ?thesis
    using known_sources_zero [of "sources w"] by (simp add: vouchers_def worker_ok_def)
qed (simp add: vouchers_def)

lemma hostOf_dom: "(map_of (hostOf ips port) url \<noteq> None) \<longleftrightarrow> url \<in> (\<lambda>ip. workerURL ip port) ` set ips"
proof -
  have "(map_of (fold (\<lambda>ip m. AList.update (workerURL ip port) ip m) ips m) url \<noteq> None) \<longleftrightarrow>
      map_of m url \<noteq> None \<or> url \<in> (\<lambda>ip. workerURL ip port) ` set ips" for m
    by (induction ips arbitrary: m) (auto simp: gomap.lookup_put)
  then show ?thesis by (simp add: hostOf_def)
qed

lemma vouchers_refresh:
  assumes "pool_ok p"
  shows "vouchers (refresh (Some ips) port p) url =
     (if url \<in> (\<lambda>ip. workerURL ip port) ` set ips then insert DNS (vouchers p url)
      else vouchers p url - {DNS})"
proof -
  let ?seen = "hostOf ips port"
  let ?p1 = "fold (\<lambda>x. vouch (bit_of DNS) id 0 (snd x) (fst x)) ?seen p"
  have ok: "pool_ok ?p1" using assms by (rule fold_vouch_ok) simp
  have dom: "url \<in> fst ` set ?seen \<longleftrightarrow> url \<in> (\<lambda>ip. workerURL ip port) ` set ips"
    using hostOf_dom [of ips port url] by (auto simp: map_of_eq_None_iff)
  have v: "vouchers ?p1 url = (if url \<in> fst ` set ?seen then insert DNS (vouchers p url) else vouchers p url)"
    by (rule vouchers_fold_vouch) simp
  have "refresh (Some ips) port p =
      ?p1\<lparr>workers := sweep (bit_of DNS) (\<lambda>url w. map_of ?seen url \<noteq> None) (workers ?p1)\<rparr>"
    by (simp add: refresh_def Let_def case_prod_unfold)
  then show ?thesis
    using vouchers_sweep [OF ok, of DNS "\<lambda>url w. map_of ?seen url \<noteq> None" url] v dom
      hostOf_dom [of ips port url] in_pool_iff [OF ok, of url]
    by (auto split: option.splits)
qed

lemma vouchers_loadList:
  "vouchers (loadList es p) url =
     (if url \<in> hp_url ` set es then insert LIST (vouchers p url) else vouchers p url)"
  using vouchers_fold_vouch [of id LIST 0 hp_host hp_url es p url] by (simp add: loadList_def)

lemma vouchers_register:
  "vouchers (snd (register host port now p)) url =
     (if url = workerURL host port then insert PUSH (vouchers p url) else vouchers p url)"
  using vouchers_vouch [of "\<lambda>w. w\<lparr>lastHeartbeat := now\<rparr>" PUSH]
  by (simp add: register_def Let_def)

lemma vouchers_reapPush:
  assumes "pool_ok p"
  shows "vouchers (reapPush now timeout p) url =
     (case map_of (workers p) url of
        None \<Rightarrow> {}
      | Some w \<Rightarrow> if now - lastHeartbeat w \<le> timeout then vouchers p url else vouchers p url - {PUSH})"
  using vouchers_sweep [OF assms, of PUSH] by (simp add: reapPush_def)

section \<open>The contract of a discovery source\<close>

text \<open>
  Three sources change the same pool. What each may rely on is that the others only ever touch
  their own bit; a worker therefore leaves the pool only when its last source lets go of it.
\<close>

locale discovery =
  fixes op :: "pool \<Rightarrow> pool" and s :: source
  assumes keeps_ok: "pool_ok p \<Longrightarrow> pool_ok (op p)"
    and own_bit: "pool_ok p \<Longrightarrow> vouchers (op p) url - {s} = vouchers p url - {s}"
begin

lemma other_source_keeps:
  "pool_ok p \<Longrightarrow> s' \<in> vouchers p url \<Longrightarrow> s' \<noteq> s \<Longrightarrow> map_of (workers (op p)) url \<noteq> None"
  using own_bit [of p url] in_pool_iff [of "op p" url] keeps_ok [of p] by blast

lemma removed_was_sole:
  "pool_ok p \<Longrightarrow> map_of (workers p) url \<noteq> None \<Longrightarrow> map_of (workers (op p)) url = None \<Longrightarrow>
     vouchers p url = {s}"
  using own_bit [of p url] in_pool_iff [of p url] in_pool_iff [of "op p" url] keeps_ok [of p]
  by auto

lemma added_is_sole:
  "pool_ok p \<Longrightarrow> map_of (workers p) url = None \<Longrightarrow> map_of (workers (op p)) url \<noteq> None \<Longrightarrow>
     vouchers (op p) url = {s}"
  using own_bit [of p url] in_pool_iff [of p url] in_pool_iff [of "op p" url] keeps_ok [of p]
  by auto

end

interpretation dnsOp: discovery "refresh lookup port" DNS for lookup port
proof
  fix p url
  assume "pool_ok p"
  then show "vouchers (refresh lookup port p) url - {DNS} = vouchers p url - {DNS}"
    by (cases lookup) (auto simp: refresh_def [of None] vouchers_refresh)
qed (rule refresh_ok)

interpretation listOp: discovery "loadList es" LIST for es
  by unfold_locales (auto simp: loadList_ok vouchers_loadList)

interpretation pushOp: discovery "\<lambda>p. snd (register host port now p)" PUSH for host port now
  by unfold_locales (auto simp: register_ok vouchers_register)

interpretation reapOp: discovery "reapPush now timeout" PUSH for now timeout
proof
  fix p url
  assume "pool_ok p"
  then show "vouchers (reapPush now timeout p) url - {PUSH} = vouchers p url - {PUSH}"
    by (auto simp: vouchers_reapPush vouchers_def [of p] split: option.splits)
qed (rule reapPush_ok)

section \<open>URLs\<close>

lemma itoa_no_colon: "CHR '':'' \<notin> set (itoa i)"
proof -
  have "CHR '':'' \<notin> set (utoa n)" for n
    using utoa_digits [of n] by (auto simp: is_digit_def)
  then show ?thesis by (simp add: itoa_def)
qed

lemma colon_split_unique:
  assumes "a @ '':'' @ b = c @ '':'' @ d" and "CHR '':'' \<notin> set b" and "CHR '':'' \<notin> set d"
  shows "a = c \<and> b = d"
proof -
  have rest: "takeWhile (\<lambda>x. x \<noteq> CHR '':'') (rev s @ CHR '':'' # t) = rev s"
    if "CHR '':'' \<notin> set s" for s t :: string
    using that by (subst takeWhile_append2) auto
  have "rev b @ CHR '':'' # rev a = rev d @ CHR '':'' # rev c"
    using arg_cong [OF assms(1), of rev] by simp
  then have "rev b = rev d"
    using rest [OF assms(2), of "rev a"] rest [OF assms(3), of "rev c"] by simp
  then show ?thesis using assms(1) by simp
qed

lemma joinHostPort_inj:
  assumes "joinHostPort h (itoa p) = joinHostPort h' (itoa p')"
  shows "h = h' \<and> p = p'"
proof -
  define b where "b h = (if CHR '':'' \<in> set h then ''['' @ h @ '']'' else h)" for h :: string
  have form: "joinHostPort h (itoa p) = b h @ '':'' @ itoa p" for h p
    by (simp add: joinHostPort_def b_def)
  have eq: "b h = b h'" "itoa p = itoa p'"
    using colon_split_unique [OF assms [unfolded form] itoa_no_colon itoa_no_colon] by simp_all
  have "CHR '':'' \<in> set (b x) \<longleftrightarrow> CHR '':'' \<in> set x" for x
    by (simp add: b_def)
  with eq(1) have "CHR '':'' \<in> set h \<longleftrightarrow> CHR '':'' \<in> set h'" by metis
  with eq(1) have "h = h'" unfolding b_def by (cases "CHR '':'' \<in> set h") simp_all
  with eq(2) show ?thesis by (simp add: itoa_inj)
qed

lemma workerURL_inj: "workerURL h p = workerURL h' p' \<longleftrightarrow> h = h' \<and> p = p'"
  by (auto simp: workerURL_def dest: joinHostPort_inj)

section \<open>The list parser\<close>

lemma filter_map_mem: "y \<in> set (filter_map f xs) \<longleftrightarrow> (\<exists>x\<in>set xs. f x = Some y)"
  by (induction xs) (auto split: option.splits)

lemma filter_map_map: "(\<forall>x\<in>set xs. f (g x) = Some x) \<Longrightarrow> filter_map f (map g xs) = xs"
  by (induction xs) auto

lemma parseEntry_range:
  "parseEntry d raw = Some hp \<Longrightarrow> 1 \<le> d \<Longrightarrow> d \<le> 65535 \<Longrightarrow>
     hp_host hp \<noteq> [] \<and> 1 \<le> hp_port hp \<and> hp_port hp \<le> 65535"
  by (auto simp: parseEntry_def Let_def split: option.splits if_splits)

text \<open>A plain entry \<open>host:port\<close>: no whitespace, comma or colon in the host.\<close>

definition plain_host :: "string \<Rightarrow> bool" where
  "plain_host h \<longleftrightarrow> h \<noteq> [] \<and> list_all (\<lambda>c. \<not> is_space c \<and> c \<noteq> CHR '':'' \<and> c \<noteq> CHR '','') h"

definition print_entry :: "hostPort \<Rightarrow> string" where
  "print_entry hp = hp_host hp @ '':'' @ itoa (hp_port hp)"

lemma trim_space_id: "s = [] \<or> (\<not> is_space (hd s) \<and> \<not> is_space (last s)) \<Longrightarrow> trim_space s = s"
proof (cases "s = []")
  case False
  assume "s = [] \<or> (\<not> is_space (hd s) \<and> \<not> is_space (last s))"
  with False have h: "\<not> is_space (hd s)" and l: "\<not> is_space (hd (rev s))"
    by (auto simp: hd_rev)
  from False h have "dropWhile is_space s = s" by (cases s) auto
  moreover from False l have "dropWhile is_space (rev s) = rev s" by (cases "rev s") auto
  ultimately show ?thesis by (simp add: trim_space_def trim_right_def)
qed (simp add: trim_space_def trim_right_def)

lemma digit_not_space: "is_digit c \<Longrightarrow> \<not> is_space c"
  by (auto simp: is_digit_def is_space_def)

lemma str_last_index_none: "c \<notin> set s \<Longrightarrow> str_last_index s [c] = None"
  by (induction s) (auto simp: has_prefix_def)

lemma str_last_index_last:
  "c \<notin> set b \<Longrightarrow> str_last_index (a @ c # b) [c] = Some (length a)"
  by (induction a) (auto simp: str_last_index_none has_prefix_def)

lemma parseEntry_print:
  assumes "plain_host (hp_host hp)" and "1 \<le> hp_port hp" and "hp_port hp \<le> 65535"
  shows "parseEntry d (print_entry hp) = Some hp"
proof -
  let ?h = "hp_host hp" and ?n = "itoa (hp_port hp)"
  have n: "?n = utoa (nat (hp_port hp))" using assms(2) by (simp add: itoa_def)
  have dig: "\<forall>c\<in>set ?n. is_digit c" unfolding n by (rule utoa_digits)
  have h: "?h \<noteq> []" "\<not> is_space (hd ?h)" "\<not> is_space (last ?h)"
    using assms(1) by (auto simp: plain_host_def list_all_iff)
  have "trim_space (print_entry hp) = print_entry hp"
    using h dig digit_not_space by (intro trim_space_id) (auto simp: print_entry_def)
  moreover have "str_last_index (print_entry hp) '':'' = Some (length ?h)"
    using str_last_index_last [OF itoa_no_colon, of ?h "hp_port hp"] by (simp add: print_entry_def)
  moreover have "trim_space ?h = ?h" "trim_space ?n = ?n"
    using h dig digit_not_space by (intro trim_space_id; auto)+
  moreover have "atoi ?n = Some (hp_port hp)"
    using assms(2,3) by (intro atoi_itoa) auto
  ultimately show ?thesis
    using assms(2,3) h(1) by (auto simp: parseEntry_def Let_def print_entry_def)
qed

end
