(* ===== verification/OrchSched.thy ===== *)
theory OrchSched
  imports OrchPool
begin

text \<open>
  Load, probing and scheduling (\<open>src/orchestrator/main.go\<close>): what a worker's load is, how a
  \<open>/capability\<close> probe updates it, and the order in which a dispatch tries the healthy workers.
  Sorting reads each worker's key once; \<open>sort.SliceStable\<close> is HOL's stable \<open>sort_key\<close>, and
  \<open>rand.Shuffle\<close> is the Fisher-Yates loop over a given stream of random numbers.
\<close>

section \<open>Load of a worker\<close>

definition counts_in_flight :: "worker \<Rightarrow> gotime \<Rightarrow> bool" where
  "counts_in_flight w t0 \<longleftrightarrow> \<not> t0 < lastProbeStart w"

definition inFlight :: "worker \<Rightarrow> int" where
  "inFlight w = pending w + int (length (filter (\<lambda>(tk, t0). counts_in_flight w t0) (accepted w)))"

definition load :: "worker \<Rightarrow> go_float" where
  "load w =
     (if \<not> healthy w then 2 ^ 30
      else (let combined = of_int (activeSessions w) + of_int (inFlight w);
                sessLoad = (if 0 < maxSessions w then combined / of_int (maxSessions w) else combined)
            in if sessLoad < gpuLoad w then gpuLoad w else sessLoad))"

definition sessions :: "worker \<Rightarrow> int" where
  "sessions w = activeSessions w + inFlight w"

definition isHW :: "worker \<Rightarrow> bool" where
  "isHW w \<longleftrightarrow> backend w \<noteq> ''sw''"

definition backendStr :: "worker \<Rightarrow> string" where
  "backendStr w = (if backend w = [] then ''unknown'' else backend w)"

definition markDown :: "string \<Rightarrow> gotime \<Rightarrow> worker \<Rightarrow> worker" where
  "markDown reason now w = w\<lparr>healthy := False, lastErr := reason, downAt := now\<rparr>"

definition healthySince :: "worker \<Rightarrow> gotime \<Rightarrow> bool" where
  "healthySince w t \<longleftrightarrow> healthy w \<and> t < lastProbeStart w"

section \<open>Probing\<close>

record capabilityResponse =
  c_ffmpegOK :: bool
  c_activeSessions :: int
  c_maxSessions :: int
  c_gpuLoad :: go_float
  c_gpuEngines :: int
  c_backend :: string
  c_ready :: "bool option"
  c_draining :: bool

datatype probe_result =
    ProbeBadRequest string
  | ProbeTransport string
  | ProbeBadJson string
  | ProbeOk capabilityResponse

definition probeWorker :: "gotime \<Rightarrow> gotime \<Rightarrow> probe_result \<Rightarrow> worker \<Rightarrow> worker" where
  "probeWorker start now res w =
     (case res of
        ProbeBadRequest e \<Rightarrow> w\<lparr>healthy := False, lastErr := e\<rparr>
      | ProbeTransport e \<Rightarrow> w\<lparr>healthy := False, lastErr := e, lastUpdated := now\<rparr>
      | ProbeBadJson e \<Rightarrow> w\<lparr>healthy := False, lastErr := ''bad json: '' @ e, lastUpdated := now\<rparr>
      | ProbeOk c \<Rightarrow> w\<lparr>
          healthy := c_ffmpegOK c \<and> \<not> c_draining c \<and> (c_ready c = None \<or> c_ready c = Some True),
          lastProbeStart := start,
          activeSessions := c_activeSessions c,
          maxSessions := c_maxSessions c,
          gpuLoad := c_gpuLoad c,
          gpuEngines := c_gpuEngines c,
          backend := c_backend c,
          lastErr := (if c_draining c then ''draining''
                      else if c_ready c = Some False then ''warming'' else ''''),
          lastUpdated := now\<rparr>)"

text \<open>\<open>probeAllSync\<close>: every worker of the pool is probed; \<open>net\<close> gives each URL its answer.\<close>

definition probeAllSync :: "gotime \<Rightarrow> gotime \<Rightarrow> (string \<Rightarrow> probe_result) \<Rightarrow> pool \<Rightarrow> pool" where
  "probeAllSync start now net p =
     p\<lparr>workers := map (\<lambda>(url, w). (url, probeWorker start now (net (w_url w)) w)) (workers p)\<rparr>"

definition rediscover ::
    "gotime \<Rightarrow> gotime \<Rightarrow> string list option \<Rightarrow> (string \<Rightarrow> probe_result) \<Rightarrow> pool \<Rightarrow> pool" where
  "rediscover start now lookup net p =
     probeAllSync start now net
       (if pool_dns p \<noteq> [] then refresh lookup (pool_port p) p else p)"

section \<open>Strategies and the schedule\<close>

definition parseLBStrategy :: "string \<Rightarrow> lbStrategy" where
  "parseLBStrategy s =
     (let v = to_lower (trim_space s)
      in if v \<in> {''round-robin'', ''roundrobin'', ''rr''} then LbRoundRobin
         else if v \<in> {''least-sessions'', ''least_sessions'', ''sessions''} then LbLeastSessions
         else if v = ''random'' then LbRandom else LbLoad)"

fun lb_string :: "lbStrategy \<Rightarrow> string" where
  "lb_string LbRoundRobin = ''round-robin''"
| "lb_string LbLeastSessions = ''least-sessions''"
| "lb_string LbRandom = ''random''"
| "lb_string LbLoad = ''load''"

definition swap_at :: "nat \<Rightarrow> nat \<Rightarrow> 'a list \<Rightarrow> 'a list" where
  "swap_at i j xs = xs[i := xs ! j, j := xs ! i]"

fun shuffle_loop :: "(nat \<Rightarrow> nat) \<Rightarrow> nat \<Rightarrow> 'a list \<Rightarrow> 'a list" where
  "shuffle_loop rnd 0 xs = xs"
| "shuffle_loop rnd (Suc i) xs = shuffle_loop rnd i (swap_at (Suc i) (rnd (Suc i) mod (i + 2)) xs)"

definition rand_shuffle :: "(nat \<Rightarrow> nat) \<Rightarrow> 'a list \<Rightarrow> 'a list" where
  "rand_shuffle rnd xs = shuffle_loop rnd (length xs - 1) xs"

definition orderTier :: "lbStrategy \<Rightarrow> (nat \<Rightarrow> nat) \<Rightarrow> u64 \<Rightarrow> worker list \<Rightarrow> worker list" where
  "orderTier st rnd rr ws =
     (case st of
        LbLeastSessions \<Rightarrow> sort_key sessions ws
      | LbRandom \<Rightarrow> rand_shuffle rnd ws
      | LbRoundRobin \<Rightarrow>
          (let ws' = sort_key w_url ws; n = length ws'
           in if 0 < n
              then (let off = unat ((rr - 1) mod of_nat n) in drop off ws' @ take off ws')
              else ws')
      | LbLoad \<Rightarrow> sort_key load ws)"

text \<open>\<open>schedule\<close> on one listing \<open>ws\<close> of the pool; round-robin advances the cursor by one.\<close>

definition schedule :: "(nat \<Rightarrow> nat) \<Rightarrow> worker list \<Rightarrow> pool \<Rightarrow> worker list \<times> pool" where
  "schedule rnd ws p =
     (let hs = filter healthy ws;
          (rr, p') = (if strategy p = LbRoundRobin
                      then (rrCursor p + 1, p\<lparr>rrCursor := rrCursor p + 1\<rparr>) else (0, p))
      in if flatPool p then (orderTier (strategy p) rnd rr hs, p')
         else (let hw = filter isHW hs; sw = filter (\<lambda>w. \<not> isHW w) hs
               in (orderTier (strategy p) rnd rr hw @ orderTier (strategy p) rnd rr sw, p')))"

section \<open>The session tracker\<close>

type_synonym tracker = "(string \<times> string) list"

definition tracker_set :: "string \<Rightarrow> string \<Rightarrow> tracker \<Rightarrow> tracker" where
  "tracker_set sid url m = AList.update sid url m"

definition tracker_get :: "string \<Rightarrow> tracker \<Rightarrow> string" where
  "tracker_get sid m = (case map_of m sid of None \<Rightarrow> '''' | Some u \<Rightarrow> u)"

definition tracker_del :: "string \<Rightarrow> tracker \<Rightarrow> tracker" where
  "tracker_del sid m = AList.delete sid m"

section \<open>Every tier order is a permutation\<close>

lemma mset_swap_at: "i < length xs \<Longrightarrow> j < length xs \<Longrightarrow> mset (swap_at i j xs) = mset xs"
  by (simp add: swap_at_def mset_swap)

lemma mset_shuffle_loop: "i < length xs \<or> i = 0 \<Longrightarrow> mset (shuffle_loop rnd i xs) = mset xs"
proof (induction rnd i xs rule: shuffle_loop.induct)
  case (2 rnd i xs)
  then have len: "Suc i < length xs" by simp
  have "rnd (Suc i) mod (i + 2) < length xs"
    using len pos_mod_bound [of "i + 2" "rnd (Suc i)"] mod_less_divisor [of "i + 2" "rnd (Suc i)"]
    by linarith
  with len 2 show ?case by (simp add: mset_swap_at swap_at_def mset_swap)
qed simp

lemma mset_rand_shuffle [simp]: "mset (rand_shuffle rnd xs) = mset xs"
proof (cases xs)
  case (Cons y ys)
  then show ?thesis unfolding rand_shuffle_def by (intro mset_shuffle_loop) simp
qed (simp add: rand_shuffle_def)

lemma mset_rotate_at: "mset (drop n xs @ take n xs) = mset xs"
  by (metis append_take_drop_id mset_append union_commute)

lemma sort_key_Nil [simp]: "sort_key f xs = [] \<longleftrightarrow> xs = []"
  by (metis length_0_conv length_sort)

lemma mset_orderTier [simp]: "mset (orderTier st rnd rr ws) = mset ws"
  by (cases st) (auto simp: orderTier_def Let_def mset_rotate_at simp del: mset_append)

lemma set_orderTier [simp]: "set (orderTier st rnd rr ws) = set ws"
  by (metis mset_orderTier set_mset_mset)

text \<open>
  What \<open>schedule\<close> relies on of the order inside a tier is only that it is a permutation; the two
  tiers then partition the healthy workers with the hardware tier in front.
\<close>

locale tier_order =
  fixes ord :: "worker list \<Rightarrow> worker list"
  assumes ord_perm: "mset (ord ws) = mset ws"
begin

lemma ord_set: "set (ord ws) = set ws"
  using ord_perm [of ws] mset_eq_setD by blast

lemma tiers_perm:
  "mset (ord (filter isHW ws) @ ord (filter (\<lambda>w. \<not> isHW w) ws)) = mset ws"
  by (simp add: ord_perm)

lemma tiers_split:
  fixes ws
  defines "r \<equiv> ord (filter isHW ws) @ ord (filter (\<lambda>w. \<not> isHW w) ws)"
  shows "filter isHW r = ord (filter isHW ws)"
    and "filter (\<lambda>w. \<not> isHW w) r = ord (filter (\<lambda>w. \<not> isHW w) ws)"
proof -
  have "filter isHW (ord (filter isHW ws)) = ord (filter isHW ws)"
    "filter isHW (ord (filter (\<lambda>w. \<not> isHW w) ws)) = []"
    "filter (\<lambda>w. \<not> isHW w) (ord (filter isHW ws)) = []"
    "filter (\<lambda>w. \<not> isHW w) (ord (filter (\<lambda>w. \<not> isHW w) ws)) = ord (filter (\<lambda>w. \<not> isHW w) ws)"
    by (auto simp: filter_id_conv filter_empty_conv ord_set)
  then show "filter isHW r = ord (filter isHW ws)"
    and "filter (\<lambda>w. \<not> isHW w) r = ord (filter (\<lambda>w. \<not> isHW w) ws)"
    by (simp_all add: r_def)
qed

end

interpretation tiers: tier_order "orderTier st rnd rr" for st rnd rr
  by unfold_locales simp

lemma schedule_flat: "flatPool p \<Longrightarrow> \<exists>rr. fst (schedule rnd ws p) = orderTier (strategy p) rnd rr (filter healthy ws)"
  by (auto simp: schedule_def Let_def split: if_splits)

lemma schedule_tiered:
  "\<not> flatPool p \<Longrightarrow> \<exists>rr. fst (schedule rnd ws p) =
     orderTier (strategy p) rnd rr (filter isHW (filter healthy ws)) @
     orderTier (strategy p) rnd rr (filter (\<lambda>w. \<not> isHW w) (filter healthy ws))"
  by (auto simp: schedule_def Let_def split: if_splits)

lemma schedule_mset: "mset (fst (schedule rnd ws p)) = mset (filter healthy ws)"
proof (cases "flatPool p")
  case True
  then show ?thesis using schedule_flat [of p rnd ws] by auto
next
  case False
  then obtain rr where "fst (schedule rnd ws p) =
     orderTier (strategy p) rnd rr (filter isHW (filter healthy ws)) @
     orderTier (strategy p) rnd rr (filter (\<lambda>w. \<not> isHW w) (filter healthy ws))"
    using schedule_tiered by blast
  then show ?thesis by (simp only: tiers.tiers_perm)
qed

lemma schedule_pool: "snd (schedule rnd ws p) = p \<or> snd (schedule rnd ws p) = p\<lparr>rrCursor := rrCursor p + 1\<rparr>"
  by (auto simp: schedule_def Let_def)

section \<open>Sorted tiers, round robin\<close>

lemma orderTier_load_sorted: "sorted (map load (orderTier LbLoad rnd rr ws))"
  by (simp add: orderTier_def)

lemma orderTier_sessions_sorted: "sorted (map sessions (orderTier LbLeastSessions rnd rr ws))"
  by (simp add: orderTier_def)

lemma unat_mod_length:
  "0 < n \<Longrightarrow> n < 2 ^ 64 \<Longrightarrow> unat ((x :: u64) mod of_nat n) = unat x mod n"
  by (simp add: unat_mod unat_of_nat)

lemma orderTier_rr_rotate:
  assumes "length ws < 2 ^ 64"
  shows "orderTier LbRoundRobin rnd rr ws = rotate (unat (rr - 1)) (sort_key w_url ws)"
proof (cases "ws = []")
  case False
  then have "0 < length ws" by simp
  then show ?thesis
    using assms by (simp add: orderTier_def Let_def rotate_drop_take unat_mod_length)
qed (simp add: orderTier_def)

lemma orderTier_rr_hd:
  assumes "length ws < 2 ^ 64" and "ws \<noteq> []"
  shows "hd (orderTier LbRoundRobin rnd rr ws) = sort_key w_url ws ! (unat (rr - 1) mod length ws)"
proof -
  have "sort_key w_url ws \<noteq> []" using assms(2) by (metis length_0_conv length_sort)
  then show ?thesis using assms(1) by (simp add: orderTier_rr_rotate hd_rotate_conv_nth)
qed

text \<open>Over as many dispatches as there are workers, each worker is the first choice exactly once.\<close>

lemma round_robin_heads:
  assumes "ws \<noteq> []" and "unat c + length ws < 2 ^ 64"
  shows "map (\<lambda>k. hd (orderTier LbRoundRobin rnd (c + of_nat k + 1) ws)) [0..<length ws] =
     rotate (unat c) (sort_key w_url ws)"
proof -
  let ?s = "sort_key w_url ws" and ?n = "length ws"
  have "hd (orderTier LbRoundRobin rnd (c + of_nat k + 1) ws) = rotate (unat c) ?s ! k" if "k < ?n" for k
  proof -
    have "unat (of_nat k :: u64) = k" using that assms(2) by (simp add: unat_of_nat)
    then have "unat (c + of_nat k) = unat c + k"
      using that assms(2) by (subst unat_plus_simple [THEN iffD1])
        (auto simp: no_olen_add_nat)
    then show ?thesis
      using that assms by (simp add: orderTier_rr_hd nth_rotate)
  qed
  then have "map (\<lambda>k. hd (orderTier LbRoundRobin rnd (c + of_nat k + 1) ws)) [0..<?n] =
      map (\<lambda>k. rotate (unat c) ?s ! k) [0..<length (rotate (unat c) ?s)]"
    by simp
  then show ?thesis by (simp only: map_nth)
qed

section \<open>Probing keeps the pool's invariant\<close>

lemma keeps_id_probe [simp]: "keeps_id (probeWorker start now res)"
  by (auto simp: keeps_id_def probeWorker_def split: probe_result.split)

lemma keeps_id_markDown [simp]: "keeps_id (markDown e now)"
  by (simp add: keeps_id_def markDown_def)

lemma probeAllSync_ok [inv_intros]:
  assumes "pool_ok p"
  shows "pool_ok (probeAllSync start now net p)"
proof -
  have "keeps_id (\<lambda>w. probeWorker start now (net (w_url w)) w)"
    using keeps_id_probe [of start now] by (simp add: keeps_id_def)
  from map_workers_ok [OF assms this] show ?thesis by (simp add: probeAllSync_def)
qed

lemma rediscover_ok [inv_intros]: "pool_ok p \<Longrightarrow> pool_ok (rediscover start now lookup net p)"
  by (auto simp: rediscover_def intro: inv_intros)

lemma schedule_ok [inv_intros]: "pool_ok p \<Longrightarrow> pool_ok (snd (schedule rnd ws p))"
  using schedule_pool [of rnd ws p] by (auto simp: pool_ok_def)

section \<open>The pool as a machine\<close>

datatype pool_op =
    OpRefresh "string list option" int
  | OpLoadList "hostPort list"
  | OpRegister string int gotime
  | OpReap gotime int
  | OpProbe nat gotime gotime probe_result
  | OpProbeAll gotime gotime "string \<Rightarrow> probe_result"
  | OpMarkDown nat string gotime
  | OpSchedule "nat \<Rightarrow> nat" "worker list"

fun pool_step :: "pool_op \<Rightarrow> pool \<Rightarrow> pool" where
  "pool_step (OpRefresh l port) p = refresh l port p"
| "pool_step (OpLoadList es) p = loadList es p"
| "pool_step (OpRegister h port now) p = snd (register h port now p)"
| "pool_step (OpReap now timeout) p = reapPush now timeout p"
| "pool_step (OpProbe ptr start now res) p = on_worker ptr (probeWorker start now res) p"
| "pool_step (OpProbeAll start now net) p = probeAllSync start now net p"
| "pool_step (OpMarkDown ptr e now) p = on_worker ptr (markDown e now) p"
| "pool_step (OpSchedule rnd ws) p = snd (schedule rnd ws p)"

lemma pool_step_ok: "pool_ok p \<Longrightarrow> pool_ok (pool_step e p)"
  by (cases e) (auto intro: inv_intros)

interpretation poolm: machine pool_step pool_ok
  by unfold_locales (rule pool_step_ok)

definition empty_pool :: "lbStrategy \<Rightarrow> bool \<Rightarrow> string \<Rightarrow> int \<Rightarrow> pool" where
  "empty_pool st flat dns port =
     \<lparr>workers = [], next_ptr = 0, strategy = st, flatPool = flat, rrCursor = 0,
      pool_dns = dns, pool_port = port\<rparr>"

lemma empty_pool_ok: "pool_ok (empty_pool st flat dns port)"
  by (simp add: empty_pool_def pool_ok_def distinct_keys_def)

end
