(* ===== verification/OrchTicket.thy ===== *)
theory OrchTicket
  imports OrchSched
begin

text \<open>
  Dispatch tickets (\<open>src/orchestrator/failover.go\<close>): what one dispatch attempt adds to a worker's
  in-flight load, from \<open>begin\<close> over \<open>accept\<close> to \<open>end\<close>. The state is one worker object and the
  tickets allocated for it so far; a ticket's index is its pointer. Tickets of concurrent requests
  interleave, so an execution is any list of ticket and probe events.
\<close>

record ticket =
  t_accepted :: bool
  t_ended :: bool

record tsys =
  tw :: worker
  tickets :: "ticket list"

definition dispatchBegin :: "worker \<Rightarrow> worker" where
  "dispatchBegin w = w\<lparr>pending := pending w + 1\<rparr>"

definition dispatchEnd :: "worker \<Rightarrow> worker" where
  "dispatchEnd w = w\<lparr>pending := pending w - 1\<rparr>"

text \<open>\<open>begin\<close> returns the new ticket's pointer.\<close>

definition ticket_begin :: "tsys \<Rightarrow> nat \<times> tsys" where
  "ticket_begin s = (length (tickets s),
     s\<lparr>tw := dispatchBegin (tw s), tickets := tickets s @ [\<lparr>t_accepted = False, t_ended = False\<rparr>]\<rparr>)"

definition ticket_accept :: "nat \<Rightarrow> gotime \<Rightarrow> tsys \<Rightarrow> tsys" where
  "ticket_accept i now s =
     (let t = tickets s ! i
      in if t_accepted t \<or> t_ended t then s
         else (let w = dispatchEnd (tw s)
               in s\<lparr>tickets := (tickets s)[i := t\<lparr>t_accepted := True\<rparr>],
                    tw := w\<lparr>accepted := AList.update i now (accepted w)\<rparr>\<rparr>))"

definition ticket_end :: "nat \<Rightarrow> tsys \<Rightarrow> tsys" where
  "ticket_end i s =
     (let t = tickets s ! i
      in if t_ended t then s
         else (let s' = s\<lparr>tickets := (tickets s)[i := t\<lparr>t_ended := True\<rparr>]\<rparr>
               in if \<not> t_accepted t then s'\<lparr>tw := dispatchEnd (tw s)\<rparr>
                  else s'\<lparr>tw := (tw s)\<lparr>accepted := AList.delete i (accepted (tw s))\<rparr>\<rparr>))"

definition pendingAndAcceptedLocked :: "worker \<Rightarrow> int" where
  "pendingAndAcceptedLocked w =
     pending w + int (length (filter (\<lambda>(tk, t0). counts_in_flight w t0) (accepted w)))"

section \<open>Events\<close>

datatype tevent = TBegin | TAccept nat gotime | TEnd nat | TProbe gotime gotime probe_result

text \<open>Only allocated tickets are used: an event on an unknown index does not occur.\<close>

fun tstep :: "tevent \<Rightarrow> tsys \<Rightarrow> tsys" where
  "tstep TBegin s = snd (ticket_begin s)"
| "tstep (TAccept i now) s = (if i < length (tickets s) then ticket_accept i now s else s)"
| "tstep (TEnd i) s = (if i < length (tickets s) then ticket_end i s else s)"
| "tstep (TProbe start now res) s = s\<lparr>tw := probeWorker start now res (tw s)\<rparr>"

definition is_pending :: "ticket \<Rightarrow> bool" where
  "is_pending t \<longleftrightarrow> \<not> t_accepted t \<and> \<not> t_ended t"

definition is_live :: "ticket \<Rightarrow> bool" where
  "is_live t \<longleftrightarrow> t_accepted t \<and> \<not> t_ended t"

definition tickets_ok :: "tsys \<Rightarrow> bool" where
  "tickets_ok s \<longleftrightarrow> distinct_keys (accepted (tw s))
     \<and> pending (tw s) = int (length (filter is_pending (tickets s)))
     \<and> (\<forall>i. map_of (accepted (tw s)) i \<noteq> None \<longleftrightarrow> i < length (tickets s) \<and> is_live (tickets s ! i))"

definition fresh_worker :: "worker \<Rightarrow> bool" where
  "fresh_worker w \<longleftrightarrow> pending w = 0 \<and> accepted w = []"

lemma tickets_ok_init: "fresh_worker w \<Longrightarrow> tickets_ok \<lparr>tw = w, tickets = []\<rparr>"
  by (simp add: tickets_ok_def fresh_worker_def distinct_keys_def)

lemma length_filter_update:
  "i < length xs \<Longrightarrow> length (filter P (xs[i := y])) + (if P (xs ! i) then 1 else 0) =
     length (filter P xs) + (if P y then 1 else 0)"
proof (induction xs arbitrary: i)
  case (Cons x xs)
  then show ?case by (cases i) auto
qed simp

lemma ticket_begin_ok [inv_intros]: "tickets_ok s \<Longrightarrow> tickets_ok (snd (ticket_begin s))"
  by (auto simp: tickets_ok_def ticket_begin_def dispatchBegin_def is_pending_def is_live_def nth_append
      less_Suc_eq)

lemma ticket_accept_ok [inv_intros]:
  assumes "tickets_ok s" and "i < length (tickets s)"
  shows "tickets_ok (ticket_accept i now s)"
proof (cases "is_pending (tickets s ! i)")
  case True
  let ?t = "(tickets s ! i)\<lparr>t_accepted := True\<rparr>"
  have "length (filter is_pending ((tickets s)[i := ?t])) + 1 = length (filter is_pending (tickets s))"
    using length_filter_update [OF assms(2), of is_pending ?t] True by (simp add: is_pending_def)
  with True assms show ?thesis
    by (auto simp: tickets_ok_def ticket_accept_def Let_def is_pending_def is_live_def dispatchEnd_def
        gomap.ok_put gomap.lookup_put nth_list_update)
next
  case False
  with assms show ?thesis by (simp add: ticket_accept_def Let_def is_pending_def)
qed

lemma ticket_end_ok [inv_intros]:
  assumes "tickets_ok s" and "i < length (tickets s)"
  shows "tickets_ok (ticket_end i s)"
proof (cases "t_ended (tickets s ! i)")
  case True
  with assms show ?thesis by (simp add: ticket_end_def)
next
  case False
  let ?t = "(tickets s ! i)\<lparr>t_ended := True\<rparr>"
  have "length (filter is_pending ((tickets s)[i := ?t])) + (if t_accepted (tickets s ! i) then 0 else 1) =
      length (filter is_pending (tickets s))"
    using length_filter_update [OF assms(2), of is_pending ?t] False
    by (auto simp: is_pending_def split: if_splits)
  with False assms show ?thesis
    by (auto simp: tickets_ok_def ticket_end_def Let_def is_live_def is_pending_def dispatchEnd_def
        gomap.ok_remove gomap.lookup_remove nth_list_update)
qed

lemma probe_tickets [simp]:
  "pending (probeWorker st now res w) = pending w"
  "accepted (probeWorker st now res w) = accepted w"
  by (auto simp: probeWorker_def split: probe_result.split)

lemma tprobe_ok [inv_intros]:
  "tickets_ok s \<Longrightarrow> tickets_ok (s\<lparr>tw := probeWorker st now res (tw s)\<rparr>)"
  by (simp add: tickets_ok_def)

lemma tstep_ok: "tickets_ok s \<Longrightarrow> tickets_ok (tstep e s)"
  by (cases e) (auto intro: inv_intros)

interpretation ticketm: machine tstep tickets_ok
  by unfold_locales (rule tstep_ok)

section \<open>Facts about the counts\<close>

lemma pending_nonneg: "tickets_ok s \<Longrightarrow> 0 \<le> pending (tw s)"
  by (simp add: tickets_ok_def)

lemma no_live_accepted: "tickets_ok s \<Longrightarrow> \<forall>t\<in>set (tickets s). \<not> is_live t \<Longrightarrow> accepted (tw s) = []"
proof -
  assume ok: "tickets_ok s" and dead: "\<forall>t\<in>set (tickets s). \<not> is_live t"
  have none: "map_of (accepted (tw s)) i = None" for i
    using ok dead by (metis tickets_ok_def nth_mem)
  show "accepted (tw s) = []"
  proof (cases "accepted (tw s)")
    case (Cons x xs)
    with none [of "fst x"] show ?thesis by simp
  qed simp
qed

lemma ticket_end_idem:
  "i < length (tickets s) \<Longrightarrow> ticket_end i (ticket_end i s) = ticket_end i s"
  by (simp add: ticket_end_def Let_def)

lemma ticket_accept_idem:
  "i < length (tickets s) \<Longrightarrow> ticket_accept i now' (ticket_accept i now s) = ticket_accept i now s"
  by (simp add: ticket_accept_def Let_def)

lemma ticket_accept_after_end:
  "i < length (tickets s) \<Longrightarrow> ticket_accept i now (ticket_end i s) = ticket_end i s"
  by (simp add: ticket_accept_def ticket_end_def Let_def)

lemma accepted_length:
  assumes "tickets_ok s"
  shows "length (accepted (tw s)) = length (filter is_live (tickets s))"
proof -
  let ?n = "length (tickets s)"
  have d: "distinct (map fst (accepted (tw s)))"
    using assms by (simp add: tickets_ok_def distinct_keys_def)
  have "i \<in> set (map fst (accepted (tw s))) \<longleftrightarrow> i < ?n \<and> is_live (tickets s ! i)" for i
    using assms unfolding tickets_ok_def by (metis map_of_eq_None_iff set_map)
  then have eq: "set (map fst (accepted (tw s))) = {i. i < ?n \<and> is_live (tickets s ! i)}"
    by blast
  have "length (accepted (tw s)) = card (set (map fst (accepted (tw s))))"
    using distinct_card [OF d] by simp
  also have "\<dots> = length (filter is_live (tickets s))"
    unfolding eq by (simp add: length_filter_conv_card)
  finally show ?thesis .
qed

end
