(* ===== verification/OrchCheckpoint.thy ===== *)
theory OrchCheckpoint
  imports OrchPool
begin

text \<open>
  The resume state of the orchestrator (\<open>src/orchestrator/checkpoint.go\<close>): what it reads from an
  ffmpeg argument vector, the cache of resume hints with its time-to-live, and the injection of
  \<open>-ss\<close>, \<open>-copyts\<close> and \<open>-segment_start_number\<close> into the argument vector of a resumed session.
\<close>

section \<open>Reading an argument vector\<close>

definition is_hex :: "char \<Rightarrow> bool" where
  "is_hex c \<longleftrightarrow> (let n = of_char c :: nat
     in 48 \<le> n \<and> n \<le> 57 \<or> 97 \<le> n \<and> n \<le> 102 \<or> 65 \<le> n \<and> n \<le> 70)"

text \<open>The 36 characters of a UUID: hex digits, dashes at 8, 13, 18 and 23.\<close>

definition uuid_shape :: "string \<Rightarrow> bool" where
  "uuid_shape s \<longleftrightarrow> length s = 36 \<and>
     list_all (\<lambda>(i, c). if i \<in> {8, 13, 18, 23} then c = CHR ''-'' else is_hex c) (zip [0..<36] s)"

definition session_path :: string where
  "session_path = ''/transcode/session/''"

text \<open>\<open>progressSessionRE\<close>: the leftmost match of the path, a UUID and a slash.\<close>

definition progress_session_at :: "string \<Rightarrow> string option" where
  "progress_session_at s =
     (let u = take 36 (drop (length session_path) s)
      in if has_prefix s session_path \<and> uuid_shape u
            \<and> has_prefix (drop (length session_path + 36) s) ''/'' then Some u else None)"

fun progress_session :: "string \<Rightarrow> string option" where
  "progress_session [] = None"
| "progress_session (c # cs) = (case progress_session_at (c # cs) of
     Some u \<Rightarrow> Some u | None \<Rightarrow> progress_session cs)"

fun plexSessionFromArgs :: "argv \<Rightarrow> string" where
  "plexSessionFromArgs (a # b # rest) =
     (if a = ''-progressurl'' then
        (case progress_session b of
           Some u \<Rightarrow> to_lower u
         | None \<Rightarrow> plexSessionFromArgs (b # rest))
      else plexSessionFromArgs (b # rest))"
| "plexSessionFromArgs _ = []"

fun initialSeekFromArgs :: "argv \<Rightarrow> go_float" where
  "initialSeekFromArgs (a # b # rest) =
     (if a = ''-i'' then 0
      else if a = ''-ss'' then
        (case parse_float b of Some v \<Rightarrow> v | None \<Rightarrow> initialSeekFromArgs (b # rest))
      else initialSeekFromArgs (b # rest))"
| "initialSeekFromArgs _ = 0"

fun segmentTimeFromArgs :: "argv \<Rightarrow> go_float" where
  "segmentTimeFromArgs (a # b # rest) =
     (if a = ''-segment_time'' then
        (case parse_float b of
           Some v \<Rightarrow> if 0 < v then v else segmentTimeFromArgs (b # rest)
         | None \<Rightarrow> segmentTimeFromArgs (b # rest))
      else segmentTimeFromArgs (b # rest))"
| "segmentTimeFromArgs _ = 1"

section \<open>The cache of resume hints\<close>

record resumeHint =
  originalSeek :: go_float
  segmentTime :: go_float
  lastSeq :: int
  updatedAt :: gotime

record cpcache =
  cp_m :: "(string \<times> resumeHint) list"
  cp_ttl :: int

definition cp_put :: "string \<Rightarrow> resumeHint \<Rightarrow> cpcache \<Rightarrow> cpcache" where
  "cp_put plexID h c = (if plexID = [] then c else c\<lparr>cp_m := AList.update plexID h (cp_m c)\<rparr>)"

definition cp_drop :: "string \<Rightarrow> cpcache \<Rightarrow> cpcache" where
  "cp_drop plexID c = (if plexID = [] then c else c\<lparr>cp_m := AList.delete plexID (cp_m c)\<rparr>)"

text \<open>\<open>get\<close> deletes an entry it finds expired.\<close>

definition cp_get :: "gotime \<Rightarrow> string \<Rightarrow> cpcache \<Rightarrow> resumeHint option \<times> cpcache" where
  "cp_get now plexID c =
     (if plexID = [] then (None, c)
      else case map_of (cp_m c) plexID of
             None \<Rightarrow> (None, c)
           | Some h \<Rightarrow> if cp_ttl c < now - updatedAt h
                       then (None, c\<lparr>cp_m := AList.delete plexID (cp_m c)\<rparr>)
                       else (Some h, c))"

text \<open>One tick of \<open>pollCheckpoint\<close>: \<open>seq\<close> is what \<open>fetchLastSeq\<close> returned.\<close>

definition fetchLastSeq :: "(int \<times> int option) option \<Rightarrow> int option" where
  "fetchLastSeq resp = (case resp of
      None \<Rightarrow> None
    | Some (status, decoded) \<Rightarrow> if status \<noteq> 200 then None else decoded)"

definition pollCheckpoint :: "argv \<Rightarrow> gotime \<Rightarrow> int option \<Rightarrow> cpcache \<Rightarrow> cpcache" where
  "pollCheckpoint args now seq c =
     (let plexID = plexSessionFromArgs args
      in if plexID = [] then c
         else case seq of
                None \<Rightarrow> c
              | Some n \<Rightarrow> cp_put plexID
                  \<lparr>originalSeek = initialSeekFromArgs args, segmentTime = segmentTimeFromArgs args,
                   lastSeq = n, updatedAt = now\<rparr> c)"

section \<open>Injecting resume flags\<close>

definition floatEq :: "go_float \<Rightarrow> go_float \<Rightarrow> go_float \<Rightarrow> bool" where
  "floatEq a b tol = (if b < a then a - b \<le> tol else b - a \<le> tol)"

definition find_flag :: "string \<Rightarrow> nat \<Rightarrow> argv \<Rightarrow> nat option" where
  "find_flag flag bound args = find_from (\<lambda>a. a = flag) (take (min bound (length args - 1)) args)"

definition insert_at :: "nat \<Rightarrow> argv \<Rightarrow> argv \<Rightarrow> argv" where
  "insert_at k ins args = take k args @ ins @ drop k args"

definition inject_ss :: "string \<Rightarrow> nat \<Rightarrow> argv \<Rightarrow> argv \<times> nat" where
  "inject_ss ss k out = (case find_flag ''-ss'' k out of
      Some i \<Rightarrow> (out[Suc i := ss], k)
    | None \<Rightarrow> (insert_at k [''-ss'', ss] out, k + 2))"

definition inject_copyts :: "nat \<Rightarrow> argv \<Rightarrow> argv" where
  "inject_copyts k out =
     (if ''-copyts'' \<in> set (take k out) then out else insert_at k [''-copyts''] out)"

definition inject_seq :: "string \<Rightarrow> argv \<Rightarrow> argv" where
  "inject_seq sq out = (case find_flag ''-segment_start_number'' (length out) out of
      Some i \<Rightarrow> out[Suc i := sq]
    | None \<Rightarrow> out @ [''-segment_start_number'', sq])"

definition injectResumeFlags :: "argv \<Rightarrow> go_float \<Rightarrow> int \<Rightarrow> argv" where
  "injectResumeFlags args resumePTS nextSeq =
     (let resumeSS = format_fixed 3 resumePTS;
          resumeSeq = itoa nextSeq;
          out = (case index_of_arg args ''-i'' 0 of
                   None \<Rightarrow> args
                 | Some k \<Rightarrow> (let (o1, k1) = inject_ss resumeSS k args in inject_copyts k1 o1))
      in inject_seq resumeSeq out)"

definition resume_tolerance :: go_float where
  "resume_tolerance = 5 / 100"

definition resumeIfApplicable :: "gotime \<Rightarrow> argv \<Rightarrow> cpcache \<Rightarrow> (argv \<times> bool) \<times> cpcache" where
  "resumeIfApplicable now args c =
     (let plexID = plexSessionFromArgs args;
          (hint, c1) = cp_get now plexID c
      in case hint of
           None \<Rightarrow> ((args, False), c1)
         | Some h \<Rightarrow>
             if lastSeq h \<le> 0 then ((args, False), c1)
             else if \<not> floatEq (initialSeekFromArgs args) (originalSeek h) resume_tolerance
             then ((args, False), cp_drop plexID c1)
             else ((injectResumeFlags args
                      (originalSeek h + of_int (lastSeq h) * segmentTime h) (lastSeq h + 1), True), c1))"

section \<open>Parsing what was formatted\<close>

lemma digits_val_append:
  assumes "\<forall>c\<in>set a. is_digit c" and "\<forall>c\<in>set b. is_digit c"
  shows "digits_val (a @ b) = digits_val a * 10 ^ length b + digits_val b"
proof -
  have gen: "parse_digits n s = Some (n * 10 ^ length s + digits_val s)"
    if "\<forall>c\<in>set s. is_digit c" for n s
    using that
  proof (induction s arbitrary: n)
    case (Cons c cs)
    have "parse_digits (digit_val c) cs = Some (digit_val c * 10 ^ length cs + digits_val cs)"
      using Cons by simp
    then have "digits_val (c # cs) = digit_val c * 10 ^ length cs + digits_val cs"
      using Cons.prems by (simp add: digits_val_def)
    moreover have "parse_digits (10 * n + digit_val c) cs =
        Some ((10 * n + digit_val c) * 10 ^ length cs + digits_val cs)"
      using Cons by simp
    ultimately show ?case using Cons.prems by (simp add: algebra_simps)
  qed (simp add: digits_val_def)
  have "parse_digits 0 (a @ b) = Some (digits_val a * 10 ^ length b + digits_val b)"
    using gen [OF assms(1), of 0] gen [OF assms(2)] by (simp add: parse_digits_append)
  then show ?thesis by (simp add: digits_val_def)
qed

lemma digits_val_utoa [simp]: "digits_val (utoa n) = n"
  by (simp add: digits_val_def parse_digits_utoa)

lemma digits_val_zeros: "digits_val (replicate n (CHR ''0'')) = 0"
proof -
  have "parse_digits 0 (replicate n (CHR ''0'')) = Some 0"
    by (induction n) (simp_all add: is_digit_def digit_val_def)
  then show ?thesis by (simp add: digits_val_def)
qed

lemma zero_is_digit [simp]: "is_digit (CHR ''0'')"
  by (simp add: is_digit_def)

lemma digits_val_pad: "digits_val (pad_left p (CHR ''0'') (utoa n)) = n"
  using digits_val_append [of "replicate (p - length (utoa n)) (CHR ''0'')" "utoa n"] utoa_digits [of n]
  by (simp add: pad_left_def digits_val_zeros)

lemma length_utoa: "n < 10 ^ p \<Longrightarrow> 0 < p \<Longrightarrow> length (utoa n) \<le> p"
proof (induction n arbitrary: p rule: utoa.induct)
  case (1 n)
  show ?case
  proof (cases "n < 10")
    case True
    then show ?thesis using "1.prems" by (subst utoa.simps) simp
  next
    case False
    then obtain q where q: "p = Suc q" "0 < q"
      using "1.prems" by (cases p; cases "p - 1") auto
    then have "n div 10 < 10 ^ q" using "1.prems" by (simp add: less_mult_imp_div_less mult.commute)
    then have "length (utoa (n div 10)) \<le> q" using "1.IH" False q(2) by simp
    then show ?thesis using False q by (subst utoa.simps) simp
  qed
qed

lemma length_pad: "n < 10 ^ p \<Longrightarrow> 0 < p \<Longrightarrow> length (pad_left p c (utoa n)) = p"
  using length_utoa [of n p] by (simp add: pad_left_def)

lemma pad_digits: "\<forall>c\<in>set (pad_left p (CHR ''0'') (utoa n)). is_digit c"
  using utoa_digits [of n] by (auto simp: pad_left_def)

lemma takeWhile_digits: "\<forall>c\<in>set s. is_digit c \<Longrightarrow> \<not> is_digit d \<Longrightarrow>
    span_digits (s @ d # t) = (s, d # t)"
  by (simp add: span_digits_def takeWhile_append2 dropWhile_append2)

lemma span_all_digits: "\<forall>c\<in>set s. is_digit c \<Longrightarrow> span_digits s = (s, [])"
  by (simp add: span_digits_def)

definition round_to :: "nat \<Rightarrow> go_float \<Rightarrow> go_float" where
  "round_to p x = of_nat (nat (round_half_even (x * 10 ^ p))) / 10 ^ p"

text \<open>Reading back what \<open>FormatFloat(x, 'f', p)\<close> printed gives \<open>x\<close> rounded to \<open>p\<close> decimals.\<close>

lemma parse_format_fixed:
  assumes "0 \<le> x" and "0 < p"
  shows "parse_float (format_fixed p x) = Some (round_to p x)"
proof -
  let ?m = "nat (round_half_even (x * 10 ^ p))"
  let ?ip = "utoa (?m div 10 ^ p)" and ?fp = "pad_left p (CHR ''0'') (utoa (?m mod 10 ^ p))"
  have s: "format_fixed p x = ?ip @ CHR ''.'' # ?fp"
    using assms by (simp add: format_fixed_def Let_def)
  have ipd: "\<forall>c\<in>set ?ip. is_digit c" by (rule utoa_digits)
  have fpd: "\<forall>c\<in>set ?fp. is_digit c" by (rule pad_digits)
  have sign: "strip_sign (?ip @ CHR ''.'' # ?fp) = (False, ?ip @ CHR ''.'' # ?fp)"
    using digit_not_sign [OF hd_utoa [of "?m div 10 ^ p"]]
    by (cases ?ip) (auto simp: strip_sign_def)
  have dot: "\<not> is_digit (CHR ''.'')" by (simp add: is_digit_def)
  have flen: "length ?fp = p" by (rule length_pad) (use assms(2) in simp_all)
  have "digits_val (?ip @ ?fp) = ?m div 10 ^ p * 10 ^ p + ?m mod 10 ^ p"
    using digits_val_append [OF ipd fpd] by (simp add: flen digits_val_pad)
  then have "digits_val (?ip @ ?fp) = ?m" by (simp only: div_mult_mod_eq)
  then show ?thesis
    unfolding s parse_float_def sign
    using takeWhile_digits [OF ipd dot] span_all_digits [OF fpd] flen assms(2)
    by (simp add: parse_exponent_def scale10_def round_to_def Let_def)
qed

section \<open>The injection by sections of the argument vector\<close>

text \<open>The flags before the first \<open>-i\<close> are the input section; the rest starts with \<open>-i\<close>.\<close>

definition input_flags :: "argv \<Rightarrow> argv" where
  "input_flags args = takeWhile (\<lambda>a. a \<noteq> ''-i'') args"

definition from_input :: "argv \<Rightarrow> argv" where
  "from_input args = dropWhile (\<lambda>a. a \<noteq> ''-i'') args"

text \<open>An argument vector as PMS emits it: there is an input, an \<open>-ss\<close> of the input section has its
  value there too, and \<open>-segment_start_number\<close> belongs to the output section and has a value.\<close>

definition resume_wf :: "argv \<Rightarrow> bool" where
  "resume_wf args \<longleftrightarrow> ''-i'' \<in> set args
     \<and> (input_flags args = [] \<or> last (input_flags args) \<noteq> ''-ss'')
     \<and> ''-segment_start_number'' \<notin> set (input_flags args)
     \<and> 1 < length (from_input args) \<and> last args \<noteq> ''-segment_start_number''"

definition in_ss :: "string \<Rightarrow> argv \<Rightarrow> argv" where
  "in_ss ss pre = (case find_from (\<lambda>a. a = ''-ss'') pre of
     Some i \<Rightarrow> pre[Suc i := ss] | None \<Rightarrow> pre @ [''-ss'', ss])"

definition in_copyts :: "argv \<Rightarrow> argv" where
  "in_copyts pre = (if ''-copyts'' \<in> set pre then pre else pre @ [''-copyts''])"

lemma split_args: "args = input_flags args @ from_input args"
  by (simp add: input_flags_def from_input_def)

lemma from_input_Cons: "''-i'' \<in> set args \<Longrightarrow> \<exists>t. from_input args = ''-i'' # t"
proof -
  assume "''-i'' \<in> set args"
  then have ne: "from_input args \<noteq> []" by (auto simp: from_input_def dropWhile_eq_Nil_conv)
  then have "hd (from_input args) = ''-i''"
    unfolding from_input_def using hd_dropWhile [of "\<lambda>a. a \<noteq> ''-i''" args] by simp
  with ne show ?thesis by (cases "from_input args") auto
qed

lemma input_flags_no_i: "''-i'' \<notin> set (input_flags args)"
  unfolding input_flags_def using set_takeWhileD by fastforce

lemma index_of_input: "''-i'' \<in> set args \<Longrightarrow> index_of_arg args ''-i'' 0 = Some (length (input_flags args))"
proof -
  assume "''-i'' \<in> set args"
  then obtain t where t: "from_input args = ''-i'' # t" using from_input_Cons by blast
  have "find_from (\<lambda>a. a = ''-i'') (input_flags args @ from_input args) = Some (length (input_flags args))"
    using input_flags_no_i [of args] t by (subst find_from_append) auto
  then show ?thesis by (simp add: index_of_arg_def flip: split_args)
qed

definition sane_value :: "string \<Rightarrow> bool" where
  "sane_value v \<longleftrightarrow> v \<noteq> [] \<and> hd v \<noteq> CHR ''-''"

lemma sane_format: "0 \<le> x \<Longrightarrow> sane_value (format_fixed p x)"
  using digit_not_sign [OF hd_utoa] by (auto simp: sane_value_def format_fixed_def Let_def hd_append)

lemma sane_not_flag:
  "sane_value v \<Longrightarrow> v \<noteq> ''-i''" "sane_value v \<Longrightarrow> v \<noteq> ''-ss''" "sane_value v \<Longrightarrow> v \<noteq> ''-copyts''"
  "sane_value v \<Longrightarrow> v \<noteq> ''-segment_start_number''"
  by (auto simp: sane_value_def)

lemma find_from_bound: "find_from p xs = Some i \<Longrightarrow> i < length xs"
  by (auto dest: find_from_Some)

lemma find_ss_inner:
  assumes "find_from (\<lambda>a. a = ''-ss'') pre = Some i" and "pre = [] \<or> last pre \<noteq> ''-ss''"
  shows "Suc i < length pre"
proof -
  have i: "i < length pre" "pre ! i = ''-ss''" using find_from_Some [OF assms(1)] by auto
  with assms(2) have "i \<noteq> length pre - 1" by (cases pre rule: rev_cases) auto
  with i show ?thesis by simp
qed

lemma inject_ss_split:
  assumes "pre = [] \<or> last pre \<noteq> ''-ss''" and "suf \<noteq> []"
  shows "inject_ss ss (length pre) (pre @ suf) = (in_ss ss pre @ suf, length (in_ss ss pre))"
proof -
  have f: "find_flag ''-ss'' (length pre) (pre @ suf) = find_from (\<lambda>a. a = ''-ss'') pre"
    using assms(2) by (cases suf) (simp_all add: find_flag_def)
  show ?thesis
    using f find_ss_inner [OF _ assms(1)]
    by (cases "find_from (\<lambda>a. a = ''-ss'') pre")
      (simp_all add: inject_ss_def in_ss_def insert_at_def list_update_append del: find_from_None)
qed

lemma inject_copyts_split: "inject_copyts (length pre) (pre @ suf) = in_copyts pre @ suf"
  by (simp add: inject_copyts_def in_copyts_def insert_at_def)

lemma flag_not_in_ss:
  assumes "f \<notin> set pre" and "f \<noteq> ss" and "f \<noteq> ''-ss''"
  shows "f \<notin> set (in_ss ss pre)"
proof (cases "find_from (\<lambda>a. a = ''-ss'') pre")
  case (Some i)
  have "set (pre[Suc i := ss]) \<subseteq> insert ss (set pre)" by (rule set_update_subset_insert)
  with Some assms show ?thesis by (auto simp: in_ss_def)
qed (use assms in \<open>simp add: in_ss_def del: find_from_None\<close>)

lemma inject_seq_split:
  assumes "''-segment_start_number'' \<notin> set pre" and "suf \<noteq> []"
  shows "inject_seq sq (pre @ suf) = pre @ inject_seq sq suf"
proof -
  have "find_flag ''-segment_start_number'' (length (pre @ suf)) (pre @ suf) =
      map_option ((+) (length pre)) (find_flag ''-segment_start_number'' (length suf) suf)"
  proof -
    have "take (min (length (pre @ suf)) (length (pre @ suf) - 1)) (pre @ suf) =
        pre @ take (min (length suf) (length suf - 1)) suf"
      using assms(2) by (cases suf) (auto simp: min_def)
    then show ?thesis
      using assms(1) unfolding find_flag_def by (simp only:) (rule find_from_append, auto)
  qed
  then show ?thesis
    by (auto simp: inject_seq_def list_update_append split: option.split)
qed

lemma inject_split:
  assumes "resume_wf args" and "0 \<le> x"
  shows "injectResumeFlags args x n =
     in_copyts (in_ss (format_fixed 3 x) (input_flags args)) @ inject_seq (itoa n) (from_input args)"
proof -
  let ?pre = "input_flags args" and ?suf = "from_input args" and ?ss = "format_fixed 3 x"
  have i: "''-i'' \<in> set args" and l: "?pre = [] \<or> last ?pre \<noteq> ''-ss''"
    and sn: "''-segment_start_number'' \<notin> set ?pre" and ne: "?suf \<noteq> []"
    using assms(1) by (auto simp: resume_wf_def)
  have ss: "inject_ss ?ss (length ?pre) args = (in_ss ?ss ?pre @ ?suf, length (in_ss ?ss ?pre))"
    using inject_ss_split [OF l ne, of ?ss] by (simp flip: split_args)
  have "''-segment_start_number'' \<notin> set (in_copyts (in_ss ?ss ?pre))"
    using flag_not_in_ss [OF sn] sane_not_flag(4) [OF sane_format [OF assms(2), of 3]]
    by (auto simp: in_copyts_def)
  then show ?thesis
    using inject_seq_split [OF _ ne]
    by (simp add: injectResumeFlags_def Let_def index_of_input [OF i] ss inject_copyts_split)
qed

section \<open>The last injection wins\<close>

lemma find_from_update_after:
  "find_from p xs = Some i \<Longrightarrow> i < j \<Longrightarrow> find_from p (xs[j := v]) = Some i"
proof (induction xs arbitrary: i j)
  case (Cons x xs)
  then show ?case by (cases j) (auto split: if_splits)
qed simp

lemma find_from_append_Some: "find_from p xs = Some i \<Longrightarrow> find_from p (xs @ ys) = Some i"
  by (induction xs arbitrary: i) (auto split: if_splits)

lemma in_ss_override:
  assumes "pre = [] \<or> last pre \<noteq> ''-ss''" and "sane_value a" and that: "sane_value b"
  shows "in_ss b (in_copyts (in_ss a pre)) = in_copyts (in_ss b pre)"
proof (cases "find_from (\<lambda>a. a = ''-ss'') pre")
  case (Some i)
  have len: "Suc i < length pre" using find_ss_inner [OF Some assms(1)] .
  have mem: "''-copyts'' \<in> set (pre[Suc i := v]) \<longleftrightarrow> ''-copyts'' \<in> set (take (Suc i) pre @ drop (Suc (Suc i)) pre)"
    if "sane_value v" for v
    using len sane_not_flag(3) [OF \<open>sane_value v\<close>] by (auto simp: upd_conv_take_nth_drop)
  have f1: "find_from (\<lambda>a. a = ''-ss'') (pre[Suc i := a]) = Some i"
    using find_from_update_after [OF Some] by simp
  then have "find_from (\<lambda>a. a = ''-ss'') (in_copyts (pre[Suc i := a])) = Some i"
    by (auto simp: in_copyts_def intro: find_from_append_Some)
  then show ?thesis
    using Some len mem [OF assms(2)] mem [OF that]
    by (auto simp: in_ss_def in_copyts_def list_update_append)
next
  case None
  then have nss: "find_from (\<lambda>a. a = ''-ss'') (pre @ ''-ss'' # t) = Some (length pre)" for t
    by (subst find_from_append) auto
  then show ?thesis
    using None sane_not_flag(3) [OF assms(2)] sane_not_flag(3) [OF that]
    by (auto simp: in_ss_def in_copyts_def list_update_append simp del: find_from_None)
qed

lemma find_from_butlast:
  assumes "suf \<noteq> []" and "\<not> P (last suf)"
  shows "find_from P (take (length suf - 1) suf) = find_from P suf"
proof -
  obtain ys y where s: "suf = ys @ [y]" using assms(1) by (cases suf rule: rev_cases) auto
  have "\<not> P y" using assms(2) s by simp
  then have "find_from P (ys @ [y]) = find_from P ys" by (induction ys) auto
  then show ?thesis using s by simp
qed

lemma last_from_input: "resume_wf args \<Longrightarrow> from_input args \<noteq> [] \<and> last (from_input args) = last args"
  by (metis last_appendR list.size(3) not_one_less_zero resume_wf_def split_args)

lemma inject_seq_override:
  assumes "suf \<noteq> []" and "last suf \<noteq> ''-segment_start_number''"
    and "a \<noteq> ''-segment_start_number''"
  shows "inject_seq b (inject_seq a suf) = inject_seq b suf"
proof -
  let ?P = "\<lambda>a. a = ''-segment_start_number''"
  note tk = find_from_butlast [where P = ?P]
  show ?thesis
  proof (cases "find_from ?P suf")
    case None
    then have f: "find_flag ''-segment_start_number'' (length suf) suf = None"
      using tk [OF assms(1,2)] by (simp add: find_flag_def min_def del: find_from_None)
    have "find_from ?P (suf @ [''-segment_start_number'']) = Some (length suf)"
      using None by (subst find_from_append) auto
    then have "find_flag ''-segment_start_number'' (length suf + 2) (suf @ [''-segment_start_number'', a]) =
        Some (length suf)"
      by (simp add: find_flag_def)
    then show ?thesis using f by (simp add: inject_seq_def list_update_append)
  next
    case (Some i)
    then have i: "i < length suf" "?P (suf ! i)" using find_from_Some by fastforce+
    with assms(2) have i1: "Suc i < length suf"
      by (cases suf rule: rev_cases) (auto simp: nth_append split: if_splits)
    have f: "find_flag ''-segment_start_number'' (length suf) suf = Some i"
      using tk [OF assms(1,2)] Some by (simp add: find_flag_def min_def)
    let ?s = "suf[Suc i := a]"
    have l: "\<not> ?P (last ?s)"
      using assms(2,3) i1 by (cases "Suc i = length suf - 1") (auto simp: last_conv_nth assms(1))
    have "?s \<noteq> []" using assms(1) by simp
    then have "find_flag ''-segment_start_number'' (length ?s) ?s = Some i"
      using tk [OF _ l] find_from_update_after [OF Some, of "Suc i" a] by (simp add: find_flag_def min_def)
    then show ?thesis using f by (simp add: inject_seq_def)
  qed
qed

lemma itoa_not_flag: "itoa n \<noteq> ''-segment_start_number''" "itoa n \<noteq> ''-i''"
proof -
  have d: "c \<in> set (itoa n) \<Longrightarrow> c = CHR ''-'' \<or> is_digit c" for c
    using utoa_digits by (auto simp: itoa_def split: if_splits)
  show "itoa n \<noteq> ''-segment_start_number''" "itoa n \<noteq> ''-i''"
    using d [of "CHR ''s''"] d [of "CHR ''i''"] by (auto simp: is_digit_def)
qed

lemma inject_seq_hd: "suf = ''-i'' # t \<Longrightarrow> \<exists>u. inject_seq q suf = ''-i'' # u"
  by (auto simp: inject_seq_def split: option.split)

lemma input_flags_inject:
  assumes "resume_wf args" and "0 \<le> x"
  shows "input_flags (injectResumeFlags args x n) = in_copyts (in_ss (format_fixed 3 x) (input_flags args))"
    and "from_input (injectResumeFlags args x n) = inject_seq (itoa n) (from_input args)"
proof -
  let ?pre = "in_copyts (in_ss (format_fixed 3 x) (input_flags args))"
  have "''-i'' \<in> set args" using assms(1) by (simp add: resume_wf_def)
  then obtain u where u: "inject_seq (itoa n) (from_input args) = ''-i'' # u"
    using from_input_Cons inject_seq_hd by blast
  have "''-i'' \<notin> set ?pre"
    using flag_not_in_ss [OF input_flags_no_i] sane_not_flag(1) [OF sane_format [OF assms(2), of 3]]
    by (auto simp: in_copyts_def)
  then have "\<forall>a\<in>set ?pre. a \<noteq> ''-i''" by metis
  then show "input_flags (injectResumeFlags args x n) = ?pre"
    and "from_input (injectResumeFlags args x n) = inject_seq (itoa n) (from_input args)"
    unfolding inject_split [OF assms] u input_flags_def [of "_ @ _"] from_input_def [of "_ @ _"]
    by (simp_all add: takeWhile_append2 dropWhile_append2)
qed

lemma last_in_copyts_ss:
  assumes "pre = [] \<or> last pre \<noteq> ''-ss''" and "sane_value v"
  shows "last (in_copyts (in_ss v pre)) \<noteq> ''-ss''"
proof -
  have "last (in_ss v pre) \<noteq> ''-ss''"
  proof (cases "find_from (\<lambda>a. a = ''-ss'') pre")
    case (Some i)
    have len: "Suc i < length pre" using find_ss_inner [OF Some assms(1)] .
    then show ?thesis
      using Some assms sane_not_flag(2) [OF assms(2)]
      by (cases "pre = []") (auto simp: in_ss_def last_list_update)
  qed (use sane_not_flag(2) [OF assms(2)] in \<open>simp add: in_ss_def del: find_from_None\<close>)
  then show ?thesis by (simp add: in_copyts_def)
qed

lemma inject_seq_wf:
  assumes "1 < length suf" and "last suf \<noteq> ''-segment_start_number''"
  shows "1 < length (inject_seq (itoa n) suf)" and "last (inject_seq (itoa n) suf) \<noteq> ''-segment_start_number''"
  using assms itoa_not_flag(1) [of n]
  by (cases "suf = []"; auto simp: inject_seq_def last_list_update split: option.split)+

lemma inject_wf:
  assumes "resume_wf args" and "0 \<le> x"
  shows "resume_wf (injectResumeFlags args x n)"
proof -
  let ?r = "injectResumeFlags args x n" and ?v = "format_fixed 3 x"
  note w = assms(1) [unfolded resume_wf_def]
  have v: "sane_value ?v" by (rule sane_format [OF assms(2)])
  have suf: "from_input args \<noteq> []" "last (from_input args) \<noteq> ''-segment_start_number''"
    using w last_from_input [OF assms(1)] by simp_all
  have "''-i'' \<in> set (from_input ?r)"
  proof -
    obtain t where "from_input args = ''-i'' # t" using w from_input_Cons by blast
    then obtain u where "inject_seq (itoa n) (from_input args) = ''-i'' # u" using inject_seq_hd by blast
    then show ?thesis using input_flags_inject(2) [OF assms] by simp
  qed
  then have i: "''-i'' \<in> set ?r" using split_args [of ?r] by (metis Un_iff set_append)
  have "''-segment_start_number'' \<notin> set (input_flags ?r)"
    using w flag_not_in_ss [of "''-segment_start_number''"] sane_not_flag(4) [OF v]
    by (auto simp: input_flags_inject(1) [OF assms] in_copyts_def)
  moreover have "last (input_flags ?r) \<noteq> ''-ss''"
    using last_in_copyts_ss v w by (simp add: input_flags_inject(1) [OF assms])
  moreover have "1 < length (from_input ?r)" "last (from_input ?r) \<noteq> ''-segment_start_number''"
    using inject_seq_wf [of "from_input args" n] w suf by (simp_all add: input_flags_inject(2) [OF assms])
  ultimately show ?thesis
    using i last_appendR [of "from_input ?r" "input_flags ?r"] unfolding resume_wf_def
    by (metis list.size(3) not_one_less_zero split_args)
qed

lemma inject_override:
  assumes "resume_wf args" and "0 \<le> x" and "0 \<le> y"
  shows "injectResumeFlags (injectResumeFlags args x m) y n = injectResumeFlags args y n"
proof -
  note w = assms(1) [unfolded resume_wf_def]
  have suf: "from_input args \<noteq> []" "last (from_input args) \<noteq> ''-segment_start_number''"
    using w last_from_input [OF assms(1)] by simp_all
  have seq: "inject_seq (itoa n) (inject_seq (itoa m) (from_input args)) = inject_seq (itoa n) (from_input args)"
    by (rule inject_seq_override [OF suf]) (rule itoa_not_flag)
  have pre: "in_ss (format_fixed 3 y) (in_copyts (in_ss (format_fixed 3 x) (input_flags args))) =
      in_copyts (in_ss (format_fixed 3 y) (input_flags args))"
    using w by (intro in_ss_override sane_format assms) auto
  have idem: "in_copyts (in_copyts z) = in_copyts z" for z by (simp add: in_copyts_def)
  show ?thesis
    unfolding inject_split [OF inject_wf [OF assms(1,2)] assms(3)] input_flags_inject [OF assms(1,2)]
      inject_split [OF assms(1,3)] pre seq idem ..
qed

section \<open>Reading a resumed argument vector back\<close>

lemma initialSeek_skip:
  "''-i'' \<notin> set pre \<Longrightarrow> ''-ss'' \<notin> set pre \<Longrightarrow> rest \<noteq> [] \<Longrightarrow>
     initialSeekFromArgs (pre @ rest) = initialSeekFromArgs rest"
proof (induction pre)
  case (Cons a pre)
  obtain b t where bt: "pre @ rest = b # t" using Cons.prems(3) by (cases "pre @ rest") auto
  have "initialSeekFromArgs (pre @ rest) = initialSeekFromArgs rest" using Cons by simp
  with Cons.prems show ?case by (auto simp: bt)
qed simp

lemma initialSeek_in_ss:
  assumes "''-i'' \<notin> set pre" and "pre = [] \<or> last pre \<noteq> ''-ss''" and "parse_float v = Some r"
  shows "\<exists>p q. in_ss v pre = p @ ''-ss'' # v # q \<and> ''-i'' \<notin> set p \<and> ''-ss'' \<notin> set p"
proof (cases "find_from (\<lambda>a. a = ''-ss'') pre")
  case None
  then have "in_ss v pre = pre @ ''-ss'' # v # []" "''-ss'' \<notin> set pre"
    by (auto simp: in_ss_def simp del: find_from_None dest: find_from_None [THEN iffD1])
  then show ?thesis using assms(1) by blast
next
  case (Some i)
  have i: "Suc i < length pre" "pre ! i = ''-ss''" "\<forall>x\<in>set (take i pre). x \<noteq> ''-ss''"
    using find_ss_inner [OF Some assms(2)] find_from_split [OF Some] by auto
  have "in_ss v pre = take (Suc i) pre @ v # drop (Suc (Suc i)) pre"
    using Some i(1) by (simp add: in_ss_def upd_conv_take_nth_drop)
  also have "\<dots> = take i pre @ ''-ss'' # v # drop (Suc (Suc i)) pre"
    using i by (simp add: take_Suc_conv_app_nth)
  finally show ?thesis using assms(1) i(3) by (metis in_set_takeD)
qed

lemma initialSeek_inject:
  assumes "resume_wf args" and "0 \<le> x"
  shows "initialSeekFromArgs (injectResumeFlags args x n) = round_to 3 x"
proof -
  let ?v = "format_fixed 3 x"
  have v: "parse_float ?v = Some (round_to 3 x)" using assms(2) by (intro parse_format_fixed) simp_all
  obtain p q where pq: "in_ss ?v (input_flags args) = p @ ''-ss'' # ?v # q"
    "''-i'' \<notin> set p" "''-ss'' \<notin> set p"
    using initialSeek_in_ss [OF input_flags_no_i _ v] assms(1) unfolding resume_wf_def by blast
  obtain q' where q': "in_copyts (p @ ''-ss'' # ?v # q) = p @ ''-ss'' # ?v # q'"
    by (cases "''-copyts'' \<in> set (p @ ''-ss'' # ?v # q)") (simp_all add: in_copyts_def)
  show ?thesis
    unfolding inject_split [OF assms] pq(1) q' using initialSeek_skip [OF pq(2,3)] v by simp
qed

text \<open>The argument vector names its session after the input, and not as the value of the
  start number.\<close>

definition keyed_after_input :: "argv \<Rightarrow> bool" where
  "keyed_after_input args \<longleftrightarrow> ''-progressurl'' \<notin> set (input_flags args)
     \<and> (case find_flag ''-segment_start_number'' (length (from_input args)) (from_input args) of
          None \<Rightarrow> True | Some i \<Rightarrow> from_input args ! Suc i \<noteq> ''-progressurl'')"

lemma plexSession_skip:
  "''-progressurl'' \<notin> set pre \<Longrightarrow> rest \<noteq> [] \<Longrightarrow> plexSessionFromArgs (pre @ rest) = plexSessionFromArgs rest"
proof (induction pre)
  case (Cons a pre)
  obtain b t where bt: "pre @ rest = b # t" using Cons.prems by (cases "pre @ rest") auto
  have "plexSessionFromArgs (pre @ rest) = plexSessionFromArgs rest" using Cons by simp
  with Cons.prems show ?case by (auto simp: bt)
qed simp

lemma plexSession_update:
  "Suc i < length xs \<Longrightarrow> xs ! i \<noteq> ''-progressurl'' \<Longrightarrow> xs ! Suc i \<noteq> ''-progressurl'' \<Longrightarrow>
     v \<noteq> ''-progressurl'' \<Longrightarrow> plexSessionFromArgs (xs[Suc i := v]) = plexSessionFromArgs xs"
proof (induction i arbitrary: xs)
  case 0
  then obtain a b t where "xs = a # b # t" by (cases xs; cases "tl xs") auto
  with 0 show ?case by (cases t) auto
next
  case (Suc i)
  then obtain a b t where xs: "xs = a # b # t" by (cases xs; cases "tl xs") auto
  have "plexSessionFromArgs ((b # t)[Suc i := v]) = plexSessionFromArgs (b # t)"
    using Suc.prems xs by (intro Suc.IH) auto
  with xs show ?case by (simp del: progress_session.simps split: option.split)
qed

lemma progress_session_flag: "progress_session ''-segment_start_number'' = None"
  by (simp add: progress_session_at_def Let_def session_path_def has_prefix_def)

lemma plexSession_append_seq:
  "v \<noteq> ''-progressurl'' \<Longrightarrow> xs \<noteq> [] \<Longrightarrow>
     plexSessionFromArgs (xs @ [''-segment_start_number'', v]) = plexSessionFromArgs xs"
proof (induction xs)
  case (Cons a xs)
  show ?case
  proof (cases xs)
    case Nil
    then show ?thesis using Cons.prems by (simp add: progress_session_flag del: progress_session.simps)
  next
    case c: (Cons b t)
    then show ?thesis
      using Cons.IH Cons.prems by (simp del: progress_session.simps split: option.split)
  qed
qed simp

lemma plexSession_inject:
  assumes "resume_wf args" and "keyed_after_input args" and "0 \<le> x"
  shows "plexSessionFromArgs (injectResumeFlags args x n) = plexSessionFromArgs args"
proof -
  let ?pre = "input_flags args" and ?suf = "from_input args"
  have ne: "?suf \<noteq> []" using last_from_input [OF assms(1)] by simp
  obtain t where t: "?suf = ''-i'' # t" using from_input_Cons assms(1) by (auto simp: resume_wf_def)
  have v: "itoa n \<noteq> ''-progressurl''"
  proof -
    have "c \<in> set (itoa n) \<Longrightarrow> c = CHR ''-'' \<or> is_digit c" for c
      using utoa_digits by (auto simp: itoa_def split: if_splits)
    from this [of "CHR ''p''"] show ?thesis by (auto simp: is_digit_def)
  qed
  have "''-progressurl'' \<noteq> format_fixed 3 x"
    using sane_format [OF assms(3), of 3] by (metis list.sel(1) sane_value_def)
  then have pre: "''-progressurl'' \<notin> set (in_copyts (in_ss (format_fixed 3 x) ?pre))"
    using flag_not_in_ss [of "''-progressurl''" ?pre "format_fixed 3 x"] assms(2)
    by (auto simp: in_copyts_def keyed_after_input_def)
  have "plexSessionFromArgs (inject_seq (itoa n) ?suf) = plexSessionFromArgs ?suf"
  proof (cases "find_flag ''-segment_start_number'' (length ?suf) ?suf")
    case None
    then show ?thesis using plexSession_append_seq [OF v ne] by (simp add: inject_seq_def)
  next
    case (Some i)
    then have "i < length (take (min (length ?suf) (length ?suf - 1)) ?suf)"
      and "?suf ! i = ''-segment_start_number''"
      unfolding find_flag_def using find_from_Some by fastforce+
    then have "Suc i < length ?suf" "?suf ! i \<noteq> ''-progressurl''" by simp_all
    then show ?thesis
      using plexSession_update [of i ?suf "itoa n"] Some assms(2) v
      by (simp add: inject_seq_def keyed_after_input_def)
  qed
  moreover have "inject_seq (itoa n) ?suf \<noteq> []" using inject_seq_hd [OF t, of "itoa n"] by auto
  ultimately have "plexSessionFromArgs (injectResumeFlags args x n) = plexSessionFromArgs ?suf"
    using plexSession_skip [OF pre] by (simp add: inject_split [OF assms(1,3)])
  also have "\<dots> = plexSessionFromArgs args"
    using plexSession_skip [of ?pre ?suf] ne assms(2) by (simp add: keyed_after_input_def flip: split_args)
  finally show ?thesis .
qed

section \<open>The cache\<close>

lemma cp_get_put:
  "k \<noteq> [] \<Longrightarrow> now - updatedAt h \<le> cp_ttl c \<Longrightarrow> fst (cp_get now k (cp_put k h c)) = Some h"
  by (simp add: cp_get_def cp_put_def gomap.lookup_put)

lemma cp_get_put_other:
  "k' \<noteq> k \<Longrightarrow> fst (cp_get now k' (cp_put k h c)) = fst (cp_get now k' c)"
  by (simp add: cp_get_def cp_put_def gomap.lookup_put split: option.split)

lemma cp_get_drop: "fst (cp_get now k (cp_drop k c)) = None"
  by (simp add: cp_get_def cp_drop_def gomap.lookup_remove)

lemma cp_get_again: "fst (cp_get now k c) = Some h \<Longrightarrow> snd (cp_get now k c) = c"
  by (auto simp: cp_get_def split: if_splits option.splits)

lemma cp_get_fresh: "fst (cp_get now k c) = Some h \<Longrightarrow> now - updatedAt h \<le> cp_ttl c"
  by (auto simp: cp_get_def split: if_splits option.splits)

lemma floatEq_iff: "floatEq a b tol \<longleftrightarrow> \<bar>a - b\<bar> \<le> tol"
  by (auto simp: floatEq_def)

end
