(* ===== verification/OrchDispatch.thy ===== *)
theory OrchDispatch
  imports OrchTicket OrchCheckpoint
begin

text \<open>
  Dispatch, streaming and mid-stream recovery (\<open>src/orchestrator/failover.go\<close>). The code runs
  against workers, a PMS client and a clock that are not under its control; they are the record
  \<open>world\<close>: what the \<open>k\<close>-th upstream attempt answers and how long it takes, what the \<open>r\<close>-th
  rediscovery finds, in which order Go walks the pool, and when the client goes away. Every theorem
  holds for every \<open>world\<close>. \<open>d_hist\<close> is a ghost that records each attempt; nothing reads it.
\<close>

section \<open>State and environment\<close>

record taskRequest =
  tr_session :: string
  tr_args :: argv
  tr_env :: env
  tr_cwd :: string
  tr_rewrite :: bool

datatype outcome = OutDone | OutRefused | OutBroken | OutClientGone

datatype reply = BuildErr | NoConn string | Reply int "(string \<times> string) list"
datatype stream_end = EndEOF | EndErr string

text \<open>\<open>a_chunks\<close> are the non-empty reads of the response body, each with whether writing it to PMS
  succeeds; \<open>a_polls\<close> are the ticks of this attempt's checkpoint poller. \<open>a_wait_ops\<close> and \<open>a_ops\<close>
  are the pool operations of other goroutines while the reply is awaited and while the body
  streams.\<close>

record attempt =
  a_reply :: reply
  a_dur :: nat
  a_wait_ops :: "pool_op list"
  a_nl_ok :: bool
  a_chunks :: "(string \<times> bool) list"
  a_end :: stream_end
  a_stream_dur :: nat
  a_polls :: "(gotime \<times> int option) list"
  a_ops :: "pool_op list"

record rediscovery =
  r_lookup :: "string list option"
  r_net :: "string \<Rightarrow> probe_result"
  r_dur :: nat

record world =
  att :: "nat \<Rightarrow> attempt"
  red :: "nat \<Rightarrow> rediscovery"
  map_order :: "nat \<Rightarrow> nat \<Rightarrow> nat"
  rnd :: "nat \<Rightarrow> nat \<Rightarrow> nat"
  gone_at :: "gotime option"
  recovery_wait :: int

record pmsStream =
  ps_session :: string
  ps_args :: argv
  headersWritten :: bool
  wroteAny :: bool
  lastByte :: char
  refusedBy503 :: bool
  ps_out :: string
  ps_status :: "int option"
  ps_hdrs :: "(string \<times> string) list"

record dstate =
  d_pool :: pool
  d_cache :: cpcache
  d_trk :: tracker
  d_now :: gotime
  d_ps :: pmsStream
  d_metrics :: "string list"
  d_k :: nat
  d_r :: nat
  d_hist :: "(string \<times> argv \<times> outcome) list"

definition maxRecoveries :: nat where "maxRecoveries = 3"
definition second :: int where "second = 1000000000"
definition defaultRecoveryWait :: int where "defaultRecoveryWait = 30 * second"

definition ctx_done :: "world \<Rightarrow> gotime \<Rightarrow> bool" where
  "ctx_done e now \<longleftrightarrow> (case gone_at e of None \<Rightarrow> False | Some t \<Rightarrow> t \<le> now)"

definition newPMSStream :: "taskRequest \<Rightarrow> pmsStream" where
  "newPMSStream req =
     \<lparr>ps_session = tr_session req, ps_args = tr_args req, headersWritten = False, wroteAny = False,
      lastByte = CHR 0x00, refusedBy503 = False, ps_out = [], ps_status = None, ps_hdrs = []\<rparr>"

section \<open>One upstream attempt\<close>

definition ps_write :: "string \<Rightarrow> pmsStream \<Rightarrow> pmsStream" where
  "ps_write p ps = ps\<lparr>ps_out := ps_out ps @ p, wroteAny := True, lastByte := last p\<rparr>"

text \<open>The read loop of \<open>streamFrom\<close>; \<open>True\<close> means a write to PMS failed.\<close>

fun write_chunks :: "(string \<times> bool) list \<Rightarrow> pmsStream \<Rightarrow> bool \<times> pmsStream" where
  "write_chunks [] ps = (False, ps)"
| "write_chunks ((data, ok) # cs) ps =
     (if data = [] then write_chunks cs ps
      else if \<not> ok then (True, ps)
      else write_chunks cs (ps_write data ps))"

text \<open>The status and headers go out once; a later upstream starts on a fresh line.\<close>

definition start_stream :: "attempt \<Rightarrow> int \<Rightarrow> (string \<times> string) list \<Rightarrow> pmsStream \<Rightarrow> bool \<times> pmsStream" where
  "start_stream a status hdrs ps =
     (if \<not> headersWritten ps
      then (False, ps\<lparr>ps_hdrs := hdrs, ps_status := Some status, headersWritten := True\<rparr>)
      else if wroteAny ps \<and> lastByte ps \<noteq> CHR 0x0A
      then (if a_nl_ok a then (False, ps_write [CHR 0x0A] ps) else (True, ps))
      else (False, ps))"

definition end_pending :: "nat \<Rightarrow> dstate \<Rightarrow> dstate" where
  "end_pending ptr s = s\<lparr>d_pool := on_worker ptr dispatchEnd (d_pool s)\<rparr>"

definition accept_ticket :: "nat \<Rightarrow> nat \<Rightarrow> dstate \<Rightarrow> dstate" where
  "accept_ticket ptr k s = s\<lparr>d_pool := on_worker ptr
     (\<lambda>w. (dispatchEnd w)\<lparr>accepted := AList.update k (d_now s) (accepted w)\<rparr>) (d_pool s)\<rparr>"

definition end_accepted :: "nat \<Rightarrow> nat \<Rightarrow> dstate \<Rightarrow> dstate" where
  "end_accepted ptr k s = s\<lparr>d_pool := on_worker ptr
     (\<lambda>w. w\<lparr>accepted := AList.delete k (accepted w)\<rparr>) (d_pool s),
     d_trk := tracker_del (ps_session (d_ps s)) (d_trk s)\<rparr>"

definition mark_down :: "nat \<Rightarrow> string \<Rightarrow> dstate \<Rightarrow> dstate" where
  "mark_down ptr reason s = s\<lparr>d_pool := on_worker ptr (markDown reason (d_now s)) (d_pool s)\<rparr>"

text \<open>The part of \<open>streamFrom\<close> after \<open>ticket.accept()\<close>, before its deferred calls.\<close>

definition stream_body :: "world \<Rightarrow> nat \<Rightarrow> attempt \<Rightarrow> int \<Rightarrow> (string \<times> string) list \<Rightarrow> dstate \<Rightarrow> outcome \<times> dstate" where
  "stream_body e ptr a status hdrs s =
     (let (gone, ps) = start_stream a status hdrs (d_ps s)
      in if gone then (OutClientGone, s\<lparr>d_ps := ps\<rparr>)
         else
           (let (gone2, ps2) = write_chunks (a_chunks a) ps;
                s2 = s\<lparr>d_ps := ps2,
                       d_now := d_now s + int (a_stream_dur a),
                       d_cache := fold (\<lambda>(t, q). pollCheckpoint (ps_args ps) t q) (a_polls a) (d_cache s),
                       d_pool := fold pool_step (a_ops a) (d_pool s)\<rparr>
            in if gone2 then (OutClientGone, s2)
               else case a_end a of
                      EndEOF \<Rightarrow> (OutDone, s2)
                    | EndErr err \<Rightarrow> if ctx_done e (d_now s2) then (OutClientGone, s2)
                                  else (OutBroken, mark_down ptr (''stream: '' @ err) s2)))"

definition streamFrom :: "world \<Rightarrow> worker \<Rightarrow> taskRequest \<Rightarrow> dstate \<Rightarrow> outcome \<times> dstate" where
  "streamFrom e wk body s =
     (let k = d_k s; a = att e k; ptr = w_ptr wk;
          s0 = s\<lparr>d_k := Suc k, d_pool := on_worker ptr dispatchBegin (d_pool s)\<rparr>;
          s1 = s0\<lparr>d_now := d_now s + int (a_dur a), d_pool := fold pool_step (a_wait_ops a) (d_pool s0)\<rparr>;
          (res, s') = (case a_reply a of
              BuildErr \<Rightarrow> (OutRefused, end_pending ptr s1)
            | NoConn err \<Rightarrow>
                if ctx_done e (d_now s1) then (OutClientGone, end_pending ptr s1)
                else (OutRefused, end_pending ptr
                       (mark_down ptr (''dispatch: '' @ err) s1)\<lparr>d_ps := (d_ps s1)\<lparr>refusedBy503 := False\<rparr>\<rparr>)
            | Reply status hdrs \<Rightarrow>
                if status = 503
                then (OutRefused, end_pending ptr s1\<lparr>d_ps := (d_ps s1)\<lparr>refusedBy503 := True\<rparr>\<rparr>)
                else
                  (let s2 = accept_ticket ptr k s1;
                       s3 = s2\<lparr>d_trk := tracker_set (ps_session (d_ps s2)) (w_url wk) (d_trk s2)\<rparr>;
                       (res, s4) = stream_body e ptr a status hdrs s3
                   in (res, end_accepted ptr k s4)))
      in (res, s'\<lparr>d_hist := d_hist s' @ [(w_url wk, tr_args body, res)]\<rparr>))"

section \<open>Recovery\<close>

definition metric :: "string \<Rightarrow> dstate \<Rightarrow> dstate" where
  "metric m s = s\<lparr>d_metrics := d_metrics s @ [m]\<rparr>"

text \<open>One call of \<open>pl.schedule()\<close> in the world's next map order.\<close>

definition do_schedule :: "world \<Rightarrow> dstate \<Rightarrow> worker list \<times> dstate" where
  "do_schedule e s =
     (let ws = rand_shuffle (map_order e (d_r s)) (map snd (workers (d_pool s)));
          (order, p) = schedule (rnd e (d_r s)) ws (d_pool s)
      in (order, s\<lparr>d_pool := p, d_r := Suc (d_r s)\<rparr>))"

definition eligible :: "string list \<Rightarrow> (string \<times> gotime) list \<Rightarrow> worker \<Rightarrow> bool" where
  "eligible broken refused w \<longleftrightarrow> w_url w \<notin> set broken \<and>
     (case map_of refused (w_url w) of None \<Rightarrow> True | Some t \<Rightarrow> healthySince w t)"

definition pick :: "world \<Rightarrow> string list \<Rightarrow> (string \<times> gotime) list \<Rightarrow> dstate \<Rightarrow> worker option \<times> dstate" where
  "pick e broken refused s =
     (let (order, s') = do_schedule e s in (find (eligible broken refused) order, s'))"

definition do_rediscover :: "world \<Rightarrow> dstate \<Rightarrow> dstate" where
  "do_rediscover e s =
     (let r = red e (d_r s); now' = d_now s + int (r_dur r)
      in s\<lparr>d_pool := rediscover (d_now s) now' (r_lookup r) (r_net r) (d_pool s), d_now := now'\<rparr>)"

text \<open>\<open>waitForRecoveryWorker\<close>: each pass ends with a one-second sleep, so it stops at the deadline.\<close>

function waitForRecoveryWorker ::
    "world \<Rightarrow> string list \<Rightarrow> (string \<times> gotime) list \<Rightarrow> gotime \<Rightarrow> dstate \<Rightarrow> worker option \<times> dstate" where
  "waitForRecoveryWorker e broken refused deadline s =
     (let (w1, s1) = pick e broken refused s
      in case w1 of
           Some w \<Rightarrow> (Some w, s1)
         | None \<Rightarrow>
             if \<not> d_now s1 < deadline \<or> ctx_done e (d_now s1) then (None, s1)
             else
               (let (w2, s2) = pick e broken refused (do_rediscover e s1)
                in case w2 of
                     Some w \<Rightarrow> (Some w, s2)
                   | None \<Rightarrow>
                       (let later = d_now s2 + second
                        in if ctx_done e later then (None, s2\<lparr>d_now := later\<rparr>)
                           else waitForRecoveryWorker e broken refused deadline (s2\<lparr>d_now := later\<rparr>))))"
  by pat_completeness auto

lemma do_schedule_now [simp]: "d_now (snd (do_schedule e s)) = d_now s"
  by (simp add: do_schedule_def Let_def case_prod_unfold)

lemma pick_now [simp]: "d_now (snd (pick e b r s)) = d_now s"
  by (simp add: pick_def case_prod_unfold Let_def)

lemma rediscover_now: "d_now s \<le> d_now (do_rediscover e s)"
  by (simp add: do_rediscover_def Let_def)

lemma pick_nowE: "(w, s1) = pick e b r s \<Longrightarrow> d_now s1 = d_now s"
  by (metis pick_now snd_conv)

termination waitForRecoveryWorker
proof (relation "measure (\<lambda>(e, b, r, dl, s). nat (dl - d_now s))", goal_cases)
  case (2 e broken refused deadline s x xa y xb xc xd xe)
  then show ?case
    using rediscover_now [of y e] by (auto dest!: pick_nowE simp: second_def)
qed simp

declare waitForRecoveryWorker.simps [simp del]

text \<open>\<open>withResume\<close> on the decoded envelope (JSON decoding of the forwarded body cannot fail here:
  the handler has decoded the same bytes).\<close>

definition withResume :: "taskRequest \<Rightarrow> dstate \<Rightarrow> taskRequest \<times> dstate" where
  "withResume body s =
     (let ((args, resumed), c) = resumeIfApplicable (d_now s) (tr_args body) (d_cache s)
      in (if resumed then body\<lparr>tr_args := args\<rparr> else body, s\<lparr>d_cache := c\<rparr>))"

text \<open>
  The inner loop of \<open>recover\<close> for one move. It ends with the session over (\<open>MoveOver\<close>) or with the
  stream broken once more (\<open>MoveBroken\<close>, with the URL that broke and the body so far).
\<close>

datatype move_end = MoveOver | MoveBroken string taskRequest

fun recover_move ::
    "nat \<Rightarrow> world \<Rightarrow> gotime \<Rightarrow> string list \<Rightarrow> (string \<times> gotime) list \<Rightarrow> taskRequest \<Rightarrow> dstate
       \<Rightarrow> (move_end \<times> (string \<times> gotime) list \<times> dstate) option" where
  "recover_move 0 e deadline broken refused body s = None"
| "recover_move (Suc fuel) e deadline broken refused body s =
     (if ctx_done e (d_now s) then Some (MoveOver, refused, s)
      else
        (let (next, s1) = waitForRecoveryWorker e broken refused deadline s
         in case next of
              None \<Rightarrow> Some (MoveOver, refused, metric ''recovery_failed'' s1)
            | Some wk \<Rightarrow>
                (let (body', s2) = withResume body s1;
                     (res, s3) = streamFrom e wk body' s2
                 in case res of
                      OutDone \<Rightarrow> Some (MoveOver, refused, metric ''recovered'' s3)
                    | OutClientGone \<Rightarrow> Some (MoveOver, refused, s3)
                    | OutRefused \<Rightarrow>
                        recover_move fuel e deadline broken
                          (AList.update (w_url wk) (d_now s3) refused) body' s3
                    | OutBroken \<Rightarrow> Some (MoveBroken (w_url wk) body', refused, metric ''recovered'' s3))))"

fun recover_moves ::
    "nat \<Rightarrow> nat \<Rightarrow> world \<Rightarrow> string list \<Rightarrow> (string \<times> gotime) list \<Rightarrow> taskRequest \<Rightarrow> dstate \<Rightarrow> dstate option" where
  "recover_moves 0 fuel e broken refused body s = Some (metric ''recovery_failed'' s)"
| "recover_moves (Suc n) fuel e broken refused body s =
     (case recover_move fuel e (d_now s + recovery_wait e) broken refused body s of
        None \<Rightarrow> None
      | Some (MoveOver, refused', s') \<Rightarrow> Some s'
      | Some (MoveBroken url body', refused', s') \<Rightarrow>
          recover_moves n fuel e (url # broken) refused' body' s')"

definition recover :: "nat \<Rightarrow> world \<Rightarrow> worker \<Rightarrow> taskRequest \<Rightarrow> dstate \<Rightarrow> dstate option" where
  "recover fuel e failed body s = recover_moves maxRecoveries fuel e [w_url failed] [] body s"

section \<open>Dispatch\<close>

definition http_error :: "int \<Rightarrow> dstate \<Rightarrow> dstate" where
  "http_error status s =
     (if headersWritten (d_ps s) then s
      else s\<lparr>d_ps := (d_ps s)\<lparr>ps_status := Some status, headersWritten := True\<rparr>\<rparr>)"

fun dispatch_loop :: "nat \<Rightarrow> world \<Rightarrow> taskRequest \<Rightarrow> worker list \<Rightarrow> dstate \<Rightarrow> dstate option" where
  "dispatch_loop fuel e body [] s = Some (http_error 503 (metric ''all_at_cap'' s))"
| "dispatch_loop fuel e body (wk # order) s =
     (let (res, s1) = streamFrom e wk body s
      in case res of
           OutRefused \<Rightarrow> dispatch_loop fuel e body order
             (metric (if refusedBy503 (d_ps s1) then ''fallthrough_503'' else ''fallthrough_unreachable'') s1)
         | OutDone \<Rightarrow> Some (metric ''success'' s1)
         | OutClientGone \<Rightarrow> Some (metric ''success'' s1)
         | OutBroken \<Rightarrow> recover fuel e wk body (metric ''success'' s1))"

definition dispatchTask :: "nat \<Rightarrow> world \<Rightarrow> taskRequest \<Rightarrow> dstate \<Rightarrow> dstate option" where
  "dispatchTask fuel e body s =
     (let (order, s1) = do_schedule e (s\<lparr>d_ps := newPMSStream body, d_hist := []\<rparr>)
      in if order = [] then Some (http_error 503 (metric ''no_workers'' s1))
         else dispatch_loop fuel e body order s1)"

section \<open>Frame facts\<close>

named_theorems dframe \<open>what each helper leaves unchanged\<close>

lemma frames [dframe]:
  "d_hist (end_pending ptr s) = d_hist s" "d_ps (end_pending ptr s) = d_ps s"
  "d_hist (accept_ticket ptr k s) = d_hist s" "d_ps (accept_ticket ptr k s) = d_ps s"
  "d_hist (end_accepted ptr k s) = d_hist s" "d_ps (end_accepted ptr k s) = d_ps s"
  "d_hist (mark_down ptr r s) = d_hist s" "d_ps (mark_down ptr r s) = d_ps s"
  "d_hist (metric m s) = d_hist s" "d_ps (metric m s) = d_ps s"
  "d_now (end_pending ptr s) = d_now s" "d_now (accept_ticket ptr k s) = d_now s"
  "d_now (end_accepted ptr k s) = d_now s" "d_now (mark_down ptr r s) = d_now s"
  "d_now (metric m s) = d_now s" "d_pool (metric m s) = d_pool s"
  "d_cache (metric m s) = d_cache s"
  by (simp_all add: end_pending_def accept_ticket_def end_accepted_def mark_down_def metric_def)

lemma frames_schedule [dframe]:
  "d_hist (snd (do_schedule e s)) = d_hist s" "d_ps (snd (do_schedule e s)) = d_ps s"
  "d_hist (do_rediscover e s) = d_hist s" "d_ps (do_rediscover e s) = d_ps s"
  "d_hist (snd (pick e b r s)) = d_hist s" "d_ps (snd (pick e b r s)) = d_ps s"
  by (simp_all add: do_schedule_def do_rediscover_def pick_def Let_def case_prod_unfold)

lemma frames_resume [dframe]:
  "d_hist (snd (withResume body s)) = d_hist s" "d_ps (snd (withResume body s)) = d_ps s"
  "d_now (snd (withResume body s)) = d_now s" "d_pool (snd (withResume body s)) = d_pool s"
  by (simp_all add: withResume_def Let_def case_prod_unfold)

lemma wait_unfold:
  "waitForRecoveryWorker e b r dl s =
     (let s1 = snd (pick e b r s); t = do_rediscover e s1; s2 = snd (pick e b r t);
          later = d_now s2 + second
      in if fst (pick e b r s) \<noteq> None then (fst (pick e b r s), s1)
         else if \<not> d_now s1 < dl \<or> ctx_done e (d_now s1) then (None, s1)
         else if fst (pick e b r t) \<noteq> None then (fst (pick e b r t), s2)
         else if ctx_done e later then (None, s2\<lparr>d_now := later\<rparr>)
         else waitForRecoveryWorker e b r dl (s2\<lparr>d_now := later\<rparr>))"
proof -
  let ?t = "do_rediscover e (snd (pick e b r s))"
  show ?thesis
    unfolding waitForRecoveryWorker.simps [of e b r dl s] Let_def case_prod_unfold
    by (cases "fst (pick e b r s)"; cases "fst (pick e b r ?t)") simp_all
qed

lemma later_less:
  assumes "d_now s < dl"
  shows "nat (dl - (d_now (snd (pick e b r (do_rediscover e (snd (pick e b r s))))) + second)) <
    nat (dl - d_now s)"
  using assms rediscover_now [of "snd (pick e b r s)" e] by (simp add: second_def)

text \<open>What the picks, the rediscoveries and the sleeps keep, waiting keeps.\<close>

lemma wait_keeps:
  assumes "P s"
    and "\<And>s. P s \<Longrightarrow> P (snd (pick e b r s))"
    and "\<And>s. P s \<Longrightarrow> P (do_rediscover e s)"
    and "\<And>s. P s \<Longrightarrow> P (s\<lparr>d_now := d_now s + second\<rparr>)"
  shows "P (snd (waitForRecoveryWorker e b r dl s))"
  using assms(1)
proof (induction "nat (dl - d_now s)" arbitrary: s rule: less_induct)
  case less
  define s1 where "s1 = snd (pick e b r s)"
  define s2 where "s2 = snd (pick e b r (do_rediscover e s1))"
  have now: "d_now s1 = d_now s" by (simp add: s1_def)
  have P1: "P s1" and P2: "P s2" using less.prems assms(2,3) by (simp_all add: s1_def s2_def)
  have P3: "P (s2\<lparr>d_now := d_now s2 + second\<rparr>)" by (rule assms(4) [OF P2])
  have rec: "P (snd (waitForRecoveryWorker e b r dl (s2\<lparr>d_now := d_now s2 + second\<rparr>)))" if "d_now s < dl"
    using less.hyps [OF _ P3] later_less [OF that, of e b r] by (simp add: s1_def s2_def)
  show ?case
    unfolding wait_unfold [of e b r dl s] Let_def s1_def [symmetric] s2_def [symmetric]
    using P1 P2 P3 rec now by auto
qed

lemma frames_wait [dframe]:
  "d_hist (snd (waitForRecoveryWorker e b r dl s)) = d_hist s"
  "d_ps (snd (waitForRecoveryWorker e b r dl s)) = d_ps s"
  by (rule wait_keeps [where P = "\<lambda>t. d_hist t = d_hist s"]; simp add: dframe)
     (rule wait_keeps [where P = "\<lambda>t. d_ps t = d_ps s"]; simp add: dframe)

lemma wait_found:
  assumes "\<And>s w. fst (pick e b r s) = Some w \<Longrightarrow> Q w"
    and "fst (waitForRecoveryWorker e b r dl s) = Some w"
  shows "Q w"
  using assms(2)
proof (induction "nat (dl - d_now s)" arbitrary: s rule: less_induct)
  case less
  define s1 where "s1 = snd (pick e b r s)"
  define t where "t = do_rediscover e s1"
  define s2 where "s2 = snd (pick e b r t)"
  have now: "d_now s1 = d_now s" by (simp add: s1_def)
  have rec: "Q w" if "d_now s < dl"
    and "fst (waitForRecoveryWorker e b r dl (s2\<lparr>d_now := d_now s2 + second\<rparr>)) = Some w"
    using less.hyps [OF _ that(2)] later_less [OF that(1), of e b r] by (simp add: s1_def s2_def t_def)
  show ?case
    using less.prems rec now assms(1)
    unfolding wait_unfold [of e b r dl s] Let_def s1_def [symmetric] t_def [symmetric] s2_def [symmetric]
    by (auto split: if_splits)
qed

lemma wait_eligible:
  "fst (waitForRecoveryWorker e b r dl s) = Some w \<Longrightarrow> eligible b r w"
  by (rule wait_found) (auto simp: pick_def Let_def case_prod_unfold find_Some_iff)

lemma stream_body_frames [dframe]:
  "d_hist (snd (stream_body e ptr a st h s)) = d_hist s"
  "fst (stream_body e ptr a st h s) \<noteq> OutRefused"
  by (auto simp: stream_body_def Let_def case_prod_unfold dframe split: stream_end.split)

lemma streamFrom_hist:
  "d_hist (snd (streamFrom e wk body s)) =
     d_hist s @ [(w_url wk, tr_args body, fst (streamFrom e wk body s))]"
  by (auto simp: streamFrom_def Let_def case_prod_unfold dframe split: reply.split)

section \<open>A worker whose stream broke is never used again\<close>

type_synonym history = "(string \<times> argv \<times> outcome) list"

definition broken_urls :: "history \<Rightarrow> string set" where
  "broken_urls h = {u. \<exists>a. (u, a, OutBroken) \<in> set h}"

fun no_reuse :: "history \<Rightarrow> bool" where
  "no_reuse [] = True"
| "no_reuse ((u, a, oc) # h) = ((oc = OutBroken \<longrightarrow> u \<notin> fst ` set h) \<and> no_reuse h)"

lemma no_reuse_snoc: "no_reuse (h @ [(u, a, oc)]) \<longleftrightarrow> no_reuse h \<and> u \<notin> broken_urls h"
  by (induction h rule: no_reuse.induct) (auto simp: broken_urls_def)

lemma broken_urls_snoc:
  "broken_urls (h @ [(u, a, oc)]) = (if oc = OutBroken then insert u (broken_urls h) else broken_urls h)"
  by (auto simp: broken_urls_def)

definition accepted_count :: "history \<Rightarrow> nat" where
  "accepted_count h = length (filter (\<lambda>(u, a, oc). oc \<noteq> OutRefused) h)"

lemma accepted_count_snoc:
  "accepted_count (h @ [(u, a, oc)]) = accepted_count h + (if oc = OutRefused then 0 else 1)"
  by (simp add: accepted_count_def)

definition hist_inv :: "string list \<Rightarrow> history \<Rightarrow> bool" where
  "hist_inv broken h \<longleftrightarrow> no_reuse h \<and> broken_urls h \<subseteq> set broken"

lemma recover_move_step:
  assumes "\<not> ctx_done e (d_now s)"
    and "fst (waitForRecoveryWorker e broken refused dl s) = Some wk"
    and "withResume body (snd (waitForRecoveryWorker e broken refused dl s)) = (body', s2)"
    and "streamFrom e wk body' s2 = (res, s3)"
  shows "recover_move (Suc fuel) e dl broken refused body s =
    (case res of
       OutDone \<Rightarrow> Some (MoveOver, refused, metric ''recovered'' s3)
     | OutClientGone \<Rightarrow> Some (MoveOver, refused, s3)
     | OutRefused \<Rightarrow> recover_move fuel e dl broken (AList.update (w_url wk) (d_now s3) refused) body' s3
     | OutBroken \<Rightarrow> Some (MoveBroken (w_url wk) body', refused, metric ''recovered'' s3))"
  using assms by (cases res) (simp_all add: case_prod_unfold Let_def)

lemma recover_move_hist:
  "recover_move fuel e dl broken refused body s = Some (me, refused', s') \<Longrightarrow>
   hist_inv broken (d_hist s) \<Longrightarrow>
   no_reuse (d_hist s') \<and> accepted_count (d_hist s') \<le> accepted_count (d_hist s) + 1 \<and>
   (\<forall>url body'. me = MoveBroken url body' \<longrightarrow> hist_inv (url # broken) (d_hist s'))"
proof (induction fuel arbitrary: refused body s)
  case (Suc fuel)
  let ?W = "waitForRecoveryWorker e broken refused dl s"
  show ?case
  proof (cases "ctx_done e (d_now s) \<or> fst ?W = None")
    case True
    with Suc.prems show ?thesis
      by (auto simp: hist_inv_def dframe case_prod_unfold Let_def split: if_splits)
  next
    case False
    then obtain wk where wk: "fst ?W = Some wk" by auto
    obtain body' s2 where wr: "withResume body (snd ?W) = (body', s2)" by fastforce
    obtain res s3 where sf: "streamFrom e wk body' s2 = (res, s3)" by fastforce
    have h2: "d_hist s2 = d_hist s"
      using frames_resume(1) [of body "snd ?W"] wr by (simp add: dframe)
    have h3: "d_hist s3 = d_hist s @ [(w_url wk, tr_args body', res)]"
      using streamFrom_hist [of e wk body' s2] sf h2 by simp
    have el: "w_url wk \<notin> set broken"
      using wait_eligible [OF wk] by (simp add: eligible_def)
    have nr: "no_reuse (d_hist s3)"
      using Suc.prems(2) el by (auto simp: h3 no_reuse_snoc hist_inv_def)
    have ac: "accepted_count (d_hist s3) \<le> accepted_count (d_hist s) + 1"
      by (simp add: h3 accepted_count_snoc)
    from False have "\<not> ctx_done e (d_now s)" by simp
    note step = Suc.prems(1) [unfolded recover_move_step [OF this wk wr sf]]
    show ?thesis
    proof (cases res)
      case OutRefused
      have "hist_inv broken (d_hist s3)"
        using Suc.prems(2) nr by (simp add: hist_inv_def h3 broken_urls_snoc OutRefused)
      from Suc.IH [OF _ this] step OutRefused show ?thesis
        by (auto simp: h3 accepted_count_snoc)
    qed (use Suc.prems(2) step nr ac in \<open>auto simp: h3 accepted_count_snoc dframe hist_inv_def broken_urls_snoc\<close>)
  qed
qed simp

lemma recover_moves_hist:
  "recover_moves n fuel e broken refused body s = Some s' \<Longrightarrow> hist_inv broken (d_hist s) \<Longrightarrow>
   no_reuse (d_hist s') \<and> accepted_count (d_hist s') \<le> accepted_count (d_hist s) + n"
proof (induction n arbitrary: broken refused body s)
  case 0
  then show ?case by (auto simp: dframe hist_inv_def)
next
  case (Suc n)
  then obtain me refused' s1 where m:
    "recover_move fuel e (d_now s + recovery_wait e) broken refused body s = Some (me, refused', s1)"
    by (auto split: option.splits)
  note h = recover_move_hist [OF m Suc.prems(2)]
  show ?case
  proof (cases me)
    case MoveOver
    with m Suc.prems h show ?thesis by auto
  next
    case (MoveBroken url body')
    with m Suc.prems(1) have "recover_moves n fuel e (url # broken) refused' body' s1 = Some s'" by simp
    from Suc.IH [OF this] h MoveBroken show ?thesis by auto
  qed
qed

lemma dispatch_loop_hist:
  "dispatch_loop fuel e body order s = Some s' \<Longrightarrow> hist_inv [] (d_hist s) \<Longrightarrow>
   no_reuse (d_hist s') \<and> accepted_count (d_hist s') \<le> accepted_count (d_hist s) + 1 + maxRecoveries"
proof (induction order arbitrary: s)
  case Nil
  then show ?case by (auto simp: http_error_def dframe hist_inv_def)
next
  case (Cons wk order)
  obtain res s1 where sf: "streamFrom e wk body s = (res, s1)" by fastforce
  have h1: "d_hist s1 = d_hist s @ [(w_url wk, tr_args body, res)]"
    using streamFrom_hist [of e wk body s] sf by simp
  have nr: "no_reuse (d_hist s1)"
    using Cons.prems(2) by (auto simp: h1 no_reuse_snoc hist_inv_def)
  show ?case
  proof (cases res)
    case OutRefused
    let ?s2 = "metric (if refusedBy503 (d_ps s1) then ''fallthrough_503'' else ''fallthrough_unreachable'') s1"
    have "hist_inv [] (d_hist ?s2)"
      using Cons.prems(2) nr by (simp add: hist_inv_def h1 broken_urls_snoc OutRefused dframe)
    from Cons.IH [OF _ this] Cons.prems(1) sf OutRefused show ?thesis
      by (auto simp: h1 accepted_count_snoc dframe)
  next
    case OutBroken
    have "hist_inv [w_url wk] (d_hist (metric ''success'' s1))"
      using Cons.prems(2) nr by (auto simp: hist_inv_def h1 broken_urls_snoc OutBroken dframe)
    from recover_moves_hist [OF _ this] Cons.prems(1) sf OutBroken show ?thesis
      by (auto simp: recover_def h1 accepted_count_snoc dframe)
  qed (use Cons.prems sf nr in \<open>auto simp: h1 accepted_count_snoc dframe\<close>)
qed

lemma dispatchTask_hist:
  assumes "dispatchTask fuel e body s = Some s'"
  shows "no_reuse (d_hist s') \<and> accepted_count (d_hist s') \<le> 1 + maxRecoveries"
proof -
  let ?s = "s\<lparr>d_ps := newPMSStream body, d_hist := []\<rparr>"
  obtain order s1 where ds: "do_schedule e ?s = (order, s1)" by fastforce
  have h: "d_hist s1 = []" using frames_schedule(1) [of e ?s] ds by simp
  then have i: "hist_inv [] (d_hist s1)" by (simp add: hist_inv_def broken_urls_def)
  show ?thesis
  proof (cases "order = []")
    case True
    with assms ds h show ?thesis
      by (auto simp: dispatchTask_def http_error_def dframe accepted_count_def)
  next
    case False
    with assms ds dispatch_loop_hist [OF _ i] h show ?thesis
      by (auto simp: dispatchTask_def accepted_count_def)
  qed
qed

end
