(* ===== verification/OrchRecovery.thy ===== *)
theory OrchRecovery
  imports OrchDispatch
begin

text \<open>
  Facts about a dispatch: what reaches PMS and in which form, that the in-flight accounting of a
  finished attempt is balanced, that the recovery loops end, and what the resume cache does to a
  session that is moved more than once.
\<close>

section \<open>The bytes PMS sees\<close>

definition ps_ok :: "pmsStream \<Rightarrow> bool" where
  "ps_ok ps \<longleftrightarrow> (wroteAny ps \<longleftrightarrow> ps_out ps \<noteq> []) \<and> (wroteAny ps \<longrightarrow> lastByte ps = last (ps_out ps))
     \<and> (wroteAny ps \<longrightarrow> headersWritten ps)"

text \<open>\<open>out'\<close> continues \<open>out\<close> with data that starts on a line of its own.\<close>

definition continues_line :: "string \<Rightarrow> string \<Rightarrow> string \<Rightarrow> bool" where
  "continues_line out data out' \<longleftrightarrow>
     (\<exists>sep. (sep = [] \<or> sep = [CHR 0x0A]) \<and> out' = out @ sep @ data
        \<and> (data = [] \<or> out @ sep = [] \<or> last (out @ sep) = CHR 0x0A))"

lemma write_chunks_out:
  "ps_ok ps \<Longrightarrow> headersWritten ps \<Longrightarrow>
     \<exists>data. prefix data (concat (map fst cs)) \<and> ps_out (snd (write_chunks cs ps)) = ps_out ps @ data
       \<and> (\<not> fst (write_chunks cs ps) \<longrightarrow> data = concat (map fst cs))
       \<and> ps_ok (snd (write_chunks cs ps))
       \<and> headersWritten (snd (write_chunks cs ps)) \<and> ps_status (snd (write_chunks cs ps)) = ps_status ps"
proof (induction cs ps rule: write_chunks.induct)
  case (2 data ok cs ps)
  show ?case
  proof (cases "data = [] \<or> \<not> ok")
    case True
    with 2 show ?thesis by auto
  next
    case False
    then have "ps_ok (ps_write data ps)" "headersWritten (ps_write data ps)"
      using "2.prems" by (auto simp: ps_ok_def ps_write_def)
    from "2.IH"(2) [OF _ _ this] False obtain d where
      d: "prefix d (concat (map fst cs))"
      "ps_out (snd (write_chunks cs (ps_write data ps))) = ps_out (ps_write data ps) @ d"
      "\<not> fst (write_chunks cs (ps_write data ps)) \<longrightarrow> d = concat (map fst cs)"
      "ps_ok (snd (write_chunks cs (ps_write data ps)))"
      "headersWritten (snd (write_chunks cs (ps_write data ps)))"
      "ps_status (snd (write_chunks cs (ps_write data ps))) = ps_status (ps_write data ps)"
      by auto
    show ?thesis
      by (rule exI [of _ "data @ d"]) (use d False in \<open>auto simp: ps_write_def\<close>)
  qed
qed simp

lemma start_stream_out:
  assumes "ps_ok ps"
  shows "(\<exists>sep. (sep = [] \<or> sep = [CHR 0x0A]) \<and> ps_out (snd (start_stream a st h ps)) = ps_out ps @ sep
       \<and> (\<not> fst (start_stream a st h ps) \<longrightarrow> ps_out ps @ sep = [] \<or> last (ps_out ps @ sep) = CHR 0x0A)
       \<and> (fst (start_stream a st h ps) \<longrightarrow> sep = []))
     \<and> ps_ok (snd (start_stream a st h ps)) \<and> headersWritten (snd (start_stream a st h ps))
     \<and> ps_status (snd (start_stream a st h ps)) = (if headersWritten ps then ps_status ps else Some st)"
  using assms by (auto simp: start_stream_def ps_ok_def ps_write_def)

lemma stream_body_out:
  fixes e ptr a st h s
  assumes "ps_ok (d_ps s)"
  defines "r \<equiv> stream_body e ptr a st h s"
  shows "\<exists>data. prefix data (concat (map fst (a_chunks a)))
       \<and> continues_line (ps_out (d_ps s)) data (ps_out (d_ps (snd r)))
       \<and> (fst r \<noteq> OutClientGone \<longrightarrow> data = concat (map fst (a_chunks a)))"
    and "ps_ok (d_ps (snd r))" and "headersWritten (d_ps (snd r))"
    and "ps_status (d_ps (snd r)) = (if headersWritten (d_ps s) then ps_status (d_ps s) else Some st)"
proof -
  define ss where "ss = start_stream a st h (d_ps s)"
  define wc where "wc = write_chunks (a_chunks a) (snd ss)"
  obtain sep where sep: "sep = [] \<or> sep = [CHR 0x0A]" "ps_out (snd ss) = ps_out (d_ps s) @ sep"
    "\<not> fst ss \<longrightarrow> ps_out (d_ps s) @ sep = [] \<or> last (ps_out (d_ps s) @ sep) = CHR 0x0A"
    "fst ss \<longrightarrow> sep = []"
    and ok: "ps_ok (snd ss)" "headersWritten (snd ss)"
    and st: "ps_status (snd ss) = (if headersWritten (d_ps s) then ps_status (d_ps s) else Some st)"
    using start_stream_out [OF assms(1), of a st h] unfolding ss_def by blast
  obtain data where d: "prefix data (concat (map fst (a_chunks a)))" "ps_out (snd wc) = ps_out (snd ss) @ data"
    "\<not> fst wc \<longrightarrow> data = concat (map fst (a_chunks a))" "ps_ok (snd wc)" "headersWritten (snd wc)"
    "ps_status (snd wc) = ps_status (snd ss)"
    using write_chunks_out [OF ok, of "a_chunks a"] unfolding wc_def by blast
  have ps: "d_ps (snd r) = (if fst ss then snd ss else snd wc)"
    by (auto simp: r_def stream_body_def ss_def wc_def Let_def case_prod_unfold dframe split: stream_end.split)
  have gone: "fst ss \<or> fst wc \<Longrightarrow> fst r = OutClientGone"
    by (auto simp: r_def stream_body_def ss_def wc_def Let_def case_prod_unfold split: stream_end.split)
  show "ps_ok (d_ps (snd r))" "headersWritten (d_ps (snd r))"
    "ps_status (d_ps (snd r)) = (if headersWritten (d_ps s) then ps_status (d_ps s) else Some st)"
    using ok d st ps by auto
  show "\<exists>data. prefix data (concat (map fst (a_chunks a)))
       \<and> continues_line (ps_out (d_ps s)) data (ps_out (d_ps (snd r)))
       \<and> (fst r \<noteq> OutClientGone \<longrightarrow> data = concat (map fst (a_chunks a)))"
  proof (cases "fst ss")
    case True
    then show ?thesis
      using sep gone ps by (intro exI [of _ "[]"]) (auto simp: continues_line_def)
  next
    case False
    have "continues_line (ps_out (d_ps s)) data (ps_out (d_ps (snd r)))"
      unfolding continues_line_def using sep d(2) ps False by (intro exI [of _ sep]) auto
    then show ?thesis using d gone by blast
  qed
qed

lemma streamFrom_out:
  fixes e wk body s
  assumes "ps_ok (d_ps s)"
  defines "r \<equiv> streamFrom e wk body s"
  shows "\<exists>data. prefix data (concat (map fst (a_chunks (att e (d_k s)))))
       \<and> continues_line (ps_out (d_ps s)) data (ps_out (d_ps (snd r)))
       \<and> (fst r \<in> {OutDone, OutBroken} \<longrightarrow> data = concat (map fst (a_chunks (att e (d_k s)))))"
    and "ps_ok (d_ps (snd r))"
    and "fst r = OutRefused \<Longrightarrow> ps_out (d_ps (snd r)) = ps_out (d_ps s)
       \<and> ps_status (d_ps (snd r)) = ps_status (d_ps s) \<and> headersWritten (d_ps (snd r)) = headersWritten (d_ps s)"
    and "headersWritten (d_ps s) \<Longrightarrow> ps_status (d_ps (snd r)) = ps_status (d_ps s) \<and> headersWritten (d_ps (snd r))"
proof -
  let ?a = "att e (d_k s)"
  have same: "\<exists>data. prefix data (concat (map fst (a_chunks ?a))) \<and> continues_line out data out
       \<and> (oc \<in> {OutDone, OutBroken} \<longrightarrow> data = concat (map fst (a_chunks ?a)))"
    if "oc \<noteq> OutDone" "oc \<noteq> OutBroken" for oc out
    using that by (intro exI [of _ "[]"]) (auto simp: continues_line_def)
  have flag: "ps_ok (ps\<lparr>refusedBy503 := b\<rparr>) \<longleftrightarrow> ps_ok ps" for ps b by (simp add: ps_ok_def)
  have "(\<exists>data. prefix data (concat (map fst (a_chunks ?a)))
       \<and> continues_line (ps_out (d_ps s)) data (ps_out (d_ps (snd r)))
       \<and> (fst r \<in> {OutDone, OutBroken} \<longrightarrow> data = concat (map fst (a_chunks ?a))))
     \<and> ps_ok (d_ps (snd r))
     \<and> (fst r = OutRefused \<longrightarrow> ps_out (d_ps (snd r)) = ps_out (d_ps s)
       \<and> ps_status (d_ps (snd r)) = ps_status (d_ps s) \<and> headersWritten (d_ps (snd r)) = headersWritten (d_ps s))
     \<and> (headersWritten (d_ps s) \<longrightarrow> ps_status (d_ps (snd r)) = ps_status (d_ps s) \<and> headersWritten (d_ps (snd r)))"
  proof (cases "a_reply ?a")
    case BuildErr
    then show ?thesis
      using assms(1) same [of OutRefused] by (simp add: r_def streamFrom_def Let_def dframe)
  next
    case (NoConn err)
    then show ?thesis
      using assms(1) same [of OutRefused] same [of OutClientGone]
      by (simp add: r_def streamFrom_def Let_def dframe flag)
  next
    case (Reply st h)
    show ?thesis
    proof (cases "st = 503")
      case True
      then show ?thesis
        using Reply assms(1) same [of OutRefused] by (simp add: r_def streamFrom_def Let_def dframe flag)
    next
      case False
      let ?s1 = "s\<lparr>d_k := Suc (d_k s), d_now := d_now s + int (a_dur ?a),
        d_pool := fold pool_step (a_wait_ops ?a) (on_worker (w_ptr wk) dispatchBegin (d_pool s))\<rparr>"
      let ?s2 = "accept_ticket (w_ptr wk) (d_k s) ?s1"
      let ?s3 = "?s2\<lparr>d_trk := tracker_set (ps_session (d_ps ?s2)) (w_url wk) (d_trk ?s2)\<rparr>"
      let ?b = "stream_body e (w_ptr wk) ?a st h ?s3"
      have r: "fst r = fst ?b" "d_ps (snd r) = d_ps (snd ?b)"
        using Reply False by (simp_all add: r_def streamFrom_def Let_def case_prod_unfold dframe)
      have ps: "d_ps ?s3 = d_ps s" by (simp add: dframe)
      have ok: "ps_ok (d_ps ?s3)" using assms(1) ps by simp
      note b = stream_body_out [OF ok, where e = e and ptr = "w_ptr wk" and a = ?a and st = st and h = h, unfolded ps]
      have nr: "fst ?b \<noteq> OutRefused" by (rule stream_body_frames)
      show ?thesis
        unfolding r using b nr by auto
    qed
  qed
  then show "\<exists>data. prefix data (concat (map fst (a_chunks ?a)))
       \<and> continues_line (ps_out (d_ps s)) data (ps_out (d_ps (snd r)))
       \<and> (fst r \<in> {OutDone, OutBroken} \<longrightarrow> data = concat (map fst (a_chunks ?a)))"
    and "ps_ok (d_ps (snd r))"
    and "fst r = OutRefused \<Longrightarrow> ps_out (d_ps (snd r)) = ps_out (d_ps s)
       \<and> ps_status (d_ps (snd r)) = ps_status (d_ps s) \<and> headersWritten (d_ps (snd r)) = headersWritten (d_ps s)"
    and "headersWritten (d_ps s) \<Longrightarrow> ps_status (d_ps (snd r)) = ps_status (d_ps s) \<and> headersWritten (d_ps (snd r))"
    by blast+
qed

section \<open>What every step of a session keeps, the session keeps\<close>

text \<open>
  The dispatch and recovery loops only ever schedule, rediscover, sleep, resume, stream and count.
  A property of the state that each of these keeps is kept by the whole session.
\<close>

locale session_step =
  fixes e :: world and P :: "dstate \<Rightarrow> bool"
  assumes stream: "P s \<Longrightarrow> P (snd (streamFrom e wk body s))"
    and sched: "P s \<Longrightarrow> P (snd (do_schedule e s))"
    and redisc: "P s \<Longrightarrow> P (do_rediscover e s)"
    and sleep: "P s \<Longrightarrow> P (s\<lparr>d_now := d_now s + second\<rparr>)"
    and resume: "P s \<Longrightarrow> P (snd (withResume body s))"
    and count: "P s \<Longrightarrow> P (metric m s)"
begin

lemma pick_keeps: "P s \<Longrightarrow> P (snd (pick e b r s))"
  using sched by (simp add: pick_def Let_def case_prod_unfold)

lemma wait_keeps_P: "P s \<Longrightarrow> P (snd (waitForRecoveryWorker e b r dl s))"
  by (rule wait_keeps) (auto intro: pick_keeps redisc sleep)

lemma move_keeps:
  "recover_move fuel e dl b r body s = Some (me, r', s') \<Longrightarrow> P s \<Longrightarrow> P s'"
proof (induction fuel arbitrary: r body s)
  case (Suc fuel)
  let ?W = "waitForRecoveryWorker e b r dl s"
  have PW: "P (snd ?W)" using Suc.prems(2) by (rule wait_keeps_P)
  show ?case
  proof (cases "ctx_done e (d_now s) \<or> fst ?W = None")
    case True
    with Suc.prems PW show ?thesis
      by (auto simp: case_prod_unfold Let_def count split: if_splits)
  next
    case False
    then obtain wk where wk: "fst ?W = Some wk" and nd: "\<not> ctx_done e (d_now s)" by auto
    obtain body' s2 where wr: "withResume body (snd ?W) = (body', s2)" by fastforce
    obtain res s3 where sf: "streamFrom e wk body' s2 = (res, s3)" by fastforce
    have "P s3" using stream [OF resume [OF PW, of body], of wk body'] wr sf by simp
    with Suc.prems(1) Suc.IH show ?thesis
      unfolding recover_move_step [OF nd wk wr sf] by (cases res) (auto simp: count)
  qed
qed simp

lemma moves_keep: "recover_moves n fuel e b r body s = Some s' \<Longrightarrow> P s \<Longrightarrow> P s'"
proof (induction n arbitrary: b r body s)
  case (Suc n)
  then show ?case by (auto split: option.splits move_end.splits dest: move_keeps)
qed (auto simp: count)

lemma loop_keeps:
  "dispatch_loop fuel e body order s = Some s' \<Longrightarrow> P s \<Longrightarrow>
   \<exists>t. P t \<and> (s' = t \<or> s' = http_error 503 t)"
proof (induction order arbitrary: s)
  case (Cons wk order)
  obtain res s1 where sf: "streamFrom e wk body s = (res, s1)" by fastforce
  have P1: "P s1" using stream [OF Cons.prems(2), of wk body] sf by simp
  show ?case
  proof (cases res)
    case OutRefused
    then show ?thesis using Cons.prems(1) sf Cons.IH [OF _ count [OF P1]] by simp
  next
    case OutBroken
    then show ?thesis
      using Cons.prems(1) sf moves_keep [OF _ count [OF P1]] by (simp add: recover_def) blast
  qed (use Cons.prems(1) sf count [OF P1] in auto)
qed (use count in auto)

lemma session_keeps:
  assumes "dispatchTask fuel e body s = Some s'" and "P (s\<lparr>d_ps := newPMSStream body, d_hist := []\<rparr>)"
  shows "\<exists>t. P t \<and> (s' = t \<or> s' = http_error 503 t)"
proof -
  obtain order s1 where ds: "do_schedule e (s\<lparr>d_ps := newPMSStream body, d_hist := []\<rparr>) = (order, s1)"
    by fastforce
  have P1: "P s1" using sched [OF assms(2)] ds by simp
  show ?thesis
  proof (cases "order = []")
    case True
    then show ?thesis using assms(1) ds count [OF P1] by (auto simp: dispatchTask_def)
  next
    case False
    then show ?thesis using assms(1) ds loop_keeps [OF _ P1] by (simp add: dispatchTask_def)
  qed
qed

end

section \<open>The pool's invariant\<close>

lemma keeps_id_tickets [simp]:
  "keeps_id dispatchBegin" "keeps_id dispatchEnd"
  "keeps_id (\<lambda>w. (dispatchEnd w)\<lparr>accepted := AList.update k t (accepted w)\<rparr>)"
  "keeps_id (\<lambda>w. w\<lparr>accepted := AList.delete k (accepted w)\<rparr>)"
  by (simp_all add: keeps_id_def dispatchBegin_def dispatchEnd_def)

lemma ticket_steps_ok [inv_intros]:
  "pool_ok (d_pool s) \<Longrightarrow> pool_ok (d_pool (end_pending ptr s))"
  "pool_ok (d_pool s) \<Longrightarrow> pool_ok (d_pool (accept_ticket ptr k s))"
  "pool_ok (d_pool s) \<Longrightarrow> pool_ok (d_pool (end_accepted ptr k s))"
  "pool_ok (d_pool s) \<Longrightarrow> pool_ok (d_pool (mark_down ptr r s))"
  by (simp_all add: end_pending_def accept_ticket_def end_accepted_def mark_down_def on_worker_ok)

lemma ops_ok [inv_intros]: "pool_ok p \<Longrightarrow> pool_ok (fold pool_step ops p)"
  by (rule poolm.fold_good)

lemma stream_body_ok [inv_intros]:
  "pool_ok (d_pool s) \<Longrightarrow> pool_ok (d_pool (snd (stream_body e ptr a st h s)))"
  by (auto simp: stream_body_def Let_def case_prod_unfold intro!: inv_intros split: stream_end.split)

lemma streamFrom_ok [inv_intros]:
  assumes "pool_ok (d_pool s)"
  shows "pool_ok (d_pool (snd (streamFrom e wk body s)))"
proof -
  let ?a = "att e (d_k s)"
  have p: "pool_ok (fold pool_step (a_wait_ops ?a) (on_worker (w_ptr wk) dispatchBegin (d_pool s)))"
    using assms by (auto intro!: inv_intros)
  show ?thesis
    using p by (auto simp: streamFrom_def Let_def case_prod_unfold intro!: inv_intros split: reply.split)
qed

interpretation pool_session: session_step e "\<lambda>s. pool_ok (d_pool s)" for e
proof unfold_locales
  fix s :: dstate and wk body assume "pool_ok (d_pool s)"
  then show "pool_ok (d_pool (snd (streamFrom e wk body s)))" by (rule streamFrom_ok)
qed (auto simp: do_schedule_def do_rediscover_def Let_def case_prod_unfold frames_resume dframe
    intro: inv_intros)

section \<open>The output of a session\<close>

text \<open>\<open>spoken ds out\<close>: \<open>out\<close> is the data of the attempts \<open>ds\<close>, each starting on a line of its own.\<close>

inductive spoken :: "string list \<Rightarrow> string \<Rightarrow> bool" where
  silent: "spoken [] []"
| speak: "spoken ds out \<Longrightarrow> continues_line out d out' \<Longrightarrow> spoken (ds @ [d]) out'"

definition output_ok :: "dstate \<Rightarrow> bool" where
  "output_ok s \<longleftrightarrow> ps_ok (d_ps s)
     \<and> (\<exists>ds. length ds \<le> accepted_count (d_hist s) \<and> spoken ds (ps_out (d_ps s)))
     \<and> (headersWritten (d_ps s) \<longrightarrow> accepted_count (d_hist s) \<noteq> 0)"

lemma output_ok_cong:
  "d_ps s = d_ps t \<Longrightarrow> d_hist s = d_hist t \<Longrightarrow> output_ok s \<longleftrightarrow> output_ok t"
  by (simp add: output_ok_def)

lemma streamFrom_not_reached:
  assumes "fst (streamFrom e wk body s) = OutClientGone" and "a_reply (att e (d_k s)) = NoConn err"
  shows "d_ps (snd (streamFrom e wk body s)) = d_ps s"
  using assms by (auto simp: streamFrom_def Let_def case_prod_unfold dframe)

lemma streamFrom_output_ok:
  assumes "output_ok s"
  shows "output_ok (snd (streamFrom e wk body s))"
proof -
  let ?r = "streamFrom e wk body s"
  have ok: "ps_ok (d_ps s)" using assms by (simp add: output_ok_def)
  obtain ds where ds: "length ds \<le> accepted_count (d_hist s)" "spoken ds (ps_out (d_ps s))"
    using assms by (auto simp: output_ok_def)
  have ac: "accepted_count (d_hist (snd ?r)) =
      accepted_count (d_hist s) + (if fst ?r = OutRefused then 0 else 1)"
    by (simp add: streamFrom_hist accepted_count_snoc)
  note out = streamFrom_out [OF ok, of e wk body]
  show ?thesis
  proof (cases "fst ?r = OutRefused")
    case True
    with out(2,3) ac ds assms show ?thesis by (auto simp: output_ok_def)
  next
    case False
    obtain d where "continues_line (ps_out (d_ps s)) d (ps_out (d_ps (snd ?r)))" using out(1) by blast
    then have "spoken (ds @ [d]) (ps_out (d_ps (snd ?r)))" by (rule spoken.speak [OF ds(2)])
    moreover have "length (ds @ [d]) \<le> accepted_count (d_hist (snd ?r))" using ds(1) ac False by simp
    ultimately show ?thesis
      using out(2) ac False unfolding output_ok_def by (intro conjI exI [of _ "ds @ [d]"]) simp_all
  qed
qed

interpretation out_session: session_step e output_ok for e
proof unfold_locales
  fix s :: dstate and wk body assume "output_ok s"
  then show "output_ok (snd (streamFrom e wk body s))" by (rule streamFrom_output_ok)
qed (auto simp: output_ok_def dframe)

lemma output_ok_start: "output_ok (s\<lparr>d_ps := newPMSStream body, d_hist := []\<rparr>)"
  by (auto simp: output_ok_def newPMSStream_def ps_ok_def intro!: exI [of _ "[]"] spoken.silent)

lemma session_output:
  assumes "dispatchTask fuel e body s = Some s'"
  shows "\<exists>ds. length ds \<le> accepted_count (d_hist s') \<and> spoken ds (ps_out (d_ps s'))"
proof -
  obtain t where t: "output_ok t" "s' = t \<or> s' = http_error 503 t"
    using out_session.session_keeps [OF assms output_ok_start] by blast
  then have "d_hist s' = d_hist t" "ps_out (d_ps s') = ps_out (d_ps t)"
    by (auto simp: http_error_def)
  with t(1) show ?thesis by (simp add: output_ok_def)
qed

section \<open>When nobody accepts\<close>

interpretation hist_session: session_step e "\<lambda>s. prefix h (d_hist s)" for e h
  by unfold_locales (auto simp: dframe streamFrom_hist)

lemma accepted_count_prefix: "prefix h h' \<Longrightarrow> accepted_count h \<le> accepted_count h'"
  by (auto simp: accepted_count_def prefix_def)

lemma loop_accepted:
  assumes "dispatch_loop fuel e body (wk # order) s = Some s'"
    and "fst (streamFrom e wk body s) \<noteq> OutRefused"
  shows "accepted_count (d_hist s') \<noteq> 0"
proof -
  obtain res s1 where sf: "streamFrom e wk body s = (res, s1)" by fastforce
  have "d_hist s1 = d_hist s @ [(w_url wk, tr_args body, res)]"
    using streamFrom_hist [of e wk body s] sf by simp
  then have a: "accepted_count (d_hist s1) \<noteq> 0" using assms(2) sf by (simp add: accepted_count_snoc)
  have "prefix (d_hist s1) (d_hist s')"
  proof (cases "res = OutBroken")
    case True
    then have "recover_moves maxRecoveries fuel e [w_url wk] [] body (metric ''success'' s1) = Some s'"
      using assms(1) sf by (simp add: recover_def)
    from hist_session.moves_keep [OF this, of "d_hist s1"] show ?thesis by (simp add: dframe)
  next
    case False
    then show ?thesis using assms sf by (cases res) (auto simp: dframe)
  qed
  with a show ?thesis using accepted_count_prefix by fastforce
qed

lemma nobody_accepts:
  "dispatch_loop fuel e body order s = Some s' \<Longrightarrow> ps_ok (d_ps s) \<Longrightarrow> \<not> headersWritten (d_ps s) \<Longrightarrow>
   accepted_count (d_hist s') = 0 \<Longrightarrow>
   ps_status (d_ps s') = Some 503 \<and> ps_out (d_ps s') = [] \<and>
   map fst (d_hist s') = map fst (d_hist s) @ map w_url order"
proof (induction order arbitrary: s)
  case Nil
  then show ?case by (auto simp: http_error_def dframe ps_ok_def)
next
  case (Cons wk order)
  let ?r = "streamFrom e wk body s"
  have ref: "fst ?r = OutRefused" using loop_accepted [OF Cons.prems(1)] Cons.prems(4) by blast
  let ?s2 = "metric (if refusedBy503 (d_ps (snd ?r)) then ''fallthrough_503'' else ''fallthrough_unreachable'') (snd ?r)"
  have "dispatch_loop fuel e body order ?s2 = Some s'"
    using Cons.prems(1) ref by (cases ?r) simp
  moreover have "ps_ok (d_ps ?s2)" "\<not> headersWritten (d_ps ?s2)"
    using streamFrom_out [OF Cons.prems(2), of e wk body] ref Cons.prems(3) by (simp_all add: dframe)
  ultimately show ?case
    using Cons.IH [of ?s2] Cons.prems(4) by (simp add: dframe streamFrom_hist)
qed

section \<open>In-flight accounting of one attempt\<close>

definition in_flight_sig :: "pool \<Rightarrow> (string \<times> int \<times> (nat \<times> gotime) list) list" where
  "in_flight_sig p = map (\<lambda>(url, w). (url, pending w, accepted w)) (workers p)"

definition fresh_ticket :: "nat \<Rightarrow> pool \<Rightarrow> bool" where
  "fresh_ticket k p \<longleftrightarrow> (\<forall>(url, w)\<in>set (workers p). k \<notin> fst ` set (accepted w))"

lemma on_worker_twice:
  "(\<And>w. w_ptr (f w) = w_ptr w) \<Longrightarrow> on_worker ptr g (on_worker ptr f p) = on_worker ptr (g \<circ> f) p"
  by (simp add: on_worker_def case_prod_unfold comp_def cong: if_cong)

lemma in_flight_on_worker:
  assumes "\<And>url w. (url, w) \<in> set (workers p) \<Longrightarrow> pending (f w) = pending w \<and> accepted (f w) = accepted w"
  shows "in_flight_sig (on_worker ptr f p) = in_flight_sig p"
  using assms by (auto simp: in_flight_sig_def on_worker_def)

lemma refused_balance:
  "in_flight_sig (on_worker ptr dispatchEnd (on_worker ptr (markDown r t) (on_worker ptr dispatchBegin p)))
     = in_flight_sig p"
  "in_flight_sig (on_worker ptr dispatchEnd (on_worker ptr dispatchBegin p)) = in_flight_sig p"
  by (simp_all add: on_worker_twice dispatchBegin_def dispatchEnd_def markDown_def in_flight_on_worker)

lemma accepted_balance:
  assumes "fresh_ticket k p" and "\<And>w. pending (g w) = pending w \<and> accepted (g w) = accepted w \<and> w_ptr (g w) = w_ptr w"
  shows "in_flight_sig
      (on_worker ptr (\<lambda>w. w\<lparr>accepted := AList.delete k (accepted w)\<rparr>)
        (on_worker ptr g
          (on_worker ptr (\<lambda>w. (dispatchEnd w)\<lparr>accepted := AList.update k t (accepted w)\<rparr>)
            (on_worker ptr dispatchBegin p)))) = in_flight_sig p"
proof -
  have "AList.delete k (AList.update k t (accepted w)) = accepted w" if "(url, w) \<in> set (workers p)" for url w
    using assms(1) that by (auto simp: fresh_ticket_def delete_update_same image_iff intro!: delete_id)
  then show ?thesis
    using assms(2)
    by (simp add: on_worker_twice dispatchBegin_def dispatchEnd_def in_flight_on_worker)
qed

lemma stream_body_pool:
  "a_ops a = [] \<Longrightarrow> \<exists>g. (\<forall>w. pending (g w) = pending w \<and> accepted (g w) = accepted w \<and> w_ptr (g w) = w_ptr w)
     \<and> d_pool (snd (stream_body e ptr a st h s)) = on_worker ptr g (d_pool s)"
proof -
  assume q: "a_ops a = []"
  have id: "on_worker ptr id p = p" for p 
    by (simp add: on_worker_def case_prod_unfold id_def cong: if_cong)
  have "d_pool (snd (stream_body e ptr a st h s)) = d_pool s \<or>
      (\<exists>r t. d_pool (snd (stream_body e ptr a st h s)) = on_worker ptr (markDown r t) (d_pool s))"
    using q by (auto simp: stream_body_def Let_def case_prod_unfold mark_down_def split: stream_end.split)
  then show ?thesis
  proof
    assume "d_pool (snd (stream_body e ptr a st h s)) = d_pool s"
    then show ?thesis by (intro exI [of _ id]) (simp add: id)
  next
    assume "\<exists>r t. d_pool (snd (stream_body e ptr a st h s)) = on_worker ptr (markDown r t) (d_pool s)"
    then obtain r t where "d_pool (snd (stream_body e ptr a st h s)) = on_worker ptr (markDown r t) (d_pool s)"
      by blast
    then show ?thesis by (intro exI [of _ "markDown r t"]) (simp add: markDown_def)
  qed
qed

lemma streamFrom_balance:
  assumes "a_wait_ops (att e (d_k s)) = []" and "a_ops (att e (d_k s)) = []"
    and "fresh_ticket (d_k s) (d_pool s)"
  shows "in_flight_sig (d_pool (snd (streamFrom e wk body s))) = in_flight_sig (d_pool s)"
proof (cases "a_reply (att e (d_k s))")
  case (Reply st h)
  let ?a = "att e (d_k s)" and ?k = "d_k s" and ?ptr = "w_ptr wk"
  let ?s1 = "s\<lparr>d_k := Suc ?k, d_now := d_now s + int (a_dur ?a), d_pool := on_worker ?ptr dispatchBegin (d_pool s)\<rparr>"
  show ?thesis
  proof (cases "st = 503")
    case True
    then show ?thesis
      using Reply assms(1) by (simp add: streamFrom_def Let_def end_pending_def refused_balance)
  next
    case False
    let ?s2 = "accept_ticket ?ptr ?k ?s1"
    let ?s3 = "?s2\<lparr>d_trk := tracker_set (ps_session (d_ps ?s2)) (w_url wk) (d_trk ?s2)\<rparr>"
    obtain g where g: "\<And>w. pending (g w) = pending w \<and> accepted (g w) = accepted w \<and> w_ptr (g w) = w_ptr w"
      "d_pool (snd (stream_body e ?ptr ?a st h ?s3)) = on_worker ?ptr g (d_pool ?s3)"
      using stream_body_pool [OF assms(2), of e ?ptr st h ?s3] by blast
    have "d_pool (snd (streamFrom e wk body s)) =
        on_worker ?ptr (\<lambda>w. w\<lparr>accepted := AList.delete ?k (accepted w)\<rparr>)
          (d_pool (snd (stream_body e ?ptr ?a st h ?s3)))"
      using Reply False assms(1)
      by (simp add: streamFrom_def Let_def case_prod_unfold end_accepted_def)
    also have "\<dots> = on_worker ?ptr (\<lambda>w. w\<lparr>accepted := AList.delete ?k (accepted w)\<rparr>) (on_worker ?ptr g
          (on_worker ?ptr (\<lambda>w. (dispatchEnd w)\<lparr>accepted := AList.update ?k (d_now ?s1) (accepted w)\<rparr>)
            (on_worker ?ptr dispatchBegin (d_pool s))))"
      unfolding g(2) by (simp add: accept_ticket_def)
    finally show ?thesis using accepted_balance [OF assms(3) g(1)] by simp
  qed
qed (use assms(1) in \<open>simp_all add: streamFrom_def Let_def end_pending_def mark_down_def refused_balance\<close>)

section \<open>A session that is moved a second time\<close>

lemma resume_hit:
  assumes "fst (cp_get now (plexSessionFromArgs args) c) = Some h" and "0 < lastSeq h"
    and "\<bar>initialSeekFromArgs args - originalSeek h\<bar> \<le> resume_tolerance"
  shows "resumeIfApplicable now args c =
    ((injectResumeFlags args (originalSeek h + of_int (lastSeq h) * segmentTime h) (lastSeq h + 1), True), c)"
  using assms cp_get_again [OF assms(1)]
  by (cases "cp_get now (plexSessionFromArgs args) c") (simp add: resumeIfApplicable_def floatEq_iff)

lemma resume_miss:
  assumes "fst (cp_get now (plexSessionFromArgs args) c) = Some h" and "0 < lastSeq h"
    and "resume_tolerance < \<bar>initialSeekFromArgs args - originalSeek h\<bar>"
  shows "resumeIfApplicable now args c = ((args, False), cp_drop (plexSessionFromArgs args) c)"
  using assms cp_get_again [OF assms(1)]
  by (cases "cp_get now (plexSessionFromArgs args) c") (simp add: resumeIfApplicable_def floatEq_iff)

text \<open>The cached hint keeps the seek of the original request (the poller reads \<open>ps.args\<close>), while the
  body carries the resumed one; once the session is far enough on, the second lookup takes the
  resumed body for a user's re-seek.\<close>

lemma second_resume_is_lost:
  assumes "resume_wf args" and "keyed_after_input args" and "0 \<le> x"
    and "fst (cp_get now (plexSessionFromArgs args) c) = Some h" and "0 < lastSeq h"
    and "resume_tolerance < \<bar>round_to 3 x - originalSeek h\<bar>"
  shows "resumeIfApplicable now (injectResumeFlags args x n) c =
    ((injectResumeFlags args x n, False), cp_drop (plexSessionFromArgs args) c)"
proof -
  have k: "plexSessionFromArgs (injectResumeFlags args x n) = plexSessionFromArgs args"
    by (rule plexSession_inject [OF assms(1-3)])
  show ?thesis
    using resume_miss [of now "injectResumeFlags args x n" c h] assms k
    by (simp add: initialSeek_inject)
qed

text \<open>A request that \<open>handleTask\<close> has resumed is polled with its resumed seek, but the worker reports
  the number of the segment in the whole session.\<close>

lemma polled_resume:
  fixes m :: int
  assumes "resume_wf args" and "keyed_after_input args" and "0 \<le> x" and "plexSessionFromArgs args \<noteq> []"
    and "0 < q" and "now' - now \<le> cp_ttl c"
  defines "args' \<equiv> injectResumeFlags args x m"
  shows "fst (resumeIfApplicable now' args' (pollCheckpoint args' now (Some q) c)) =
    (injectResumeFlags args' (round_to 3 x + of_int q * segmentTimeFromArgs args') (q + 1), True)"
proof -
  let ?h = "\<lparr>originalSeek = round_to 3 x, segmentTime = segmentTimeFromArgs args', lastSeq = q, updatedAt = now\<rparr>"
  have k: "plexSessionFromArgs args' = plexSessionFromArgs args"
    unfolding args'_def by (rule plexSession_inject [OF assms(1-3)])
  have s: "initialSeekFromArgs args' = round_to 3 x"
    unfolding args'_def by (rule initialSeek_inject [OF assms(1,3)])
  have p: "pollCheckpoint args' now (Some q) c = cp_put (plexSessionFromArgs args) ?h c"
    using assms(4) by (simp add: pollCheckpoint_def k s)
  have "fst (cp_get now' (plexSessionFromArgs args') (cp_put (plexSessionFromArgs args) ?h c)) = Some ?h"
    unfolding k using assms(4,6) by (intro cp_get_put) simp_all
  from resume_hit [OF this] assms(5) show ?thesis by (simp add: p s resume_tolerance_def)
qed

end
