(* ===== verification/OrchTermination.thy ===== *)
theory OrchTermination
  imports OrchRecovery
begin

text \<open>
  The loops of \<open>recover\<close> (\<open>src/orchestrator/failover.go\<close>) end. The inner loop has no counter: a
  refused worker is tried again once a newer probe shows it healthy, and \<open>waitForRecoveryWorker\<close>
  looks at the pool before it looks at the deadline. Every refusal takes time, so the deadline
  passes; from then on nothing is probed, and each refusal rules one more URL out.
\<close>

section \<open>What a refusal leaves unchanged\<close>

definition pool_sig :: "pool \<Rightarrow> (string \<times> gotime) list" where
  "pool_sig p = map (\<lambda>(url, w). (w_url w, lastProbeStart w)) (workers p)"

definition sig_neutral :: "(worker \<Rightarrow> worker) \<Rightarrow> bool" where
  "sig_neutral f \<longleftrightarrow> (\<forall>w. w_url (f w) = w_url w \<and> lastProbeStart (f w) = lastProbeStart w)"

lemma sig_neutralI [simp]:
  "sig_neutral dispatchBegin" "sig_neutral dispatchEnd" "sig_neutral (markDown r t)"
  by (simp_all add: sig_neutral_def dispatchBegin_def dispatchEnd_def markDown_def)

lemma sig_on_worker [simp]: "sig_neutral f \<Longrightarrow> pool_sig (on_worker ptr f p) = pool_sig p"
  by (auto simp: pool_sig_def on_worker_def sig_neutral_def)

lemma sig_schedule [simp]: "pool_sig (d_pool (snd (do_schedule e s))) = pool_sig (d_pool s)"
  unfolding do_schedule_def Let_def case_prod_unfold
  by (auto simp: pool_sig_def schedule_def Let_def)

lemma sig_pick [simp]: "pool_sig (d_pool (snd (pick e b r s))) = pool_sig (d_pool s)"
  by (simp add: pick_def Let_def case_prod_unfold)

definition no_wait_ops :: "world \<Rightarrow> bool" where
  "no_wait_ops e \<longleftrightarrow> (\<forall>k. a_wait_ops (att e k) = [])"

definition takes_time :: "world \<Rightarrow> bool" where
  "takes_time e \<longleftrightarrow> (\<forall>k. 0 < a_dur (att e k))"

lemma streamFrom_refused:
  assumes "no_wait_ops e" and "takes_time e" and "fst (streamFrom e wk body s) = OutRefused"
  shows "pool_sig (d_pool (snd (streamFrom e wk body s))) = pool_sig (d_pool s)"
    and "d_now s < d_now (snd (streamFrom e wk body s))"
proof -
  let ?a = "att e (d_k s)"
  have pos: "0 < a_dur ?a" and quiet: "a_wait_ops ?a = []"
    using assms(1,2) by (auto simp: takes_time_def no_wait_ops_def)
  have "pool_sig (d_pool (snd (streamFrom e wk body s))) = pool_sig (d_pool s) \<and>
    d_now s < d_now (snd (streamFrom e wk body s))"
  proof (cases "a_reply ?a")
    case (Reply st h)
    have "st = 503"
      using assms(3) Reply
      by (auto simp: streamFrom_def Let_def case_prod_unfold dframe split: if_splits)
    then show ?thesis
      using Reply pos quiet by (simp add: streamFrom_def Let_def end_pending_def)
  qed (use pos quiet assms(3) in
      \<open>auto simp: streamFrom_def Let_def end_pending_def mark_down_def case_prod_unfold\<close>)
  then show "pool_sig (d_pool (snd (streamFrom e wk body s))) = pool_sig (d_pool s)"
    and "d_now s < d_now (snd (streamFrom e wk body s))" by auto
qed

section \<open>Probe times stay below a bound\<close>

definition probed_by :: "gotime \<Rightarrow> pool \<Rightarrow> bool" where
  "probed_by b p \<longleftrightarrow> (\<forall>(url, w)\<in>set (workers p). lastProbeStart w \<le> b)"

lemma probed_by_sig: "probed_by b p \<longleftrightarrow> (\<forall>(u, t)\<in>set (pool_sig p). t \<le> b)"
  by (auto simp: probed_by_def pool_sig_def)

lemma probed_by_cong: "pool_sig p = pool_sig q \<Longrightarrow> probed_by b p \<longleftrightarrow> probed_by b q"
  by (simp add: probed_by_sig)

lemma set_update_sub: "set (AList.update k v m) \<subseteq> insert (k, v) (set m)"
  by (induction m) auto

lemma probed_by_vouch:
  assumes "probed_by b p" and "0 \<le> b"
  shows "probed_by b (vouch src id hb host url p)"
proof (cases "map_of (workers p) url")
  case None
  then show ?thesis
    using assms set_update_sub [of url "new_worker (next_ptr p) host url src hb" "workers p"]
    by (fastforce simp: probed_by_def vouch_def new_worker_def)
next
  case (Some w)
  then have "lastProbeStart w \<le> b" using assms(1) by (auto simp: probed_by_def dest: map_of_SomeD)
  with Some show ?thesis
    using assms set_update_sub [of url "w\<lparr>sources := sources w OR src\<rparr>" "workers p"]
    by (fastforce simp: probed_by_def vouch_def)
qed

lemma probed_by_fold_vouch:
  "probed_by b p \<Longrightarrow> 0 \<le> b \<Longrightarrow> probed_by b (fold (\<lambda>(url, ip). vouch src id hb ip url) xs p)"
  by (induction xs arbitrary: p) (auto intro: probed_by_vouch)

lemma sweep_probed:
  "\<forall>(url, w)\<in>set ws. lastProbeStart w \<le> b \<Longrightarrow>
   \<forall>(url, w)\<in>set (sweep src keep ws). lastProbeStart w \<le> b"
  by (induction src keep ws rule: sweep.induct) (auto simp: Let_def)

lemma probed_by_refresh: "probed_by b p \<Longrightarrow> 0 \<le> b \<Longrightarrow> probed_by b (refresh l port p)"
proof (cases l)
  case (Some ips)
  assume "probed_by b p" "0 \<le> b"
  then have "probed_by b (fold (\<lambda>(url, ip). vouch srcDNS id 0 ip url) (hostOf ips port) p)"
    by (rule probed_by_fold_vouch)
  then show ?thesis
    unfolding Some refresh_def Let_def probed_by_def option.case by (simp add: sweep_probed)
qed (simp add: refresh_def)

lemma probed_by_rediscover:
  assumes "probed_by b p" and "0 \<le> b" and "start \<le> b"
  shows "probed_by b (rediscover start now l net p)"
proof -
  let ?q = "if pool_dns p \<noteq> [] then refresh l (pool_port p) p else p"
  have "probed_by b ?q" using assms by (simp add: probed_by_refresh)
  with assms(3) show ?thesis
    unfolding rediscover_def
    by (auto simp: probed_by_def probeAllSync_def probeWorker_def split: probe_result.split)
qed

lemma wait_probed:
  assumes "probed_by b (d_pool s)" and "0 \<le> b" and "dl \<le> b"
  shows "probed_by b (d_pool (snd (waitForRecoveryWorker e br rf dl s))) \<and>
    d_now s \<le> d_now (snd (waitForRecoveryWorker e br rf dl s))"
  using assms(1)
proof (induction "nat (dl - d_now s)" arbitrary: s rule: less_induct)
  case less
  define s1 where "s1 = snd (pick e br rf s)"
  define t where "t = do_rediscover e s1"
  define s2 where "s2 = snd (pick e br rf t)"
  let ?later = "s2\<lparr>d_now := d_now s2 + second\<rparr>"
  have now: "d_now s1 = d_now s" "d_now s2 = d_now t" "d_now s1 \<le> d_now t"
    using rediscover_now [of s1 e] by (simp_all add: s1_def s2_def t_def)
  have p1: "probed_by b (d_pool s1)"
    using less.prems probed_by_cong [OF sig_pick [of e br rf s]] by (simp add: s1_def)
  have p2: "probed_by b (d_pool s2)" if "d_now s < dl"
  proof -
    have "probed_by b (d_pool t)"
      using p1 now that assms(2,3)
      by (auto simp: t_def do_rediscover_def Let_def intro!: probed_by_rediscover)
    then show ?thesis using probed_by_cong [OF sig_pick [of e br rf t]] by (simp add: s2_def)
  qed
  have rec: "probed_by b (d_pool (snd (waitForRecoveryWorker e br rf dl ?later))) \<and>
    d_now ?later \<le> d_now (snd (waitForRecoveryWorker e br rf dl ?later))" if "d_now s < dl"
    using less.hyps [of ?later] p2 [OF that] later_less [OF that, of e br rf]
    by (simp add: s1_def s2_def t_def)
  show ?case
    unfolding wait_unfold [of e br rf dl s] Let_def s1_def [symmetric] t_def [symmetric] s2_def [symmetric]
    using p1 p2 rec now by (auto simp: second_def)
qed

lemma wait_late:
  assumes "dl \<le> d_now s"
  shows "waitForRecoveryWorker e br rf dl s = pick e br rf s"
  using assms unfolding wait_unfold [of e br rf dl s] Let_def
  by (cases "fst (pick e br rf s)") (auto simp: prod_eq_iff)

lemma pick_mem:
  assumes "fst (pick e br rf s) = Some w"
  shows "eligible br rf w" and "\<exists>url. (url, w) \<in> set (workers (d_pool s))"
proof -
  have m: "eligible br rf w \<and> w \<in> set (fst (do_schedule e s))"
    using assms by (auto simp: pick_def Let_def case_prod_unfold find_Some_iff)
  have "mset (fst (do_schedule e s)) = mset (filter healthy (rand_shuffle (map_order e (d_r s)) (map snd (workers (d_pool s)))))"
    by (simp add: do_schedule_def Let_def case_prod_unfold schedule_mset)
  then have "set (fst (do_schedule e s)) = set (filter healthy (rand_shuffle (map_order e (d_r s)) (map snd (workers (d_pool s)))))"
    by (metis set_mset_mset)
  moreover have "set (rand_shuffle f (map snd ws)) = snd ` set ws" for f and ws :: "(string \<times> worker) list"
    by (metis mset_rand_shuffle set_mset_mset set_map)
  ultimately show "eligible br rf w" "\<exists>url. (url, w) \<in> set (workers (d_pool s))"
    using m by auto
qed

section \<open>One move of the recovery ends\<close>

definition unblocked :: "gotime \<Rightarrow> (string \<times> gotime) list \<Rightarrow> pool \<Rightarrow> string set" where
  "unblocked b refused p = {u \<in> fst ` set (pool_sig p). case map_of refused u of None \<Rightarrow> True | Some t \<Rightarrow> t < b}"

lemma finite_unblocked: "finite (unblocked b refused p)"
  by (simp add: unblocked_def)

lemma unblocked_shrinks:
  assumes "probed_by b p" and "(url, w) \<in> set (workers p)" and "eligible broken refused w" and "b \<le> now"
    and "pool_sig q = pool_sig p"
  shows "card (unblocked b (AList.update (w_url w) now refused) q) < card (unblocked b refused p)"
proof (rule psubset_card_mono [OF finite_unblocked])
  have "lastProbeStart w \<le> b" using assms(1,2) by (auto simp: probed_by_def)
  then have "w_url w \<in> unblocked b refused p"
    using assms(2,3)
    by (force simp: unblocked_def eligible_def healthySince_def pool_sig_def split: option.splits)
  moreover have "w_url w \<notin> unblocked b (AList.update (w_url w) now refused) q"
    using assms(4) by (simp add: unblocked_def update_conv)
  moreover have "unblocked b (AList.update (w_url w) now refused) q \<subseteq> unblocked b refused p"
    using assms(5) \<open>w_url w \<in> unblocked b refused p\<close>
    by (auto simp: unblocked_def update_conv split: if_splits)
  ultimately show "unblocked b (AList.update (w_url w) now refused) q \<subset> unblocked b refused p"
    by blast
qed

lemma recover_move_ends_below:
  assumes "no_wait_ops e" and "takes_time e" and "0 \<le> b" and "dl \<le> b"
  shows "probed_by b (d_pool s) \<Longrightarrow> \<exists>fuel. recover_move fuel e dl broken refused body s \<noteq> None"
proof (induction "(nat (b - d_now s), card (unblocked b refused (d_pool s)))"
    arbitrary: refused body s rule: wf_induct_rule [OF wf_lex_prod [OF wf_less_than wf_less_than]])
  case (1 refused s body)
  let ?W = "waitForRecoveryWorker e broken refused dl s"
  note w = wait_probed [OF 1(2) assms(3,4), of e broken refused]
  show ?case
  proof (cases "ctx_done e (d_now s) \<or> fst ?W = None")
    case True
    then show ?thesis by (intro exI [of _ "Suc 0"]) (auto simp: case_prod_unfold Let_def)
  next
    case False
    then obtain wk where wk: "fst ?W = Some wk" and nd: "\<not> ctx_done e (d_now s)" by auto
    obtain body' s2 where wr: "withResume body (snd ?W) = (body', s2)" by fastforce
    obtain res s3 where sf: "streamFrom e wk body' s2 = (res, s3)" by fastforce
    note step = recover_move_step [OF nd wk wr sf]
    have s2: "d_now s2 = d_now (snd ?W)" "d_pool s2 = d_pool (snd ?W)"
      using frames_resume(3,4) [of body "snd ?W"] wr by simp_all
    show ?thesis
    proof (cases "res = OutRefused")
      case False
      with step [of 0] have "recover_move (Suc 0) e dl broken refused body s \<noteq> None"
        by (cases res) auto
      then show ?thesis by blast
    next
      case True
      let ?rf = "AList.update (w_url wk) (d_now s3) refused"
      have r: "pool_sig (d_pool s3) = pool_sig (d_pool s2)" "d_now s2 < d_now s3"
        using streamFrom_refused [OF assms(1,2), of wk body' s2] sf True by auto
      have p3: "probed_by b (d_pool s3)" using w s2 probed_by_cong [OF r(1)] by simp
      have "((nat (b - d_now s3), card (unblocked b ?rf (d_pool s3))),
          (nat (b - d_now s), card (unblocked b refused (d_pool s)))) \<in> less_than <*lex*> less_than"
      proof (cases "d_now s < b")
        case True
        then show ?thesis using r(2) s2(1) w by auto
      next
        case late: False
        then have W: "?W = pick e broken refused s" using assms(4) by (intro wait_late) simp
        obtain url where el: "eligible broken refused wk" and m: "(url, wk) \<in> set (workers (d_pool s))"
          using pick_mem [of e broken refused s wk] wk W by auto
        have "pool_sig (d_pool s3) = pool_sig (d_pool s)" using r(1) s2(2) W by simp
        then have "card (unblocked b ?rf (d_pool s3)) < card (unblocked b refused (d_pool s))"
          using unblocked_shrinks [OF 1(2) m el] late r(2) s2(1) w by simp
        then show ?thesis using late r(2) s2(1) w by auto
      qed
      from 1(1) [OF this p3] obtain fuel where "recover_move fuel e dl broken ?rf body' s3 \<noteq> None" by blast
      with step [of fuel] True show ?thesis by (intro exI [of _ "Suc fuel"]) simp
    qed
  qed
qed

lemma recover_move_ends:
  assumes "no_wait_ops e" and "takes_time e"
  shows "\<exists>fuel. recover_move fuel e dl broken refused body s \<noteq> None"
proof -
  define b where "b = Max (insert 0 (insert dl (snd ` set (pool_sig (d_pool s)))))"
  have m: "x \<le> b" if "x \<in> insert 0 (insert dl (snd ` set (pool_sig (d_pool s))))" for x
    unfolding b_def by (rule Max_ge) (use that in simp_all)
  have "t \<le> b" if "(u, t) \<in> set (pool_sig (d_pool s))" for u t
    using m [of t] that by (simp add: rev_image_eqI)
  then have "probed_by b (d_pool s)" by (auto simp: probed_by_sig)
  moreover have "0 \<le> b" "dl \<le> b" using m [of 0] m [of dl] by simp_all
  ultimately show ?thesis by (intro recover_move_ends_below [OF assms])
qed

section \<open>More fuel changes nothing, and some fuel is enough\<close>

lemma recover_move_more:
  "recover_move fuel e dl broken refused body s = Some r \<Longrightarrow> fuel \<le> fuel' \<Longrightarrow>
   recover_move fuel' e dl broken refused body s = Some r"
proof (induction fuel arbitrary: fuel' refused body s)
  case (Suc fuel)
  then obtain f where f: "fuel' = Suc f" "fuel \<le> f" by (cases fuel') auto
  let ?W = "waitForRecoveryWorker e broken refused dl s"
  show ?case
  proof (cases "ctx_done e (d_now s) \<or> fst ?W = None")
    case True
    with Suc.prems show ?thesis unfolding f(1) by (auto simp: case_prod_unfold Let_def)
  next
    case False
    then obtain wk where wk: "fst ?W = Some wk" and nd: "\<not> ctx_done e (d_now s)" by auto
    obtain body' s2 where wr: "withResume body (snd ?W) = (body', s2)" by fastforce
    obtain res s3 where sf: "streamFrom e wk body' s2 = (res, s3)" by fastforce
    show ?thesis
      using Suc.prems(1) Suc.IH [OF _ f(2)] unfolding f(1) recover_move_step [OF nd wk wr sf]
      by (cases res) simp_all
  qed
qed simp

lemma recover_moves_more:
  "recover_moves n fuel e broken refused body s = Some r \<Longrightarrow> fuel \<le> fuel' \<Longrightarrow>
   recover_moves n fuel' e broken refused body s = Some r"
proof (induction n arbitrary: broken refused body s)
  case (Suc n)
  then show ?case
    by (auto dest!: recover_move_more [OF _ Suc.prems(2)] split: option.splits move_end.splits)
qed simp

lemma recover_moves_ends:
  assumes "no_wait_ops e" and "takes_time e"
  shows "\<exists>fuel. recover_moves n fuel e broken refused body s \<noteq> None"
proof (induction n arbitrary: broken refused body s)
  case (Suc n)
  obtain f1 me rf s1 where m:
    "recover_move f1 e (d_now s + recovery_wait e) broken refused body s = Some (me, rf, s1)"
    using recover_move_ends [OF assms, of "d_now s + recovery_wait e" broken refused body s] by force
  show ?case
  proof (cases me)
    case MoveOver
    with m show ?thesis by (intro exI [of _ f1]) simp
  next
    case (MoveBroken url body')
    obtain f2 where f2: "recover_moves n f2 e (url # broken) rf body' s1 \<noteq> None"
      using Suc.IH by blast
    have "recover_moves n (max f1 f2) e (url # broken) rf body' s1 \<noteq> None"
      using f2 recover_moves_more [of n f2] by (metis max.cobounded2 not_None_eq)
    moreover have "recover_move (max f1 f2) e (d_now s + recovery_wait e) broken refused body s
        = Some (me, rf, s1)" using recover_move_more [OF m] by simp
    ultimately show ?thesis using MoveBroken by (intro exI [of _ "max f1 f2"]) simp
  qed
qed simp

lemma dispatch_loop_ends:
  assumes "no_wait_ops e" and "takes_time e"
  shows "\<exists>fuel. dispatch_loop fuel e body order s \<noteq> None"
proof (induction order arbitrary: s)
  case (Cons wk order)
  obtain res s1 where sf: "streamFrom e wk body s = (res, s1)" by fastforce
  let ?s2 = "metric (if refusedBy503 (d_ps s1) then ''fallthrough_503'' else ''fallthrough_unreachable'') s1"
  obtain f1 where "dispatch_loop f1 e body order ?s2 \<noteq> None" using Cons.IH by blast
  moreover obtain f2 where "recover f2 e wk body (metric ''success'' s1) \<noteq> None"
    unfolding recover_def using recover_moves_ends [OF assms] by blast
  ultimately have "dispatch_loop f1 e body (wk # order) s \<noteq> None \<or> dispatch_loop f2 e body (wk # order) s \<noteq> None"
    using sf by (cases res) simp_all
  then show ?case by blast
qed simp

lemma dispatch_loop_more:
  "dispatch_loop fuel e body order s = Some r \<Longrightarrow> fuel \<le> fuel' \<Longrightarrow>
   dispatch_loop fuel' e body order s = Some r"
proof (induction order arbitrary: s)
  case (Cons wk order)
  obtain res s1 where sf: "streamFrom e wk body s = (res, s1)" by fastforce
  note more = Cons.IH [OF _ Cons.prems(2)] recover_moves_more [OF _ Cons.prems(2)]
  from Cons.prems(1) sf show ?case
    by (cases res) (auto simp: recover_def dest: more)
qed simp

lemma dispatchTask_ends:
  assumes "no_wait_ops e" and "takes_time e"
  shows "\<exists>fuel s'. \<forall>fuel'\<ge>fuel. dispatchTask fuel' e body s = Some s'"
proof -
  obtain order s1 where ds: "do_schedule e (s\<lparr>d_ps := newPMSStream body, d_hist := []\<rparr>) = (order, s1)"
    by fastforce
  obtain fuel r where "dispatch_loop fuel e body order s1 = Some r"
    using dispatch_loop_ends [OF assms] by blast
  then have "dispatch_loop fuel' e body order s1 = Some r" if "fuel \<le> fuel'" for fuel'
    using that by (rule dispatch_loop_more)
  then have "\<forall>fuel'\<ge>fuel. dispatchTask fuel' e body s =
      Some (if order = [] then http_error 503 (metric ''no_workers'' s1) else r)"
    unfolding dispatchTask_def ds by simp
  then show ?thesis by blast
qed

end
