(* ===== verification/OrchHttp.thy ===== *)
theory OrchHttp
  imports OrchTermination
begin

text \<open>
  The HTTP surface and the background loops of the orchestrator (\<open>src/orchestrator/main.go\<close>,
  \<open>metrics.go\<close>). The JSON decoder is an argument of the handlers that call it: it gives the
  decoded record or \<open>None\<close>. A response is its status; the state is the one of a dispatch.
\<close>

section \<open>Configuration\<close>

definition envOr :: "env \<Rightarrow> string \<Rightarrow> string \<Rightarrow> string" where
  "envOr en k dflt = (case map_of en k of Some v \<Rightarrow> if v \<noteq> [] then v else dflt | None \<Rightarrow> dflt)"

definition envSecondsOr :: "env \<Rightarrow> string \<Rightarrow> int \<Rightarrow> int" where
  "envSecondsOr en k dflt =
     (let v = (case map_of en k of Some v \<Rightarrow> v | None \<Rightarrow> '''')
      in if v = [] then dflt
         else case atoi v of None \<Rightarrow> dflt | Some n \<Rightarrow> if n < 1 then dflt else n)"

record config =
  cf_listen :: string
  cf_dns :: string
  cf_port :: int
  cf_refresh :: int
  cf_probe :: int
  cf_pushReap :: int
  cf_pushTimeout :: int
  cf_recovery :: int

text \<open>The part of \<open>main\<close> before the server starts: \<open>Atoi\<close>'s error is dropped, so a bad port is 0.\<close>

definition main_config :: "env \<Rightarrow> config" where
  "main_config en =
     \<lparr>cf_listen = envOr en ''LISTEN_ADDR'' '':3500'',
      cf_dns = envOr en ''WORKERS_DNS'' ''scaleplex-worker.scaleplex.svc.cluster.local'',
      cf_port = (case atoi (envOr en ''WORKER_PORT'' (itoa 3501)) of Some n \<Rightarrow> n | None \<Rightarrow> 0),
      cf_refresh = envSecondsOr en ''WORKERS_REFRESH_SECONDS'' 5,
      cf_probe = envSecondsOr en ''WORKERS_PROBE_SECONDS'' 5,
      cf_pushReap = envSecondsOr en ''WORKERS_PUSH_REAP_SECONDS'' 5,
      cf_pushTimeout = envSecondsOr en ''WORKERS_PUSH_TIMEOUT_SECONDS'' 15,
      cf_recovery = envSecondsOr en ''SCALEPLEX_RECOVERY_WAIT_SECONDS'' 30\<rparr>"

definition getenv :: "env \<Rightarrow> string \<Rightarrow> string" where
  "getenv en k = (case map_of en k of Some v \<Rightarrow> v | None \<Rightarrow> '''')"

definition main_pool :: "env \<Rightarrow> pool" where
  "main_pool en =
     (let cf = main_config en;
          entries = parseWorkerList (getenv en ''WORKERS_LIST'') (cf_port cf);
          p = empty_pool (parseLBStrategy (getenv en ''SCALEPLEX_LB_STRATEGY''))
                (getenv en ''SCALEPLEX_PREFER_HW'' = ''0'') (cf_dns cf) (cf_port cf)
      in if entries \<noteq> [] then loadList entries p else p)"

section \<open>Background loops and metrics\<close>

record gauges =
  g_healthy :: nat
  g_unhealthy :: nat
  g_active :: int

fun worker_metrics :: "worker list \<Rightarrow> gauges \<Rightarrow> gauges" where
  "worker_metrics [] g = g"
| "worker_metrics (w # ws) g =
     worker_metrics ws
       (if healthy w then g\<lparr>g_healthy := g_healthy g + 1, g_active := g_active g + activeSessions w\<rparr>
        else g\<lparr>g_unhealthy := g_unhealthy g + 1\<rparr>)"

definition updateWorkerMetrics :: "pool \<Rightarrow> gauges" where
  "updateWorkerMetrics p =
     worker_metrics (map snd (workers p)) \<lparr>g_healthy = 0, g_unhealthy = 0, g_active = 0\<rparr>"

text \<open>What one tick of \<open>discoveryLoop\<close> and of \<open>pushReaperLoop\<close> does to the pool. A probe tick starts
  one goroutine per worker; their updates are single \<open>OpProbe\<close> steps of \<open>OrchSched\<close>, and \<open>OpProbeAll\<close>
  is the case that they all finish before anything else happens.\<close>

datatype tick = RefreshTick "string list option" | ProbeTick gotime gotime "string \<Rightarrow> probe_result" | ReapTick gotime

definition tick_op :: "config \<Rightarrow> tick \<Rightarrow> pool_op" where
  "tick_op cf t = (case t of
      RefreshTick l \<Rightarrow> OpRefresh l (cf_port cf)
    | ProbeTick start now net \<Rightarrow> OpProbeAll start now net
    | ReapTick now \<Rightarrow> OpReap now (cf_pushTimeout cf * second))"

definition discoveryLoop :: "config \<Rightarrow> tick list \<Rightarrow> pool \<Rightarrow> pool" where
  "discoveryLoop cf ticks p = fold (\<lambda>t. pool_step (tick_op cf t)) ticks p"

section \<open>Handlers\<close>

datatype http_method = GET | POST | OtherMethod

definition handleHealth :: "int \<times> string" where
  "handleHealth = (200, ''ok\<newline>'')"

definition handleReady :: "pool \<Rightarrow> int \<times> string" where
  "handleReady p =
     (200, ''ready ('' @ itoa (int (length (filter healthy (map snd (workers p))))) @ '' healthy workers)\<newline>'')"

record registerRequest =
  rr_host :: string
  rr_port :: int
  rr_version :: string

definition handleRegister ::
    "(string \<Rightarrow> registerRequest option) \<Rightarrow> http_method \<Rightarrow> string \<Rightarrow> gotime \<Rightarrow> pool \<Rightarrow> int \<times> pool" where
  "handleRegister decode m body now p =
     (if m \<noteq> POST then (405, p)
      else case decode (take 4096 body) of
             None \<Rightarrow> (400, p)
           | Some req \<Rightarrow>
               if rr_host req = [] then (400, p)
               else if rr_port req < 1 \<or> 65535 < rr_port req then (400, p)
               else (204, snd (register (rr_host req) (rr_port req) now p)))"

record worker_entry =
  we_url :: string
  we_sources :: string
  we_healthy :: bool
  we_active :: int
  we_inFlight :: int
  we_max :: int
  we_gpuLoad :: go_float
  we_gpuEngines :: int
  we_backend :: string
  we_load :: go_float
  we_lastErr :: string

definition worker_entry :: "worker \<Rightarrow> worker_entry" where
  "worker_entry w =
     \<lparr>we_url = w_url w, we_sources = sources_string (sources w), we_healthy = healthy w,
      we_active = activeSessions w, we_inFlight = pendingAndAcceptedLocked w, we_max = maxSessions w,
      we_gpuLoad = gpuLoad w, we_gpuEngines = gpuEngines w,
      we_backend = (if backend w = [] then ''unknown'' else backend w),
      we_load = load w, we_lastErr = lastErr w\<rparr>"

definition handleWorkers :: "worker list \<Rightarrow> worker_entry list" where
  "handleWorkers ws = map worker_entry ws"

definition maxTaskBody :: nat where "maxTaskBody = 8 * 2 ^ 20"

text \<open>The body of the request as \<open>ReadAll\<close> of the limited reader sees it.\<close>

datatype body_src = BodyErr | Body string

definition reply_status :: "int \<Rightarrow> dstate \<Rightarrow> dstate" where
  "reply_status code s =
     s\<lparr>d_ps := (newPMSStream \<lparr>tr_session = [], tr_args = [], tr_env = [], tr_cwd = [], tr_rewrite = False\<rparr>)
        \<lparr>ps_status := Some code, headersWritten := True\<rparr>\<rparr>"

definition handleTask ::
    "nat \<Rightarrow> world \<Rightarrow> (string \<Rightarrow> taskRequest option) \<Rightarrow> http_method \<Rightarrow> body_src \<Rightarrow> dstate \<Rightarrow> dstate option" where
  "handleTask fuel e decode m src s =
     (if m \<noteq> POST then Some (reply_status 405 s)
      else case src of
             BodyErr \<Rightarrow> Some (reply_status 400 s)
           | Body raw \<Rightarrow>
               (let body = take (maxTaskBody + 1) raw
                in if maxTaskBody < length body then Some (reply_status 413 s)
                   else case decode body of
                          None \<Rightarrow> Some (reply_status 400 s)
                        | Some req \<Rightarrow>
                            if tr_session req = [] then Some (reply_status 400 s)
                            else
                              (let ((args, resumed), c) = resumeIfApplicable (d_now s) (tr_args req) (d_cache s);
                                   s' = s\<lparr>d_cache := c\<rparr>
                               in if resumed
                                  then dispatchTask fuel e (req\<lparr>tr_args := args\<rparr>) (metric ''resumed'' s')
                                  else dispatchTask fuel e req s')))"

text \<open>\<open>kill_net\<close> is what the forwarded request returned: \<open>None\<close> for a transport error, else the
  worker's status. The result names the URL that was called.\<close>

definition task_id :: "string \<Rightarrow> string \<times> string" where
  "task_id path =
     (let rest = drop (length ''/task/'') path
      in case index_byte rest (\<lambda>c. c = CHR ''/'') of
           None \<Rightarrow> (rest, '''')
         | Some i \<Rightarrow> (take i rest, drop (Suc i) rest))"

definition handleTaskByID ::
    "(string \<Rightarrow> int option) \<Rightarrow> http_method \<Rightarrow> string \<Rightarrow> tracker \<Rightarrow> int \<times> string option \<times> string" where
  "handleTaskByID kill_net m path trk =
     (let (sid, suffix) = task_id path
      in if suffix \<noteq> ''kill'' then (404, None, '''')
         else if m \<noteq> POST then (405, None, '''')
         else
           (let url = tracker_get sid trk
            in if url = [] then (404, None, ''not_found'')
               else
                 (let target = url @ ''/task/'' @ sid @ ''/kill''
                  in case kill_net target of
                       None \<Rightarrow> (502, Some target, ''error'')
                     | Some st \<Rightarrow> (st, Some target, ''success''))))"

section \<open>Configuration and background facts\<close>

lemma envSecondsOr_pos: "0 < dflt \<Longrightarrow> 0 < envSecondsOr en k dflt"
  by (simp add: envSecondsOr_def Let_def split: option.split)

lemma main_pool_ok: "pool_ok (main_pool en)"
  by (simp add: main_pool_def Let_def empty_pool_ok loadList_ok)

lemma discoveryLoop_ok: "pool_ok p \<Longrightarrow> pool_ok (discoveryLoop cf ticks p)"
  unfolding discoveryLoop_def by (induction ticks arbitrary: p) (auto intro: pool_step_ok)

lemma worker_metrics_sum:
  "worker_metrics ws g =
     \<lparr>g_healthy = g_healthy g + length (filter healthy ws),
      g_unhealthy = g_unhealthy g + length (filter (\<lambda>w. \<not> healthy w) ws),
      g_active = g_active g + sum_list (map activeSessions (filter healthy ws))\<rparr>"
  by (induction ws arbitrary: g) simp_all

section \<open>Registration\<close>

lemma register_rejected: "fst (handleRegister dec m body now p) \<noteq> 204 \<Longrightarrow> snd (handleRegister dec m body now p) = p"
  by (auto simp: handleRegister_def split: option.splits if_splits)

lemma handleRegister_ok: "pool_ok p \<Longrightarrow> pool_ok (snd (handleRegister dec m body now p))"
  by (auto simp: handleRegister_def intro: inv_intros split: option.splits)

lemma register_heartbeat:
  assumes "pool_ok p"
  shows "\<exists>w. map_of (workers (snd (register host port now p))) (workerURL host port) = Some w \<and> lastHeartbeat w = now"
  by (auto simp: register_def vouch_def Let_def gomap.lookup_put new_worker_def split: option.split)

lemma registered_survives_reap:
  assumes "pool_ok p" and "t - now \<le> timeout"
  shows "PUSH \<in> vouchers (reapPush t timeout (snd (register host port now p))) (workerURL host port)"
proof -
  have ok: "pool_ok (snd (register host port now p))" using assms(1) by (intro register_ok)
  obtain w where "map_of (workers (snd (register host port now p))) (workerURL host port) = Some w"
    "lastHeartbeat w = now"
    using register_heartbeat [OF assms(1)] by blast
  then show ?thesis
    using assms(2) by (simp add: vouchers_reapPush [OF ok] vouchers_register)
qed

lemma silent_is_reaped:
  assumes "pool_ok p" and "timeout < t - now" and "vouchers p (workerURL host port) \<subseteq> {PUSH}"
  shows "map_of (workers (reapPush t timeout (snd (register host port now p)))) (workerURL host port) = None"
proof -
  have ok: "pool_ok (snd (register host port now p))" using assms(1) by (intro register_ok)
  have ok2: "pool_ok (reapPush t timeout (snd (register host port now p)))" by (rule reapPush_ok [OF ok])
  obtain w where "map_of (workers (snd (register host port now p))) (workerURL host port) = Some w"
    "lastHeartbeat w = now"
    using register_heartbeat [OF assms(1)] by blast
  then have "vouchers (reapPush t timeout (snd (register host port now p))) (workerURL host port) = {}"
    using assms(2,3) by (auto simp: vouchers_reapPush [OF ok] vouchers_register)
  then show ?thesis using in_pool_iff [OF ok2] by blast
qed

section \<open>Kill\<close>

lemma task_id_kill:
  assumes "CHR ''/'' \<notin> set sid"
  shows "task_id (''/task/'' @ sid @ ''/kill'') = (sid, ''kill'')"
proof -
  have "index_byte (sid @ ''/kill'') (\<lambda>c. c = CHR ''/'') = Some (length sid)"
    using assms by (induction sid) auto
  then show ?thesis by (simp add: task_id_def Let_def)
qed

lemma kill_forwarded:
  assumes "CHR ''/'' \<notin> set sid" and "url \<noteq> []"
  shows "fst (snd (handleTaskByID net POST (''/task/'' @ sid @ ''/kill'') (tracker_set sid url trk))) =
    Some (url @ ''/task/'' @ sid @ ''/kill'')"
  using assms(2) by (simp add: handleTaskByID_def task_id_kill [OF assms(1), simplified] tracker_get_def
      tracker_set_def gomap.lookup_put Let_def split: option.split)

lemma kill_unknown:
  assumes "CHR ''/'' \<notin> set sid"
  shows "handleTaskByID net POST (''/task/'' @ sid @ ''/kill'') (tracker_del sid trk) = (404, None, ''not_found'')"
  by (simp add: handleTaskByID_def task_id_kill [OF assms, simplified] tracker_get_def tracker_del_def gomap.lookup_remove)

section \<open>Task admission\<close>

lemma task_bad_request:
  assumes "m \<noteq> POST \<or> src = BodyErr \<or> (\<exists>raw. src = Body raw \<and> maxTaskBody < length raw)
     \<or> (\<exists>raw. src = Body raw \<and> (case dec (take (maxTaskBody + 1) raw) of None \<Rightarrow> True | Some req \<Rightarrow> tr_session req = []))"
  shows "\<exists>code. code \<in> {400, 405, 413} \<and> handleTask fuel e dec m src s = Some (reply_status code s)"
  using assms by (auto simp: handleTask_def Let_def min_def split: body_src.split option.splits)

lemma task_resumed:
  assumes "dec raw = Some req" and "length raw \<le> maxTaskBody" and "tr_session req \<noteq> []"
    and "fst (cp_get (d_now s) (plexSessionFromArgs (tr_args req)) (d_cache s)) = Some h" and "0 < lastSeq h"
    and "\<bar>initialSeekFromArgs (tr_args req) - originalSeek h\<bar> \<le> resume_tolerance"
  shows "handleTask fuel e dec POST (Body raw) s =
    dispatchTask fuel e (req\<lparr>tr_args := injectResumeFlags (tr_args req)
       (originalSeek h + of_int (lastSeq h) * segmentTime h) (lastSeq h + 1)\<rparr>) (metric ''resumed'' s)"
  using assms resume_hit [OF assms(4-6)] by (simp add: handleTask_def Let_def)

section \<open>A dispatch that nobody accepts\<close>

lemma all_refused:
  assumes "dispatchTask fuel e body s = Some s'" and "accepted_count (d_hist s') = 0"
  shows "ps_status (d_ps s') = Some 503 \<and> ps_out (d_ps s') = []
    \<and> map fst (d_hist s') = map w_url (fst (do_schedule e (s\<lparr>d_ps := newPMSStream body, d_hist := []\<rparr>)))"
proof -
  obtain order s1 where ds: "do_schedule e (s\<lparr>d_ps := newPMSStream body, d_hist := []\<rparr>) = (order, s1)"
    by fastforce
  have s1: "d_ps s1 = newPMSStream body" "d_hist s1 = []"
    using frames_schedule(1,2) [of e "s\<lparr>d_ps := newPMSStream body, d_hist := []\<rparr>"] ds by simp_all
  show ?thesis
  proof (cases "order = []")
    case True
    then show ?thesis
      using assms(1) ds s1 by (auto simp: dispatchTask_def http_error_def dframe newPMSStream_def)
  next
    case False
    then have "dispatch_loop fuel e body order s1 = Some s'" using assms(1) ds by (simp add: dispatchTask_def)
    from nobody_accepts [OF this] assms(2) s1 ds show ?thesis
      by (simp add: ps_ok_def newPMSStream_def)
  qed
qed

end
