(* ===== verification/OrchProps.thy ===== *)
theory OrchProps
  imports OrchHttp
begin

text \<open>
  The properties of the orchestrator, each with the concrete run that shows its hypotheses can
  hold. \<open>demo_state\<close> is a pool of two registered, probed workers; in \<open>demo_world\<close> the first attempt
  breaks after one line and the second one finishes.
\<close>

section \<open>A concrete fleet\<close>

definition demo_cap :: capabilityResponse where
  "demo_cap = \<lparr>c_ffmpegOK = True, c_activeSessions = 0, c_maxSessions = 2, c_gpuLoad = 0, c_gpuEngines = 1,
     c_backend = ''vaapi'', c_ready = Some True, c_draining = False\<rparr>"

definition demo_ops :: "pool_op list" where
  "demo_ops = [OpRegister ''a'' 1 5, OpRegister ''b'' 2 5, OpProbeAll 6 7 (\<lambda>_. ProbeOk demo_cap)]"

definition demo_pool :: pool where
  "demo_pool = fold pool_step demo_ops (empty_pool LbLeastSessions False '''' 1)"

definition demo_req :: taskRequest where
  "demo_req = \<lparr>tr_session = ''s'', tr_args = [''-i'', ''x''], tr_env = [], tr_cwd = [], tr_rewrite = False\<rparr>"

definition demo_state :: dstate where
  "demo_state = \<lparr>d_pool = demo_pool, d_cache = \<lparr>cp_m = [], cp_ttl = 100\<rparr>, d_trk = [], d_now = 10,
     d_ps = newPMSStream demo_req, d_metrics = [], d_k = 0, d_r = 0, d_hist = []\<rparr>"

definition demo_att :: "reply \<Rightarrow> (string \<times> bool) list \<Rightarrow> stream_end \<Rightarrow> attempt" where
  "demo_att r cs e = \<lparr>a_reply = r, a_dur = 1, a_wait_ops = [], a_nl_ok = True, a_chunks = cs, a_end = e,
     a_stream_dur = 1, a_polls = [], a_ops = []\<rparr>"

definition demo_world :: "(nat \<Rightarrow> attempt) \<Rightarrow> world" where
  "demo_world f = \<lparr>att = f,
     red = (\<lambda>_. \<lparr>r_lookup = None, r_net = (\<lambda>_. ProbeTransport ''down''), r_dur = 1\<rparr>),
     map_order = (\<lambda>_ _. 0), rnd = (\<lambda>_ _. 0), gone_at = None, recovery_wait = 5\<rparr>"

definition broken_once :: "nat \<Rightarrow> attempt" where
  "broken_once k = (if k = 0 then demo_att (Reply 200 []) [(''x'', True)] (EndErr ''reset'')
     else demo_att (Reply 200 []) [(''y'', True)] EndEOF)"

definition all_busy :: "nat \<Rightarrow> attempt" where
  "all_busy k = demo_att (Reply 503 []) [] EndEOF"

section \<open>The pool\<close>

definition reach_pool :: "env \<Rightarrow> pool_op list \<Rightarrow> pool" where
  "reach_pool en ops = fold pool_step ops (main_pool en)"

lemma main_pool_default:
  "main_pool [] = empty_pool LbLoad False ''scaleplex-worker.scaleplex.svc.cluster.local'' 3501"
  by (simp add: main_pool_def getenv_def main_config_def envOr_def atoi_itoa parseWorkerList_def
      trim_space_def trim_right_def parseLBStrategy_def to_lower_def)

lemma reach_pool_ok: "pool_ok (reach_pool en ops)"
  unfolding reach_pool_def by (rule poolm.fold_good [OF main_pool_ok])

text \<open>
  C16. Whatever DNS refreshes, static lists, registrations, reaps, probes and dispatches do in whatever
  order from the pool \<open>main\<close> builds, the pool stays well-formed: one entry per URL, keyed by that
  URL, each with at least one known source, no pointer shared.
\<close>

theorem pool_always_ok: "pool_ok (fold pool_step ops (main_pool en))"
  using reach_pool_ok by (simp add: reach_pool_def)

text \<open>
  C15. The bit masks implement sets of sources. A DNS refresh makes DNS vouch for exactly the
  resolved URLs, a static list and a registration add their source to the named URLs, and the reaper
  withdraws PUSH from exactly the workers whose heartbeat is too old; no operation touches another
  source, and a URL is in the pool exactly when some source vouches for it.
\<close>

theorem discovery_refines_source_sets:
  "vouchers (refresh (Some ips) port (reach_pool en ops)) url =
      (if url \<in> (\<lambda>ip. workerURL ip port) ` set ips then insert DNS (vouchers (reach_pool en ops) url)
       else vouchers (reach_pool en ops) url - {DNS})
   \<and> vouchers (loadList es (reach_pool en ops)) url =
      (if url \<in> hp_url ` set es then insert LIST (vouchers (reach_pool en ops) url)
       else vouchers (reach_pool en ops) url)
   \<and> vouchers (snd (register host hport now (reach_pool en ops))) url =
      (if url = workerURL host hport then insert PUSH (vouchers (reach_pool en ops) url)
       else vouchers (reach_pool en ops) url)
   \<and> vouchers (reapPush now timeout (reach_pool en ops)) url =
      (case map_of (workers (reach_pool en ops)) url of
         None \<Rightarrow> {}
       | Some w \<Rightarrow> if now - lastHeartbeat w \<le> timeout then vouchers (reach_pool en ops) url
                   else vouchers (reach_pool en ops) url - {PUSH})
   \<and> (map_of (workers (reach_pool en ops)) url = None \<longleftrightarrow> vouchers (reach_pool en ops) url = {})"
  using in_pool_iff [OF reach_pool_ok, of en ops url]
  unfolding vouchers_refresh [OF reach_pool_ok] vouchers_loadList vouchers_register
    vouchers_reapPush [OF reach_pool_ok] by blast

text \<open>
  C17. A worker that a DNS refresh drops from the pool was vouched for by DNS alone, and one that the
  reaper drops by PUSH alone: no discovery source removes another one's worker.
\<close>

theorem dropped_only_by_its_last_source:
  "map_of (workers (reach_pool en ops)) url \<noteq> None \<Longrightarrow>
     (map_of (workers (refresh lookup port (reach_pool en ops))) url = None \<longrightarrow> vouchers (reach_pool en ops) url = {DNS})
   \<and> (map_of (workers (reapPush now timeout (reach_pool en ops))) url = None \<longrightarrow> vouchers (reach_pool en ops) url = {PUSH})"
  using dnsOp.removed_was_sole [OF reach_pool_ok] reapOp.removed_was_sole [OF reach_pool_ok] by blast

theorem dropped_only_by_its_last_source_witness:
  "vouchers (reach_pool [] [OpRefresh (Some [''h'']) 7]) ''http://h:7'' = {DNS}
   \<and> vouchers (reach_pool [] [OpRegister ''h'' 7 1]) ''http://h:7'' = {PUSH}"
proof
  have "map_of (workers (reach_pool [] [OpRefresh (Some [''h'']) 7])) ''http://h:7'' \<noteq> None"
    "map_of (workers (refresh (Some []) 7 (reach_pool [] [OpRefresh (Some [''h'']) 7]))) ''http://h:7'' = None"
    unfolding reach_pool_def main_pool_default by (code_simp+)
  then show "vouchers (reach_pool [] [OpRefresh (Some [''h'']) 7]) ''http://h:7'' = {DNS}"
    using dropped_only_by_its_last_source by blast
  have "map_of (workers (reach_pool [] [OpRegister ''h'' 7 1])) ''http://h:7'' \<noteq> None"
    "map_of (workers (reapPush 9 5 (reach_pool [] [OpRegister ''h'' 7 1]))) ''http://h:7'' = None"
    unfolding reach_pool_def main_pool_default by (code_simp+)
  then show "vouchers (reach_pool [] [OpRegister ''h'' 7 1]) ''http://h:7'' = {PUSH}"
    using dropped_only_by_its_last_source by blast
qed

text \<open>Two workers have the same URL only if they are the same host and port, IPv6 hosts included.\<close>

theorem worker_url_injective: "workerURL h p = workerURL h' p' \<longleftrightarrow> h = h' \<and> p = p'"
  by (rule workerURL_inj)

text \<open>
  Whatever text is in WORKERS_LIST, every parsed entry has a host and a port from 1 to 65535,
  given a default port in that range.
\<close>

theorem worker_list_entries_valid:
  assumes "hp \<in> set (parseWorkerList s d)" and "1 \<le> d" and "d \<le> 65535"
  shows "hp_host hp \<noteq> [] \<and> 1 \<le> hp_port hp \<and> hp_port hp \<le> 65535"
  using assms by (auto simp: parseWorkerList_def filter_map_mem dest: parseEntry_range split: if_splits)

theorem worker_list_entries_valid_witness:
  "hp_host \<lparr>hp_host = ''b'', hp_port = 80\<rparr> \<noteq> [] \<and> 1 \<le> hp_port \<lparr>hp_host = ''b'', hp_port = 80\<rparr>
     \<and> hp_port \<lparr>hp_host = ''b'', hp_port = 80\<rparr> \<le> 65535"
  by (rule worker_list_entries_valid [where s = "''a:0, b : 80 ,:3,c:x''" and d = 3501]; code_simp)

text \<open>Printing a list of plain hosts with their ports and parsing it back gives the same list.\<close>

theorem worker_list_roundtrip:
  assumes "\<forall>e\<in>set es. plain_host (hp_host e) \<and> 1 \<le> hp_port e \<and> hp_port e \<le> 65535"
  shows "parseWorkerList (join_with '','' (map print_entry es)) d = es"
proof (cases "es = []")
  case True
  then show ?thesis by (simp add: parseWorkerList_def trim_space_def trim_right_def)
next
  case False
  have "\<not> is_digit CHR '',''" by (simp add: is_digit_def)
  then have "CHR '','' \<notin> set (utoa n)" for n using utoa_digits [of n] by blast
  then have "CHR '','' \<notin> set (print_entry e)" if "e \<in> set es" for e
    using assms that by (fastforce simp: print_entry_def plain_host_def list_all_iff itoa_def)
  then have sp: "split_on CHR '','' (join_with '','' (map print_entry es)) = map print_entry es"
    using False by (intro split_on_join) auto
  obtain e es' where es: "es = e # es'" using False by (cases es) auto
  have "\<not> is_space (hd (join_with '','' (map print_entry es)))" "join_with '','' (map print_entry es) \<noteq> []"
    using assms es by (cases es'; auto simp: print_entry_def plain_host_def list_all_iff hd_append)+
  then have "trim_space (join_with '','' (map print_entry es)) \<noteq> []"
    by (cases "join_with '','' (map print_entry es)")
      (auto simp: trim_space_def trim_right_def dropWhile_eq_Nil_conv)
  then show ?thesis
    using assms by (simp add: parseWorkerList_def sp filter_map_map parseEntry_print)
qed

theorem worker_list_roundtrip_witness:
  "parseWorkerList (join_with '','' (map print_entry [\<lparr>hp_host = ''h'', hp_port = 9\<rparr>])) 1 = [\<lparr>hp_host = ''h'', hp_port = 9\<rparr>]"
  by (rule worker_list_roundtrip) (simp add: plain_host_def is_space_def)

section \<open>Scheduling\<close>

text \<open>
  C18. A schedule lists every healthy worker of the pool exactly once and nobody else; with tiering
  on, every hardware worker stands before every software worker, and inside each tier the \<open>load\<close>
  and \<open>least-sessions\<close> strategies are sorted by their key.
\<close>

theorem schedule_order:
  "mset (fst (schedule rn ws p)) = mset (filter healthy ws)
   \<and> (\<not> flatPool p \<longrightarrow> (\<exists>hw sw. fst (schedule rn ws p) = hw @ sw \<and> list_all isHW hw \<and> list_all (\<lambda>w. \<not> isHW w) sw
        \<and> (strategy p = LbLoad \<longrightarrow> sorted (map load hw) \<and> sorted (map load sw))
        \<and> (strategy p = LbLeastSessions \<longrightarrow> sorted (map sessions hw) \<and> sorted (map sessions sw))))"
proof (intro conjI impI)
  assume "\<not> flatPool p"
  then obtain rr where s: "fst (schedule rn ws p) =
     orderTier (strategy p) rn rr (filter isHW (filter healthy ws)) @
     orderTier (strategy p) rn rr (filter (\<lambda>w. \<not> isHW w) (filter healthy ws))"
    using schedule_tiered by blast
  show "\<exists>hw sw. fst (schedule rn ws p) = hw @ sw \<and> list_all isHW hw \<and> list_all (\<lambda>w. \<not> isHW w) sw
        \<and> (strategy p = LbLoad \<longrightarrow> sorted (map load hw) \<and> sorted (map load sw))
        \<and> (strategy p = LbLeastSessions \<longrightarrow> sorted (map sessions hw) \<and> sorted (map sessions sw))"
    by (rule exI, rule exI, rule conjI [OF s])
      (simp add: list_all_iff orderTier_load_sorted orderTier_sessions_sorted)
qed (rule schedule_mset)

theorem schedule_order_witness:
  "\<exists>hw sw. fst (schedule (\<lambda>_. 0) (map snd (workers demo_pool)) demo_pool) = hw @ sw \<and> list_all isHW hw
     \<and> sorted (map sessions hw)"
proof -
  have "\<not> flatPool demo_pool" "strategy demo_pool = LbLeastSessions" by code_simp+
  then show ?thesis using schedule_order [of "\<lambda>_. 0" "map snd (workers demo_pool)" demo_pool] by blast
qed

text \<open>
  Round robin is fair: over as many successive dispatches as a tier has workers, each worker is
  the first choice exactly once, whatever the order in which Go walks the pool.
\<close>

theorem round_robin_fair:
  assumes "ws \<noteq> []" and "unat c + length ws < 2 ^ 64"
  shows "mset (map (\<lambda>k. hd (orderTier LbRoundRobin rn (c + of_nat k + 1) ws)) [0..<length ws]) = mset ws"
  unfolding round_robin_heads [OF assms] by (simp only: rotate_drop_take mset_rotate_at mset_sort)

theorem round_robin_fair_witness:
  "mset (map (\<lambda>k. hd (orderTier LbRoundRobin (\<lambda>_. 0) (3 + of_nat k + 1)
      [new_worker 0 ''a'' ''http://a:1'' 1 0, new_worker 1 ''b'' ''http://b:1'' 1 0])) [0..<length
      [new_worker 0 ''a'' ''http://a:1'' 1 0, new_worker 1 ''b'' ''http://b:1'' 1 0]])
    = mset [new_worker 0 ''a'' ''http://a:1'' 1 0, new_worker 1 ''b'' ''http://b:1'' 1 0]"
  by (rule round_robin_fair) simp_all

section \<open>In-flight accounting\<close>

text \<open>
  C8. However the dispatches of concurrent requests and the probes interleave, a worker's pending
  count is the number of tickets begun and neither accepted nor ended, its accepted set holds
  exactly the accepted tickets that have not ended, and the pending count never goes negative.
\<close>

theorem tickets_balance:
  fixes n host url src hb evs
  defines "s \<equiv> fold tstep evs \<lparr>tw = new_worker n host url src hb, tickets = []\<rparr>"
  shows "pending (tw s) = int (length (filter is_pending (tickets s)))
    \<and> length (accepted (tw s)) = length (filter is_live (tickets s))
    \<and> 0 \<le> pending (tw s)"
proof -
  have "tickets_ok \<lparr>tw = new_worker n host url src hb, tickets = []\<rparr>"
    by (rule tickets_ok_init) (simp add: fresh_worker_def new_worker_def)
  then have "tickets_ok s" unfolding s_def by (rule ticketm.fold_good)
  then show ?thesis using accepted_length pending_nonneg by (auto simp: tickets_ok_def)
qed



section \<open>Dispatch and recovery\<close>

text \<open>
  C1. A dispatch never uses a worker again whose stream broke for this session, and at most
  \<open>1 + maxRecoveries\<close> attempts of it are accepted by a worker.
\<close>

theorem dispatch_never_reuses_a_broken_worker:
  assumes "dispatchTask fuel e body s = Some s'"
  shows "no_reuse (d_hist s') \<and> accepted_count (d_hist s') \<le> 1 + maxRecoveries"
  by (rule dispatchTask_hist [OF assms])

lemma demo_dispatch: "\<exists>s'. dispatchTask 3 (demo_world broken_once) demo_req demo_state = Some s'"
  by (rule exI [where x = "the (dispatchTask 3 (demo_world broken_once) demo_req demo_state)"]) code_simp

theorem dispatch_never_reuses_a_broken_worker_witness:
  "\<exists>s'. dispatchTask 3 (demo_world broken_once) demo_req demo_state = Some s' \<and> no_reuse (d_hist s')"
  using demo_dispatch dispatch_never_reuses_a_broken_worker by blast

text \<open>
  C2. A dispatch always returns, in every world in which each attempt takes time and no other
  goroutine probes the fleet while a reply is awaited: there is an amount of fuel from which on the
  result no longer depends on the fuel.
\<close>

theorem dispatch_terminates:
  assumes "\<forall>k. a_wait_ops (att e k) = []" and "\<forall>k. 0 < a_dur (att e k)"
  shows "\<exists>fuel s'. \<forall>fuel'\<ge>fuel. dispatchTask fuel' e body s = Some s'"
  by (rule dispatchTask_ends) (use assms in \<open>simp_all add: no_wait_ops_def takes_time_def\<close>)

theorem dispatch_terminates_witness:
  "\<exists>fuel s'. \<forall>fuel'\<ge>fuel. dispatchTask fuel' (demo_world broken_once) demo_req demo_state = Some s'"
  by (rule dispatch_terminates) (simp_all add: demo_world_def broken_once_def demo_att_def)



text \<open>
  C7. If no worker accepts, PMS gets 503 and not a byte of output, and every healthy worker was
  tried, in the order of the one schedule of this dispatch.
\<close>

theorem all_refused_is_503:
  assumes "dispatchTask fuel e body s = Some s'" and "accepted_count (d_hist s') = 0"
  shows "ps_status (d_ps s') = Some 503 \<and> ps_out (d_ps s') = []
    \<and> map fst (d_hist s') = map w_url (fst (do_schedule e (s\<lparr>d_ps := newPMSStream body, d_hist := []\<rparr>)))"
  by (rule all_refused [OF assms])

definition one_pool :: pool where
  "one_pool = fold pool_step [OpRegister ''a'' 1 5, OpProbeAll 6 7 (\<lambda>_. ProbeOk demo_cap)]
     (empty_pool LbLeastSessions False '''' 1)"

theorem all_refused_is_503_witness:
  "\<exists>s'. dispatchTask 3 (demo_world all_busy) demo_req (demo_state\<lparr>d_pool := one_pool\<rparr>) = Some s'
     \<and> ps_status (d_ps s') = Some 503"
proof -
  have "map_option (\<lambda>s. accepted_count (d_hist s))
      (dispatchTask 3 (demo_world all_busy) demo_req (demo_state\<lparr>d_pool := one_pool\<rparr>)) = Some 0"
    by code_simp
  then show ?thesis using all_refused_is_503 by auto
qed

section \<open>Resuming\<close>

text \<open>
  C32. Injecting resume flags rewrites one position of the argument vector: injecting twice equals
  injecting the second time only, the vector keeps its shape, and reading the seek back gives the
  injected position to the millisecond.
\<close>

theorem resume_injection:
  assumes "resume_wf args" and "0 \<le> x" and "0 \<le> y"
  shows "injectResumeFlags (injectResumeFlags args x m) y n = injectResumeFlags args y n
    \<and> resume_wf (injectResumeFlags args x m)
    \<and> initialSeekFromArgs (injectResumeFlags args x m) = round_to 3 x"
  using inject_override [OF assms] inject_wf [OF assms(1,2)] initialSeek_inject [OF assms(1,2)] by blast

definition demo_args :: argv where
  "demo_args = [''-ss'', ''2'', ''-i'', ''in'', ''-progressurl'',
     ''http://h/transcode/session/01234567-0123-0123-0123-0123456789ab/progress'', ''out'']"

lemma demo_args_ok: "resume_wf demo_args" "keyed_after_input demo_args" "plexSessionFromArgs demo_args \<noteq> []"
  by code_simp+

theorem resume_injection_witness:
  "injectResumeFlags (injectResumeFlags demo_args 5 3) 7 4 = injectResumeFlags demo_args 7 4
    \<and> resume_wf (injectResumeFlags demo_args 5 3)
    \<and> initialSeekFromArgs (injectResumeFlags demo_args 5 3) = round_to 3 5"
  by (rule resume_injection [OF demo_args_ok(1)]) simp_all

text \<open>
  The hint cache answers with the latest hint of a session and only within its time-to-live; a
  dropped or another session's hint is never returned.
\<close>

theorem hint_cache_ttl:
  assumes "k \<noteq> []"
  shows "fst (cp_get now k (cp_put k h c)) = (if now - updatedAt h \<le> cp_ttl c then Some h else None)
    \<and> fst (cp_get now k (cp_drop k c)) = None
    \<and> (k' \<noteq> k \<longrightarrow> fst (cp_get now k' (cp_put k h c)) = fst (cp_get now k' c))"
  using assms by (simp add: cp_get_put_other cp_get_drop) (simp add: cp_get_def cp_put_def gomap.lookup_put)

theorem hint_cache_ttl_witness:
  "fst (cp_get 9 ''k'' (cp_put ''k'' \<lparr>originalSeek = 0, segmentTime = 1, lastSeq = 3, updatedAt = 5\<rparr> \<lparr>cp_m = [], cp_ttl = 2\<rparr>)) = None"
  using hint_cache_ttl [of "''k''" 9 "\<lparr>originalSeek = 0, segmentTime = 1, lastSeq = 3, updatedAt = 5\<rparr>" "\<lparr>cp_m = [], cp_ttl = 2\<rparr>" "''k''"]
  by simp

text \<open>
  C33. A request whose session has a fresh hint with progress and whose seek is the original one is
  dispatched with the resume position \<open>original seek + last segment * segment time\<close> and the next
  segment number; the client is charged as resumed.
\<close>

theorem task_resumes_from_hint:
  assumes "dec raw = Some req" and "length raw \<le> maxTaskBody" and "tr_session req \<noteq> []"
    and "fst (cp_get (d_now s) (plexSessionFromArgs (tr_args req)) (d_cache s)) = Some h" and "0 < lastSeq h"
    and "\<bar>initialSeekFromArgs (tr_args req) - originalSeek h\<bar> \<le> resume_tolerance"
  shows "handleTask fuel e dec POST (Body raw) s =
    dispatchTask fuel e (req\<lparr>tr_args := injectResumeFlags (tr_args req)
       (originalSeek h + of_int (lastSeq h) * segmentTime h) (lastSeq h + 1)\<rparr>) (metric ''resumed'' s)"
  by (rule task_resumed) (use assms in simp_all)

definition demo_hint :: resumeHint where
  "demo_hint = \<lparr>originalSeek = 2, segmentTime = 4, lastSeq = 3, updatedAt = 5\<rparr>"

definition demo_cache :: cpcache where
  "demo_cache = cp_put (plexSessionFromArgs demo_args) demo_hint \<lparr>cp_m = [], cp_ttl = 100\<rparr>"

lemma demo_cache_hit: "fst (cp_get 10 (plexSessionFromArgs demo_args) demo_cache) = Some demo_hint"
  using cp_get_put [OF demo_args_ok(3), of 10 demo_hint "\<lparr>cp_m = [], cp_ttl = 100\<rparr>"]
  by (simp add: demo_cache_def demo_hint_def)

lemma demo_seek: "initialSeekFromArgs demo_args = 2"
  by code_simp

theorem task_resumes_from_hint_witness:
  "handleTask 3 (demo_world broken_once) (\<lambda>_. Some (demo_req\<lparr>tr_args := demo_args\<rparr>)) POST (Body ''{}'')
     (demo_state\<lparr>d_cache := demo_cache\<rparr>) =
   dispatchTask 3 (demo_world broken_once)
     (demo_req\<lparr>tr_args := injectResumeFlags demo_args 14 4\<rparr>) (metric ''resumed'' (demo_state\<lparr>d_cache := demo_cache\<rparr>))"
  using task_resumes_from_hint [of "\<lambda>_. Some (demo_req\<lparr>tr_args := demo_args\<rparr>)" "''{}''"
      "demo_req\<lparr>tr_args := demo_args\<rparr>" "demo_state\<lparr>d_cache := demo_cache\<rparr>" demo_hint 3 "demo_world broken_once"]
    demo_cache_hit demo_seek
  by (simp add: maxTaskBody_def demo_req_def demo_state_def demo_hint_def resume_tolerance_def)

text \<open>
  Resuming is not idempotent: \<open>withResume\<close> on a body that already carries a resume position
  (the second move of a session, or the retry after a refusal) finds that position away from the
  original seek of the hint, takes it for a user's seek, keeps the old position and drops the hint.
\<close>

theorem second_resume_drops_the_hint:
  assumes "resume_wf (tr_args body)" and "keyed_after_input (tr_args body)" and "0 \<le> x"
    and "fst (cp_get (d_now s) (plexSessionFromArgs (tr_args body)) (d_cache s)) = Some h" and "0 < lastSeq h"
    and "resume_tolerance < \<bar>round_to 3 x - originalSeek h\<bar>"
  shows "withResume (body\<lparr>tr_args := injectResumeFlags (tr_args body) x n\<rparr>) s =
    (body\<lparr>tr_args := injectResumeFlags (tr_args body) x n\<rparr>,
     s\<lparr>d_cache := cp_drop (plexSessionFromArgs (tr_args body)) (d_cache s)\<rparr>)"
  using second_resume_is_lost [OF assms] by (simp add: withResume_def)

theorem second_resume_drops_the_hint_witness:
  "withResume (demo_req\<lparr>tr_args := injectResumeFlags demo_args 14 4\<rparr>) (demo_state\<lparr>d_cache := demo_cache\<rparr>) =
    (demo_req\<lparr>tr_args := injectResumeFlags demo_args 14 4\<rparr>,
     demo_state\<lparr>d_cache := cp_drop (plexSessionFromArgs demo_args) demo_cache\<rparr>)"
proof -
  have "round_to 3 14 = 14" by (simp add: round_to_def round_half_even_def Let_def)
  then show ?thesis
    using second_resume_drops_the_hint [of "demo_req\<lparr>tr_args := demo_args\<rparr>" 14 "demo_state\<lparr>d_cache := demo_cache\<rparr>" demo_hint 4]
      demo_cache_hit demo_seek demo_args_ok
    by (simp add: demo_state_def demo_hint_def resume_tolerance_def)
qed

text \<open>
  A request that \<open>handleTask\<close> has already resumed is polled with its resumed position as the
  original one, while the worker reports segment numbers of the whole session: the next recovery
  counts the first part of the session twice.
\<close>

theorem resumed_request_counts_twice:
  fixes m :: int
  assumes "resume_wf args" and "keyed_after_input args" and "0 \<le> x" and "plexSessionFromArgs args \<noteq> []"
    and "0 < q" and "now' - now \<le> cp_ttl c"
  shows "fst (resumeIfApplicable now' (injectResumeFlags args x m)
      (pollCheckpoint (injectResumeFlags args x m) now (Some q) c)) =
    (injectResumeFlags (injectResumeFlags args x m)
       (round_to 3 x + of_int q * segmentTimeFromArgs (injectResumeFlags args x m)) (q + 1), True)"
  by (rule polled_resume [OF assms])

theorem resumed_request_counts_twice_witness:
  "fst (resumeIfApplicable 10 (injectResumeFlags demo_args 14 4)
      (pollCheckpoint (injectResumeFlags demo_args 14 4) 9 (Some 5) \<lparr>cp_m = [], cp_ttl = 100\<rparr>)) =
    (injectResumeFlags (injectResumeFlags demo_args 14 4)
       (round_to 3 14 + of_int 5 * segmentTimeFromArgs (injectResumeFlags demo_args 14 4)) (5 + 1), True)"
  by (rule resumed_request_counts_twice) (simp_all add: demo_args_ok)

section \<open>The HTTP surface\<close>

text \<open>
  A worker that registers is in the pool with PUSH vouching for it as long as its heartbeat is
  within the timeout, and one that only PUSH knows is gone at the first reap after it.
\<close>

theorem push_lifetime:
  "(t - now \<le> timeout \<longrightarrow>
      PUSH \<in> vouchers (reapPush t timeout (snd (register host port now (reach_pool en ops)))) (workerURL host port))
   \<and> (timeout < t - now \<and> vouchers (reach_pool en ops) (workerURL host port) \<subseteq> {PUSH} \<longrightarrow>
      map_of (workers (reapPush t timeout (snd (register host port now (reach_pool en ops))))) (workerURL host port) = None)"
  using registered_survives_reap [OF reach_pool_ok] silent_is_reaped [OF reach_pool_ok] by blast

theorem push_lifetime_witness:
  "PUSH \<in> vouchers (reapPush 9 5 (snd (register ''h'' 7 6 (reach_pool [] [])))) (workerURL ''h'' 7)
   \<and> map_of (workers (reapPush 9 5 (snd (register ''h'' 7 1 (reach_pool [] []))))) (workerURL ''h'' 7) = None"
proof -
  have "vouchers (reach_pool [] []) (workerURL ''h'' 7) \<subseteq> {PUSH}"
    by (simp add: reach_pool_def main_pool_default empty_pool_def vouchers_def)
  then show ?thesis
    using push_lifetime [of 9 6 5 "''h''" 7 "[]" "[]"] push_lifetime [of 9 1 5 "''h''" 7 "[]" "[]"] by simp
qed

text \<open>
  A kill is forwarded to the worker the session is streaming from, and is answered 404 once the
  session has ended.
\<close>

theorem kill_reaches_the_session:
  assumes "CHR ''/'' \<notin> set sid" and "url \<noteq> []"
  shows "fst (snd (handleTaskByID net POST (''/task/'' @ sid @ ''/kill'') (tracker_set sid url trk))) =
      Some (url @ ''/task/'' @ sid @ ''/kill'')
    \<and> handleTaskByID net POST (''/task/'' @ sid @ ''/kill'') (tracker_del sid trk) = (404, None, ''not_found'')"
  using kill_forwarded [OF assms] kill_unknown [OF assms(1)] by blast

theorem kill_reaches_the_session_witness:
  "fst (snd (handleTaskByID (\<lambda>_. Some 200) POST (''/task/'' @ ''s1'' @ ''/kill'') (tracker_set ''s1'' ''http://w:1'' []))) =
      Some (''http://w:1'' @ ''/task/'' @ ''s1'' @ ''/kill'')
    \<and> handleTaskByID (\<lambda>_. Some 200) POST (''/task/'' @ ''s1'' @ ''/kill'') (tracker_del ''s1'' []) = (404, None, ''not_found'')"
  by (rule kill_reaches_the_session) simp_all

text \<open>
  A task request that is not a POST, cannot be read, is larger than 8 MiB, is not the expected
  JSON or names no session is answered 405, 400 or 413 and reaches no worker.
\<close>

theorem bad_task_reaches_no_worker:
  assumes "m \<noteq> POST \<or> src = BodyErr \<or> (\<exists>raw. src = Body raw \<and> maxTaskBody < length raw)
     \<or> (\<exists>raw. src = Body raw \<and> (case dec (take (maxTaskBody + 1) raw) of None \<Rightarrow> True | Some req \<Rightarrow> tr_session req = []))"
  shows "\<exists>code. code \<in> {400, 405, 413} \<and> handleTask fuel e dec m src s = Some (reply_status code s)"
  by (rule task_bad_request [OF assms])

theorem bad_task_reaches_no_worker_witness:
  "\<exists>code. code \<in> {400, 405, 413} \<and>
     handleTask 3 (demo_world broken_once) (\<lambda>_. None) POST (Body ''{'') demo_state = Some (reply_status code demo_state)"
  by (rule bad_task_reaches_no_worker) simp

end
