(* ===== verification/WorkerMatroska.thy ===== *)
theory WorkerMatroska
  imports GoPrelude
begin

unbundle bit_operations_syntax

text \<open>
  The Cluster timecode patcher of the worker (\<open>src/worker/agent/matroska.go\<close>) on byte lists:
  EBML sizes, big-endian integers, one Cluster body, a whole chunk file. Slicing is \<open>take\<close> and
  \<open>drop\<close>; every slice of the source is guarded, so no bound is exceeded.
\<close>

section \<open>EBML sizes and big-endian integers\<close>

type_synonym bytes = "byte list"

definition byte_of :: "u64 \<Rightarrow> byte" where
  "byte_of v = ucast v"

definition shift_in :: "byte \<Rightarrow> u64 \<Rightarrow> u64" where
  "shift_in x v = push_bit 8 v OR ucast x"

definition readUintBEBytes :: "bytes \<Rightarrow> u64" where
  "readUintBEBytes b = fold shift_in b 0"

text \<open>The width is one more than the number of leading zeros of the first byte.\<close>

definition ebml_width :: "byte \<Rightarrow> nat" where
  "ebml_width first = (case find (\<lambda>i. first AND drop_bit i 0x80 \<noteq> 0) [0..<8] of
     None \<Rightarrow> 0 | Some i \<Rightarrow> i + 1)"

definition readEBMLSize :: "bytes \<Rightarrow> (nat \<times> u64) option" where
  "readEBMLSize b =
     (case b of
        [] \<Rightarrow> None
      | first # rest \<Rightarrow>
          if first = 0 then None
          else
            (let width = ebml_width first
             in if width = 0 \<or> length b < width then None
                else
                  (let mask = push_bit (8 - width) 1 - 1;
                       value = ucast (first AND mask)
                   in Some (width, fold shift_in (take (width - 1) rest) value))))"

text \<open>The loop fills \<open>out\<close> from the last byte to the first.\<close>

fun be_bytes :: "nat \<Rightarrow> u64 \<Rightarrow> bytes" where
  "be_bytes 0 v = []"
| "be_bytes (Suc n) v = be_bytes n (drop_bit 8 v) @ [byte_of (v AND 0xFF)]"

definition encodeEBMLSizeFixedWidth :: "u64 \<Rightarrow> nat \<Rightarrow> bytes" where
  "encodeEBMLSizeFixedWidth value width =
     (let out = be_bytes width value in out[0 := (out ! 0) OR drop_bit (width - 1) 0x80])"

section \<open>Patching\<close>

definition skip_crc :: "bytes \<Rightarrow> nat" where
  "skip_crc body =
     (if 0 < length body \<and> body ! 0 = 0xBF
      then case readEBMLSize (drop 1 body) of
             Some (szBytes, szValue) \<Rightarrow> 1 + szBytes + unat szValue
           | None \<Rightarrow> 0
      else 0)"

definition patchClusterBody :: "bytes \<Rightarrow> u64 \<Rightarrow> bytes \<times> bool" where
  "patchClusterBody body offsetMs =
     (let pos = skip_crc body
      in if length body \<le> pos \<or> body ! pos \<noteq> 0xE7 then (body, False)
         else case readEBMLSize (drop (pos + 1) body) of
                None \<Rightarrow> (body, False)
              | Some (szBytes, szValue) \<Rightarrow>
                  if body ! (pos + 1) = 0x88 \<and> szValue = 8 then (body, False)
                  else
                    (let valStart = pos + 1 + szBytes; valEnd = valStart + unat szValue
                     in if length body < valEnd then (body, False)
                        else
                          (let oldVal = readUintBEBytes (take (unat szValue) (drop valStart body));
                               newVal = oldVal + offsetMs
                           in (0xE7 # 0x88 # be_bytes 8 newVal @ drop valEnd body, True))))"

definition clusterID :: bytes where
  "clusterID = [0x1F, 0x43, 0xB6, 0x75]"

text \<open>\<open>bytes.Index\<close>.\<close>

fun bytes_index :: "bytes \<Rightarrow> bytes \<Rightarrow> nat option" where
  "bytes_index [] p = (if p = [] then Some 0 else None)"
| "bytes_index (x # xs) p =
     (if take (length p) (x # xs) = p then Some 0 else map_option Suc (bytes_index xs p))"

lemma readEBMLSize_width: "readEBMLSize b = Some (w, v) \<Longrightarrow> 0 < w \<and> w \<le> 8 \<and> w \<le> length b"
  by (auto simp: readEBMLSize_def ebml_width_def Let_def find_Some_iff
      split: list.splits if_splits option.splits)

text \<open>The loop over the file; the argument is \<open>data[pos:]\<close> and the result what is appended to \<open>out\<close>.\<close>

function patch_from :: "bytes \<Rightarrow> u64 \<Rightarrow> bytes" where
  "patch_from data offsetMs =
     (if data = [] then []
      else case bytes_index data clusterID of
             None \<Rightarrow> data
           | Some rel \<Rightarrow>
               take rel data @ clusterID @
               (let tl4 = drop (rel + 4) data
                in case readEBMLSize tl4 of
                     None \<Rightarrow> tl4
                   | Some (szBytes, szValue) \<Rightarrow>
                       (let n = szBytes + unat szValue
                        in if length tl4 < n then tl4
                           else
                             (let (newBody, patched) = patchClusterBody (take (unat szValue) (drop szBytes tl4)) offsetMs
                              in (if patched
                                  then encodeEBMLSizeFixedWidth (of_nat (length newBody)) szBytes @ newBody
                                  else take n tl4)
                                 @ patch_from (drop n tl4) offsetMs))))"
  by pat_completeness auto
termination
proof (relation "measure (\<lambda>(data, off). length data)", goal_cases)
  case (2 data offsetMs rel tl4 p w v n q newBody patched)
  then show ?case by (auto dest!: readEBMLSize_width)
qed simp

declare patch_from.simps [simp del]

text \<open>\<open>None\<close> is the error of a file that cannot be read; writing back is the caller's effect.\<close>

definition patchMatroskaClusterTimecode :: "bytes option \<Rightarrow> u64 \<Rightarrow> bytes option" where
  "patchMatroskaClusterTimecode file offsetMs = map_option (\<lambda>data. patch_from data offsetMs) file"

section \<open>Bytes as numbers\<close>

definition be_val :: "nat \<Rightarrow> bytes \<Rightarrow> nat" where
  "be_val a b = fold (\<lambda>x v. v * 256 + unat x) b a"

lemma be_val_simps [simp]: "be_val a [] = a" "be_val a (x # b) = be_val (a * 256 + unat x) b"
  by (simp_all add: be_val_def)

lemma be_val_append: "be_val a (b @ c) = be_val (be_val a b) c"
  by (simp add: be_val_def)

lemma be_val_acc: "be_val a b = a * 256 ^ length b + be_val 0 b"
proof (induction b arbitrary: a)
  case (Cons x b)
  have "be_val a (x # b) = (a * 256 + unat x) * 256 ^ length b + be_val 0 b"
    using Cons.IH [of "a * 256 + unat x"] by simp
  also have "\<dots> = a * 256 ^ length (x # b) + be_val 0 (x # b)"
    using Cons.IH [of "unat x"] by (simp add: algebra_simps)
  finally show ?case .
qed simp

lemma be_val_less: "be_val 0 b < 256 ^ length b"
proof (induction b)
  case (Cons x b)
  have "unat x < 256" using unsigned_less [of x, where 'a = nat] by simp
  then have "(unat x + 1) * 256 ^ length b \<le> 256 * 256 ^ length b" by (intro mult_le_mono1) simp
  then have le: "unat x * 256 ^ length b + 256 ^ length b \<le> 256 * 256 ^ length b" by simp
  have "be_val 0 (x # b) = unat x * 256 ^ length b + be_val 0 b"
    using be_val_acc [of "unat x" b] by simp
  also have "\<dots> < unat x * 256 ^ length b + 256 ^ length b" using Cons by (rule add_strict_left_mono)
  also note le
  finally show ?case by simp
qed simp

lemma shift_in_plus: "shift_in x v = push_bit 8 v + ucast x"
proof -
  have less: "bit (ucast x :: u64) n \<Longrightarrow> n < 8" for n
    using bit_imp_le_length [of x n] by (simp add: bit_ucast_iff)
  then have "push_bit 8 v AND ucast x = 0"
    by (intro bit_eqI) (auto simp: bit_and_iff bit_push_bit_iff dest: less)
  then show ?thesis by (simp add: shift_in_def disjunctive_add_eq_or)
qed

lemma unat_shift_in: "unat (shift_in x v) = (unat v * 256 + unat x) mod 2 ^ 64"
proof -
  have "shift_in x v = v * 256 + ucast x"
    by (simp add: shift_in_plus push_bit_eq_mult)
  then have "shift_in x v = of_nat (unat v * 256 + unat x)" by simp
  then show ?thesis by (simp only: unat_of_nat) simp
qed

lemma be_val_mod: "be_val (a mod 2 ^ 64) b mod 2 ^ 64 = be_val a b mod 2 ^ 64"
proof -
  have "(a mod 2 ^ 64 * p + q) mod 2 ^ 64 = (a * p + q) mod 2 ^ 64" for p q :: nat
    by (metis mod_add_left_eq mod_mult_left_eq)
  then show ?thesis by (simp only: be_val_acc [of "a mod 2 ^ 64" b] be_val_acc [of a b])
qed

lemma unat_fold_shift: "unat (fold shift_in b v) = be_val (unat v) b mod 2 ^ 64"
proof (induction b arbitrary: v)
  case Nil
  then show ?case using unsigned_less [of v, where 'a = nat] by simp
next
  case (Cons x b)
  then show ?case by (simp add: unat_shift_in be_val_mod del: power_numeral)
qed

lemma unat_byte_of: "unat (byte_of (v AND 0xFF)) = unat v mod 256"
proof -
  have m: "(0xFF :: u64) = mask 8" by (simp add: mask_eq_exp_minus_1)
  have "unat (byte_of (v AND 0xFF)) = take_bit 8 (unat v)"
    unfolding m byte_of_def by (simp add: unsigned_ucast_eq unsigned_and_eq unsigned_take_bit_eq
        flip: take_bit_eq_mask)
  then show ?thesis by (simp add: take_bit_eq_mod)
qed

lemma length_be_bytes [simp]: "length (be_bytes n v) = n"
  by (induction n v rule: be_bytes.induct) simp_all

lemma be_val_be_bytes: "be_val 0 (be_bytes n v) = unat v mod 256 ^ n"
proof (induction n v rule: be_bytes.induct)
  case (2 n v)
  have "unat (drop_bit 8 v) = unat v div 256" by (simp add: drop_bit_eq_div unat_div)
  then have "be_val 0 (be_bytes (Suc n) v) = unat v div 256 mod 256 ^ n * 256 + unat v mod 256"
    using 2 by (simp add: be_val_append unat_byte_of)
  then show ?case by (simp add: mod_mult2_eq mult.commute)
qed simp

lemma read_be_bytes: "readUintBEBytes (be_bytes 8 v) = v"
proof -
  have "unat (readUintBEBytes (be_bytes 8 v)) = unat v"
    using unsigned_less [of v, where 'a = nat]
    by (simp add: readUintBEBytes_def unat_fold_shift be_val_be_bytes)
  then show ?thesis by (simp only: word_unat_eq_iff)
qed

section \<open>EBML sizes round-trip\<close>

lemma bit_drop_0x80: "i < 8 \<Longrightarrow> drop_bit i (0x80 :: byte) = 2 ^ (7 - i)"
proof -
  assume "i < 8"
  then have "i \<in> {0, 1, 2, 3, 4, 5, 6, 7}" by auto
  then show ?thesis by (elim insertE) (simp_all add: drop_bit_eq_div word_div_def flip: drop_bit_eq_div)
qed

lemma ebml_width_marker:
  assumes "1 \<le> w" and "w \<le> 8" and "take_bit (8 - w) f = f"
  shows "ebml_width (f OR 2 ^ (8 - w)) = w"
    and "(f OR 2 ^ (8 - w)) AND (push_bit (8 - w) 1 - 1) = f"
proof -
  let ?x = "f OR 2 ^ (8 - w) :: byte"
  have nf: "8 - w \<le> n \<Longrightarrow> \<not> bit f n" for n
    by (metis assms(3) bit_take_bit_iff not_less)
  have bits: "bit ?x n \<longleftrightarrow> bit f n \<or> n = 8 - w" if "n < 8" for n
    using that by (auto simp: bit_or_iff bit_exp_iff)
  have "find (\<lambda>i. ?x AND drop_bit i 0x80 \<noteq> 0) [0..<8] = Some (w - 1)"
  proof -
    have "?x AND drop_bit i 0x80 \<noteq> 0 \<longleftrightarrow> bit ?x (7 - i)" if "i < 8" for i
      using that by (simp add: bit_drop_0x80 and_exp_eq_0_iff_not_bit)
    moreover have "bit ?x (7 - (w - 1))" using bits [of "8 - w"] assms by simp
    moreover have "\<not> bit ?x (7 - i)" if "i < w - 1" for i
      using bits [of "7 - i"] nf [of "7 - i"] that assms by simp
    ultimately show ?thesis
      unfolding find_Some_iff using assms by (intro exI [of _ "w - 1"]) auto
  qed
  then show "ebml_width ?x = w" using assms by (simp add: ebml_width_def)
  have m: "push_bit (8 - w) 1 - 1 = (mask (8 - w) :: byte)"
    by (simp add: mask_eq_exp_minus_1 push_bit_eq_mult)
  have "take_bit (8 - w) (2 ^ (8 - w) :: byte) = 0"
    by (intro bit_eqI) (auto simp: bit_take_bit_iff bit_exp_iff)
  then show "?x AND (push_bit (8 - w) 1 - 1) = f"
    unfolding m by (simp add: assms(3) flip: take_bit_eq_mask)
qed

lemma fits_in_bytes: "unat (v :: u64) < 2 ^ (7 * w) \<Longrightarrow> unat v < 256 ^ w"
proof -
  assume "unat v < 2 ^ (7 * w)"
  also have "(2 :: nat) ^ (7 * w) \<le> 2 ^ (8 * w)" by (rule power_increasing) simp_all
  also have "\<dots> = 256 ^ w" by (simp add: power_mult)
  finally show ?thesis .
qed

lemma first_byte_small:
  assumes "1 \<le> w" and "w \<le> 8" and "unat v < 2 ^ (7 * w)"
  shows "take_bit (8 - w) (hd (be_bytes w v)) = hd (be_bytes w v)"
proof -
  obtain x b where xb: "be_bytes w v = x # b" using assms(1) by (cases "be_bytes w v") (auto dest: arg_cong [where f = length])
  have len: "length b = w - 1" using arg_cong [OF xb, of length] assms(1) by simp
  have "unat v < 256 ^ w" by (rule fits_in_bytes [OF assms(3)])
  then have "unat x * 256 ^ length b \<le> unat v"
    using be_val_be_bytes [of w v] be_val_acc [of "unat x" b] by (simp add: xb)
  then have "unat x * 2 ^ (8 * (w - 1)) < 2 ^ (8 - w) * 2 ^ (8 * (w - 1))"
  proof -
    have "7 * w = (8 - w) + 8 * (w - 1)" using assms by simp
    then have p: "(2 :: nat) ^ (7 * w) = 2 ^ (8 - w) * 2 ^ (8 * (w - 1))" by (metis power_add)
    have q: "256 ^ length b = (2 :: nat) ^ (8 * (w - 1))" by (simp add: len power_mult)
    from \<open>unat x * 256 ^ length b \<le> unat v\<close> assms(3) show ?thesis
      unfolding p q by (rule le_less_trans)
  qed
  then have "unat x < 2 ^ (8 - w)" by simp
  then have "take_bit (8 - w) (unat x) = unat x" by (simp add: take_bit_nat_eq_self)
  then have "unat (take_bit (8 - w) x) = unat x" by (simp add: unsigned_take_bit_eq)
  then show ?thesis by (simp add: xb word_unat_eq_iff)
qed

lemma encode_shape:
  assumes "1 \<le> w" and "w \<le> 8"
  shows "encodeEBMLSizeFixedWidth v w = (hd (be_bytes w v) OR 2 ^ (8 - w)) # tl (be_bytes w v)"
proof -
  have "be_bytes w v \<noteq> []" using assms by (auto dest: arg_cong [where f = length])
  then show ?thesis using assms
    by (cases "be_bytes w v") (simp_all add: encodeEBMLSizeFixedWidth_def Let_def bit_drop_0x80)
qed

lemma length_encode [simp]: "length (encodeEBMLSizeFixedWidth v w) = w"
  by (simp add: encodeEBMLSizeFixedWidth_def Let_def)

lemma ebml_size_roundtrip:
  assumes "1 \<le> w" and "w \<le> 8" and "unat v < 2 ^ (7 * w)"
  shows "readEBMLSize (encodeEBMLSizeFixedWidth v w @ rest) = Some (w, v)"
proof -
  obtain f b where fb: "be_bytes w v = f # b" using assms(1) by (cases "be_bytes w v") (auto dest: arg_cong [where f = length])
  have len: "length b = w - 1" using arg_cong [OF fb, of length] assms(1) by simp
  let ?x = "f OR 2 ^ (8 - w)"
  have t: "take_bit (8 - w) f = f" using first_byte_small [OF assms] by (simp add: fb)
  note m = ebml_width_marker [OF assms(1,2) t]
  have nz: "?x \<noteq> 0"
  proof
    assume "?x = 0"
    then have "\<not> bit ?x (8 - w)" by simp
    then show False using assms by (simp add: bit_or_iff bit_exp_iff)
  qed
  have small: "unat v < 256 ^ w" by (rule fits_in_bytes [OF assms(3)])
  have "unat (ucast f :: u64) = unat f"
    using unsigned_less [of f, where 'a = nat] by (simp add: unsigned_ucast_eq take_bit_nat_eq_self)
  then have "unat (fold shift_in b (ucast f)) = be_val 0 (be_bytes w v) mod 2 ^ 64"
    by (simp add: unat_fold_shift fb)
  also have "\<dots> = unat v"
    using small unsigned_less [of v, where 'a = nat] by (simp add: be_val_be_bytes)
  finally have v: "fold shift_in b (ucast f) = v" by (simp only: word_unat_eq_iff)
  show ?thesis
    using assms nz len m v
    by (simp add: encode_shape fb readEBMLSize_def Let_def)
qed

section \<open>One Cluster body\<close>

text \<open>What a reader of the body sees: the value of the Timecode element that follows an optional
  CRC-32, and the bytes after it.\<close>

definition cluster_timecode :: "bytes \<Rightarrow> (u64 \<times> bytes) option" where
  "cluster_timecode body =
     (let pos = skip_crc body
      in if length body \<le> pos \<or> body ! pos \<noteq> 0xE7 then None
         else case readEBMLSize (drop (pos + 1) body) of
                None \<Rightarrow> None
              | Some (w, n) \<Rightarrow>
                  if length body < pos + 1 + w + unat n then None
                  else Some (readUintBEBytes (take (unat n) (drop (pos + 1 + w) body)),
                             drop (pos + 1 + w + unat n) body))"

definition already_patched :: "bytes \<Rightarrow> bool" where
  "already_patched body \<longleftrightarrow> (let pos = skip_crc body
     in body ! (pos + 1) = 0x88 \<and> map_option snd (readEBMLSize (drop (pos + 1) body)) = Some 8)"

lemma read_0x88: "readEBMLSize (0x88 # xs) = Some (1, 8)"
proof -
  have "encodeEBMLSizeFixedWidth 8 1 = [0x88]" by code_simp
  then show ?thesis using ebml_size_roundtrip [of 1 8 xs] by simp
qed

lemma skip_crc_E7 [simp]: "skip_crc (0xE7 # xs) = 0"
  by (simp add: skip_crc_def)

lemma patched_form:
  assumes "snd (patchClusterBody body off)"
  shows "\<exists>v rest. fst (patchClusterBody body off) = 0xE7 # 0x88 # be_bytes 8 v @ rest"
  using assms by (auto simp: patchClusterBody_def Let_def split: if_splits option.splits prod.splits)

lemma patched_again:
  assumes "snd (patchClusterBody body off)"
  shows "patchClusterBody (fst (patchClusterBody body off)) off' = (fst (patchClusterBody body off), False)"
proof -
  obtain v rest where "fst (patchClusterBody body off) = 0xE7 # 0x88 # be_bytes 8 v @ rest"
    using patched_form [OF assms] by blast
  then show ?thesis by (simp add: patchClusterBody_def Let_def read_0x88)
qed

lemma not_patched_same: "\<not> snd (patchClusterBody body off) \<Longrightarrow> fst (patchClusterBody body off) = body"
  by (auto simp: patchClusterBody_def Let_def split: if_splits option.splits prod.splits)

lemma patch_shifts_timecode:
  assumes "cluster_timecode body = Some (tc, rest)" and "\<not> already_patched body"
  shows "snd (patchClusterBody body off) \<and>
    cluster_timecode (fst (patchClusterBody body off)) = Some (tc + off, rest)"
proof -
  let ?pos = "skip_crc body"
  obtain w n where r: "readEBMLSize (drop (?pos + 1) body) = Some (w, n)"
    and c: "\<not> length body \<le> ?pos" "body ! ?pos = 0xE7" "\<not> length body < ?pos + 1 + w + unat n"
    and tc: "tc = readUintBEBytes (take (unat n) (drop (?pos + 1 + w) body))"
    and rest: "rest = drop (?pos + 1 + w + unat n) body"
    using assms(1) by (auto simp: cluster_timecode_def Let_def split: if_splits option.splits)
  have np: "\<not> (body ! (?pos + 1) = 0x88 \<and> n = 8)"
    using assms(2) r by (simp add: already_patched_def Let_def)
  have p: "patchClusterBody body off = (0xE7 # 0x88 # be_bytes 8 (tc + off) @ rest, True)"
    using r c np by (simp add: patchClusterBody_def Let_def tc rest)
  have "take 8 (be_bytes 8 v @ x) = be_bytes 8 v" "drop 8 (be_bytes 8 v @ x) = x" for v x by simp_all
  then show ?thesis
    unfolding p by (simp add: cluster_timecode_def read_0x88 read_be_bytes Let_def)
qed

section \<open>A whole chunk\<close>

text \<open>A well-formed chunk is a sequence of Clusters; each is read as the width of its size field
  and its body.\<close>

function parse_clusters :: "bytes \<Rightarrow> (nat \<times> bytes) list option" where
  "parse_clusters data =
     (if data = [] then Some []
      else if take 4 data \<noteq> clusterID then None
      else case readEBMLSize (drop 4 data) of
             None \<Rightarrow> None
           | Some (w, n) \<Rightarrow>
               if length (drop 4 data) < w + unat n then None
               else map_option ((#) (w, take (unat n) (drop w (drop 4 data))))
                      (parse_clusters (drop (w + unat n) (drop 4 data))))"
  by pat_completeness auto
termination
  by (relation "measure length") (auto dest!: readEBMLSize_width)

declare parse_clusters.simps [simp del]

lemma length_clusterID [simp]: "length clusterID = 4"
  by (simp add: clusterID_def)

lemma readEBMLSize_take:
  assumes "readEBMLSize b = Some (w, v)"
  shows "readEBMLSize (take w b @ r) = Some (w, v)"
proof -
  have w: "0 < w" "w \<le> length b" using readEBMLSize_width [OF assms] by simp_all
  obtain x xs where b: "b = x # xs" using w by (cases b) auto
  obtain k where k: "w = Suc k" using w by (cases w) auto
  have "ebml_width x = w" using assms b by (auto simp: readEBMLSize_def Let_def split: if_splits)
  then show ?thesis
    using assms w b k by (auto simp: readEBMLSize_def Let_def min_def split: if_splits)
qed

lemma parse_clusters_Cons:
  assumes "readEBMLSize (sz @ body @ rest) = Some (length sz, of_nat (length body))"
    and "length body < 2 ^ 64"
  shows "parse_clusters (clusterID @ sz @ body @ rest) = map_option ((#) (length sz, body)) (parse_clusters rest)"
proof -
  have "unat (of_nat (length body) :: u64) = length body" using assms(2) by (simp add: unat_of_nat)
  moreover have "clusterID \<noteq> []" by (simp add: clusterID_def)
  ultimately show ?thesis
    using assms(1) by (subst parse_clusters.simps) simp
qed

lemma patch_from_Cons:
  assumes "data \<noteq> []" and "take 4 data = clusterID"
    and "readEBMLSize (drop 4 data) = Some (w, n)" and "w + unat n \<le> length (drop 4 data)"
  shows "patch_from data off = clusterID @
    (let b = take (unat n) (drop w (drop 4 data))
     in if snd (patchClusterBody b off)
        then encodeEBMLSizeFixedWidth (of_nat (length (fst (patchClusterBody b off)))) w @ fst (patchClusterBody b off)
        else take w (drop 4 data) @ b)
    @ patch_from (drop (w + unat n) (drop 4 data)) off"
proof -
  have i: "bytes_index data clusterID = Some 0" using assms(1,2) by (cases data) simp_all
  have "take (w + unat n) (drop 4 data) = take w (drop 4 data) @ take (unat n) (drop w (drop 4 data))"
    by (rule take_add)
  then show ?thesis
    using assms i by (subst patch_from.simps) (simp add: Let_def case_prod_unfold add.commute)
qed

definition headroom :: "u64 \<Rightarrow> nat \<times> bytes \<Rightarrow> bool" where
  "headroom off = (\<lambda>(w, b). length (fst (patchClusterBody b off)) < 2 ^ (7 * w))"

lemma patch_from_parse:
  "parse_clusters data = Some cs \<Longrightarrow> list_all (headroom off) cs \<Longrightarrow>
   parse_clusters (patch_from data off) = Some (map (\<lambda>(w, b). (w, fst (patchClusterBody b off))) cs)"
proof (induction data arbitrary: cs rule: parse_clusters.induct)
  case (1 data)
  show ?case
  proof (cases "data = []")
    case True
    then show ?thesis using "1.prems" by (simp add: parse_clusters.simps [of "[]"] patch_from.simps [of "[]"])
  next
    case False
    let ?d = "drop 4 data"
    obtain w n cs' where c: "take 4 data = clusterID" "readEBMLSize ?d = Some (w, n)"
      "w + unat n \<le> length ?d" "parse_clusters (drop (w + unat n) ?d) = Some cs'"
      and cs: "cs = (w, take (unat n) (drop w ?d)) # cs'"
      using "1.prems"(1) False
      by (subst (asm) parse_clusters.simps) (auto split: if_splits option.splits)
    let ?b = "take (unat n) (drop w ?d)"
    have IH: "parse_clusters (patch_from (drop (w + unat n) ?d) off) =
        Some (map (\<lambda>(w, b). (w, fst (patchClusterBody b off))) cs')"
      using "1.IH" [OF False _ c(2)] c "1.prems"(2) cs by simp
    have w: "1 \<le> w" "w \<le> 8" "w \<le> length ?d" using readEBMLSize_width [OF c(2)] by auto
    have lb: "length ?b = unat n" using c(3) by simp
    have room: "length (fst (patchClusterBody ?b off)) < 2 ^ (7 * w)"
      using "1.prems"(2) cs by (simp add: headroom_def)
    have "(2 :: nat) ^ (7 * w) \<le> 2 ^ 56" using w(2) by (intro power_increasing) simp_all
    then have room64: "length (fst (patchClusterBody ?b off)) < 2 ^ 64" using room by simp
    note unfolded = patch_from_Cons [OF False c(1,2,3), of off, unfolded Let_def]
    show ?thesis
    proof (cases "snd (patchClusterBody ?b off)")
      case True
      let ?nb = "fst (patchClusterBody ?b off)"
      have "unat (of_nat (length ?nb) :: u64) = length ?nb" using room64 by (simp add: unat_of_nat)
      then have "readEBMLSize (encodeEBMLSizeFixedWidth (of_nat (length ?nb)) w @ ?nb @ x) =
          Some (w, of_nat (length ?nb))" for x
        using room w by (intro ebml_size_roundtrip) simp_all
      then show ?thesis
        unfolding unfolded using True parse_clusters_Cons [OF _ room64] IH
        by (simp add: cs)
    next
      case False
      have sz: "length (take w ?d) = w" using w by simp
      have "readEBMLSize (take w ?d @ ?b @ x) = Some (length (take w ?d), of_nat (length ?b))" for x
        using readEBMLSize_take [OF c(2)] lb sz by simp
      moreover have "length ?b < 2 ^ 64" unfolding lb using unsigned_less [of n, where 'a = nat] by simp
      ultimately have "parse_clusters (clusterID @ take w ?d @ ?b @ x) = map_option ((#) (w, ?b)) (parse_clusters x)" for x
        using parse_clusters_Cons [of "take w ?d" ?b x] sz by simp
      then show ?thesis
        unfolding unfolded using False IH not_patched_same [OF False] by (simp add: cs)
    qed
  qed
qed

lemma patch_from_unchanged:
  "parse_clusters data = Some cs \<Longrightarrow> list_all (\<lambda>(w, b). \<not> snd (patchClusterBody b off)) cs \<Longrightarrow>
   patch_from data off = data"
proof (induction data arbitrary: cs rule: parse_clusters.induct)
  case (1 data)
  show ?case
  proof (cases "data = []")
    case True
    then show ?thesis by (simp add: patch_from.simps [of "[]"])
  next
    case False
    let ?d = "drop 4 data"
    obtain w n cs' where c: "take 4 data = clusterID" "readEBMLSize ?d = Some (w, n)"
      "w + unat n \<le> length ?d" "parse_clusters (drop (w + unat n) ?d) = Some cs'"
      and cs: "cs = (w, take (unat n) (drop w ?d)) # cs'"
      using "1.prems"(1) False
      by (subst (asm) parse_clusters.simps) (auto split: if_splits option.splits)
    have "patch_from (drop (w + unat n) ?d) off = drop (w + unat n) ?d"
      using "1.IH" [OF False _ c(2)] c "1.prems"(2) cs by simp
    moreover have "take w ?d @ take (unat n) (drop w ?d) @ drop (w + unat n) ?d = ?d"
      by (metis append_assoc append_take_drop_id take_add)
    ultimately show ?thesis
      using patch_from_Cons [OF False c(1,2,3), of off] "1.prems"(2) cs c(1)
      by (simp add: Let_def) (metis append_take_drop_id)
  qed
qed

lemma patch_from_twice:
  assumes "parse_clusters data = Some cs" and "list_all (headroom off) cs"
    and "list_all (\<lambda>(w, b). cluster_timecode b \<noteq> None) cs"
  shows "patch_from (patch_from data off) off' = patch_from data off"
proof (rule patch_from_unchanged [OF patch_from_parse [OF assms(1,2)]])
  have "\<not> snd (patchClusterBody (fst (patchClusterBody b off)) off')" if "cluster_timecode b \<noteq> None" for b
  proof (cases "snd (patchClusterBody b off)")
    case False
    then have "already_patched b" using that patch_shifts_timecode by fastforce
    then have "\<not> snd (patchClusterBody b off')"
      by (auto simp: already_patched_def patchClusterBody_def Let_def)
    then show ?thesis using not_patched_same [OF False] by simp
  qed (simp add: patched_again)
  then show "list_all (\<lambda>(w, b). \<not> snd (patchClusterBody b off')) (map (\<lambda>(w, b). (w, fst (patchClusterBody b off))) cs)"
    using assms(3) by (auto simp: list_all_iff)
qed

end
