(* ===== verification/WorkerSegwatch.thy ===== *)
theory WorkerSegwatch
  imports WorkerMatroska
begin

text \<open>
  What the worker learns from the files ffmpeg creates (\<open>src/worker/agent/segwatch.go\<close> and the
  watcher of \<open>matroska.go\<close>): the number in a chunk's name, the highest number seen so far, which two
  watchers raise with a compare-and-swap loop, the first-segment line, and which chunk is patched
  when. A file-system event is whether it is a creation and the path.
\<close>

section \<open>Names\<close>

text \<open>\<open>filepath.Base\<close> and \<open>filepath.Ext\<close>.\<close>

definition path_base :: "string \<Rightarrow> string" where
  "path_base p =
     (if p = [] then ''.''
      else (let s = trim_right (\<lambda>c. c = CHR ''/'') p
            in if s = [] then ''/''
               else rev (takeWhile (\<lambda>c. c \<noteq> CHR ''/'') (rev s))))"

definition path_ext :: "string \<Rightarrow> string" where
  "path_ext p =
     (let r = rev p; t = takeWhile (\<lambda>c. c \<noteq> CHR ''.'' \<and> c \<noteq> CHR ''/'') r
      in case drop (length t) r of
           [] \<Rightarrow> []
         | c # cs \<Rightarrow> if c = CHR ''.'' then CHR ''.'' # rev t else [])"

text \<open>\<open>0*(\<backslash>d+)\<close>: the leading zeros are skipped, but one digit stays.\<close>

definition skip_zeros :: "string \<Rightarrow> string" where
  "skip_zeros ds =
     (let s = dropWhile (\<lambda>c. c = CHR ''0'') ds in if s = [] then ''0'' else s)"

text \<open>\<open>chunkRE\<close>: stream id and sequence number of \<open>chunk-stream<S>-<N>.m4s\<close>.\<close>

definition chunkRE :: "string \<Rightarrow> (string \<times> string) option" where
  "chunkRE name =
     (if has_prefix name ''chunk-stream'' \<and> has_suffix name ''.m4s'' \<and> length name \<ge> 16
      then (let mid = take (length name - 16) (drop 12 name);
                (sid, rest) = span_digits mid
            in if sid \<noteq> [] \<and> rest \<noteq> [] \<and> hd rest = CHR ''-'' \<and> tl rest \<noteq> [] \<and> list_all is_digit (tl rest)
               then Some (sid, skip_zeros (tl rest)) else None)
      else None)"

definition matroskaChunkRE :: "string \<Rightarrow> string option" where
  "matroskaChunkRE name =
     (let ds = drop 6 name
      in if has_prefix name ''chunk-'' \<and> ds \<noteq> [] \<and> list_all is_digit ds then Some (skip_zeros ds) else None)"

text \<open>\<open>seq, _ := strconv.Atoi(digits)\<close>: on a range error the value is the largest int.\<close>

definition atoi_sat :: "string \<Rightarrow> int" where
  "atoi_sat ds = (let n = int (digits_val ds) in if n < 2 ^ 63 then n else 2 ^ 63 - 1)"

section \<open>The watchers\<close>

type_synonym fsevent = "bool \<times> string"

text \<open>The compare-and-swap loop without interference.\<close>

definition raise_seq :: "int \<Rightarrow> int \<Rightarrow> int" where
  "raise_seq q prev = (if q \<le> prev then prev else q)"

definition chunk_event :: "fsevent \<Rightarrow> int \<Rightarrow> int" where
  "chunk_event ev lastSeq =
     (if \<not> fst ev then lastSeq
      else case chunkRE (path_base (snd ev)) of
             None \<Rightarrow> lastSeq
           | Some (sid, ds) \<Rightarrow> if atoi_sat ds \<le> 0 then lastSeq else raise_seq (atoi_sat ds) lastSeq)"

definition watchChunkSequence :: "fsevent list \<Rightarrow> int \<Rightarrow> int" where
  "watchChunkSequence evs lastSeq = fold chunk_event evs lastSeq"

definition segmentExts :: "string list" where
  "segmentExts = [''.m4s'', ''.ts'', ''.mp4'']"

text \<open>The line that is written and the events left unread.\<close>

fun watchFirstSegment :: "fsevent list \<Rightarrow> string option" where
  "watchFirstSegment [] = None"
| "watchFirstSegment (ev # evs) =
     (if \<not> fst ev \<or> to_lower (path_ext (snd ev)) \<notin> set segmentExts then watchFirstSegment evs
      else Some (''[scaleplex] segment-ready: '' @ path_base (snd ev) @ ''\<newline>''))"

record mkv_state =
  mk_files :: "string \<Rightarrow> bytes option"
  mk_patched :: "string list"
  mk_lastSeq :: int

definition chunk_path :: "string \<Rightarrow> int \<Rightarrow> string" where
  "chunk_path dir q = dir @ ''/chunk-'' @ pad_left 5 (CHR ''0'') (itoa q)"

definition seek_ms :: "go_float \<Rightarrow> u64" where
  "seek_ms s = of_int \<lfloor>s * 1000\<rfloor>"

definition mkv_event :: "string \<Rightarrow> u64 \<Rightarrow> fsevent \<Rightarrow> mkv_state \<Rightarrow> mkv_state" where
  "mkv_event dir offsetMs ev s =
     (case matroskaChunkRE (path_base (snd ev)) of
        None \<Rightarrow> s
      | Some ds \<Rightarrow>
          (let q = atoi_sat ds;
               s1 = s\<lparr>mk_lastSeq := raise_seq q (mk_lastSeq s)\<rparr>
           in if offsetMs = 0 then s1
              else if fst ev \<and> 0 < q
              then (let prev = chunk_path dir (q - 1)
                    in if prev \<in> set (mk_patched s1) then s1
                       else case patchMatroskaClusterTimecode (mk_files s1 prev) offsetMs of
                              None \<Rightarrow> s1
                            | Some out \<Rightarrow> s1\<lparr>mk_files := (mk_files s1)(prev := Some out),
                                            mk_patched := prev # mk_patched s1\<rparr>)
              else s1))"

definition watchAndPatchMatroskaChunks :: "string \<Rightarrow> go_float \<Rightarrow> fsevent list \<Rightarrow> mkv_state \<Rightarrow> mkv_state" where
  "watchAndPatchMatroskaChunks dir seekOffsetSeconds evs s =
     fold (mkv_event dir (seek_ms seekOffsetSeconds)) evs s"

section \<open>The writer all streams share\<close>

text \<open>\<open>lockedWriter\<close>: one call is one atomic step; \<open>ok\<close> says whether the underlying write succeeds.\<close>

record lockedWriter =
  lw_out :: string
  lw_flushes :: nat

definition lw_flush :: "lockedWriter \<Rightarrow> lockedWriter" where
  "lw_flush w = w\<lparr>lw_flushes := lw_flushes w + 1\<rparr>"

definition lw_write :: "string \<Rightarrow> bool \<Rightarrow> lockedWriter \<Rightarrow> bool \<times> lockedWriter" where
  "lw_write p ok w = (ok, lw_flush (if ok then w\<lparr>lw_out := lw_out w @ p\<rparr> else w))"

definition writePrefixed :: "string \<Rightarrow> string \<Rightarrow> bool \<times> bool \<Rightarrow> lockedWriter \<Rightarrow> bool \<times> lockedWriter" where
  "writePrefixed pre p oks w =
     (if pre \<noteq> [] \<and> \<not> fst oks then (False, w)
      else (let w1 = (if pre \<noteq> [] then w\<lparr>lw_out := lw_out w @ pre\<rparr> else w)
            in lw_write p (snd oks) w1))"

text \<open>\<open>streamPrefixed\<close>: each non-empty read is given to \<open>peek\<close> and then written with its prefix.\<close>

fun streamPrefixed :: "string \<Rightarrow> (string \<Rightarrow> 'p \<Rightarrow> 'p) \<Rightarrow> (string \<times> bool \<times> bool) list \<Rightarrow> 'p \<Rightarrow> lockedWriter
    \<Rightarrow> 'p \<times> lockedWriter" where
  "streamPrefixed pre peek [] s w = (s, w)"
| "streamPrefixed pre peek ((p, oks) # rest) s w =
     (if p = [] then streamPrefixed pre peek rest s w
      else streamPrefixed pre peek rest (peek p s) (snd (writePrefixed pre p oks w)))"

section \<open>The highest number seen\<close>

lemma raise_seq_max: "raise_seq q prev = max q prev"
  by (simp add: raise_seq_def max_def)

definition chunk_seq :: "fsevent \<Rightarrow> int option" where
  "chunk_seq ev = (if fst ev then map_option (\<lambda>(sid, ds). atoi_sat ds) (chunkRE (path_base (snd ev))) else None)"

lemma chunk_event_max:
  "0 \<le> m \<Longrightarrow> chunk_event ev m = (case chunk_seq ev of None \<Rightarrow> m | Some q \<Rightarrow> max q m)"
  by (auto simp: chunk_event_def chunk_seq_def raise_seq_max split: option.splits)

lemma watchChunkSequence_max:
  "0 \<le> m \<Longrightarrow> watchChunkSequence evs m = Max (insert m {q. \<exists>ev\<in>set evs. chunk_seq ev = Some q})"
proof (induction evs arbitrary: m)
  case Nil
  then show ?case by (simp add: watchChunkSequence_def)
next
  case (Cons ev evs)
  let ?S = "\<lambda>xs. {q. \<exists>ev\<in>set xs. chunk_seq ev = Some q}"
  have "?S evs = (\<lambda>ev. the (chunk_seq ev)) ` {ev \<in> set evs. chunk_seq ev \<noteq> None}" by force
  then have fin: "finite (?S evs)" by simp
  have S: "?S (ev # evs) = (case chunk_seq ev of None \<Rightarrow> ?S evs | Some q \<Rightarrow> insert q (?S evs))"
    by (auto split: option.splits)
  have "watchChunkSequence (ev # evs) m = watchChunkSequence evs (chunk_event ev m)"
    by (simp add: watchChunkSequence_def)
  also have "\<dots> = Max (insert (chunk_event ev m) (?S evs))"
    using Cons by (intro Cons.IH) (auto simp: chunk_event_max split: option.splits)
  also have "\<dots> = Max (insert m (?S (ev # evs)))"
  proof (cases "chunk_seq ev")
    case (Some q)
    have "Max (insert (max q m) (?S evs)) = Max (insert m (insert q (?S evs)))"
      using fin by (cases "?S evs = {}") (auto simp: max.assoc max.commute max.left_commute)
    then show ?thesis unfolding S using Some Cons.prems by (simp add: chunk_event_max)
  qed (simp add: S chunk_event_max Cons.prems)
  finally show ?case .
qed

text \<open>The compare-and-swap loop under interference: any number of raises, each at its own point of
  the loop; \<open>Start\<close> loads, \<open>Loaded\<close> compares and swaps.\<close>

datatype raise_pc = Start int | Loaded int int | Done int

record seq_sys =
  sy_last :: int
  sy_pcs :: "raise_pc list"

inductive seq_step :: "seq_sys \<Rightarrow> seq_sys \<Rightarrow> bool" where
  seq_load: "i < length (sy_pcs s) \<Longrightarrow> sy_pcs s ! i = Start q \<Longrightarrow>
     seq_step s (s\<lparr>sy_pcs := (sy_pcs s)[i := Loaded q (sy_last s)]\<rparr>)"
| seq_skip: "i < length (sy_pcs s) \<Longrightarrow> sy_pcs s ! i = Loaded q prev \<Longrightarrow> q \<le> prev \<Longrightarrow>
     seq_step s (s\<lparr>sy_pcs := (sy_pcs s)[i := Done q]\<rparr>)"
| seq_swap: "i < length (sy_pcs s) \<Longrightarrow> sy_pcs s ! i = Loaded q prev \<Longrightarrow> \<not> q \<le> prev \<Longrightarrow> sy_last s = prev \<Longrightarrow>
     seq_step s (s\<lparr>sy_last := q, sy_pcs := (sy_pcs s)[i := Done q]\<rparr>)"
| seq_retry: "i < length (sy_pcs s) \<Longrightarrow> sy_pcs s ! i = Loaded q prev \<Longrightarrow> \<not> q \<le> prev \<Longrightarrow> sy_last s \<noteq> prev \<Longrightarrow>
     seq_step s (s\<lparr>sy_pcs := (sy_pcs s)[i := Start q]\<rparr>)"

inductive seq_reach :: "seq_sys \<Rightarrow> seq_sys \<Rightarrow> bool" for s0 where
  reach_refl: "seq_reach s0 s0"
| reach_step: "seq_reach s0 s \<Longrightarrow> seq_step s s' \<Longrightarrow> seq_reach s0 s'"

fun pc_seq :: "raise_pc \<Rightarrow> int" where
  "pc_seq (Start q) = q"
| "pc_seq (Loaded q prev) = q"
| "pc_seq (Done q) = q"

fun pc_ok :: "int \<Rightarrow> raise_pc \<Rightarrow> bool" where
  "pc_ok l (Start q) = True"
| "pc_ok l (Loaded q prev) = (prev \<le> l)"
| "pc_ok l (Done q) = (q \<le> l)"

lemma pc_ok_mono: "pc_ok l pc \<Longrightarrow> l \<le> l' \<Longrightarrow> pc_ok l' pc"
  by (cases pc) auto

definition seq_inv :: "seq_sys \<Rightarrow> seq_sys \<Rightarrow> bool" where
  "seq_inv s0 s \<longleftrightarrow> map pc_seq (sy_pcs s) = map pc_seq (sy_pcs s0) \<and> sy_last s0 \<le> sy_last s
     \<and> sy_last s \<in> insert (sy_last s0) (set (map pc_seq (sy_pcs s0)))
     \<and> list_all (pc_ok (sy_last s)) (sy_pcs s)"

lemma seq_inv_update:
  assumes "seq_inv s0 s" and "i < length (sy_pcs s)" and "pc_seq pc = pc_seq (sy_pcs s ! i)"
    and "sy_last s \<le> l" and "l = sy_last s \<or> l = pc_seq pc" and "pc_ok l pc"
  shows "seq_inv s0 (s\<lparr>sy_last := l, sy_pcs := (sy_pcs s)[i := pc]\<rparr>)"
proof -
  note inv = assms(1) [unfolded seq_inv_def]
  have seqs: "map pc_seq ((sy_pcs s)[i := pc]) = map pc_seq (sy_pcs s)"
    using assms(2,3) by (simp add: map_update) (metis length_map list_update_id nth_map)
  have "pc_seq pc \<in> set (map pc_seq (sy_pcs s0))"
    using inv assms(2,3) by (metis length_map nth_map nth_mem)
  then have "l \<in> insert (sy_last s0) (set (map pc_seq (sy_pcs s0)))"
    using inv assms(5) by (cases "l = sy_last s") simp_all
  moreover have "list_all (pc_ok l) ((sy_pcs s)[i := pc])"
    using inv assms(4,6) set_update_subset_insert [of "sy_pcs s" i pc]
    by (auto simp: list_all_iff intro: pc_ok_mono)
  ultimately show ?thesis using inv assms(4) seqs by (simp add: seq_inv_def)
qed

lemma seq_step_inv:
  assumes "seq_step s s'" and "seq_inv s0 s"
  shows "seq_inv s0 s' \<and> sy_last s \<le> sy_last s'"
  using assms(1)
proof cases
  case (seq_load i q)
  then show ?thesis using seq_inv_update [OF assms(2) seq_load(2), of "Loaded q (sy_last s)" "sy_last s"] by simp
next
  case (seq_skip i q prev)
  have "\<forall>n<length (sy_pcs s). pc_ok (sy_last s) (sy_pcs s ! n)"
    using assms(2) by (simp add: seq_inv_def list_all_length)
  then have "pc_ok (sy_last s) (Loaded q prev)" using seq_skip(2,3) by metis
  then show ?thesis
    using seq_skip seq_inv_update [OF assms(2) seq_skip(2), of "Done q" "sy_last s"] by simp
next
  case (seq_swap i q prev)
  then show ?thesis using seq_inv_update [OF assms(2) seq_swap(2), of "Done q" q] by simp
next
  case (seq_retry i q prev)
  then show ?thesis using seq_inv_update [OF assms(2) seq_retry(2), of "Start q" "sy_last s"] by simp
qed

lemma seq_reach_inv: "seq_reach s0 s \<Longrightarrow> seq_inv s0 s0 \<Longrightarrow> seq_inv s0 s"
  by (induction rule: seq_reach.induct) (auto dest: seq_step_inv)

definition seq_start :: "int \<Rightarrow> int list \<Rightarrow> seq_sys" where
  "seq_start m qs = \<lparr>sy_last = m, sy_pcs = map Start qs\<rparr>"

lemma seq_start_inv: "seq_inv (seq_start m qs) (seq_start m qs)"
  by (simp add: seq_inv_def seq_start_def list_all_iff)

lemma pc_seq_Start [simp]: "pc_seq \<circ> Start = id"
  by (rule ext) simp

lemma raises_reach_max:
  assumes "seq_reach (seq_start m qs) s" and "\<forall>pc\<in>set (sy_pcs s). \<exists>q. pc = Done q"
  shows "sy_last s = Max (insert m (set qs))"
proof -
  have inv: "seq_inv (seq_start m qs) s" by (rule seq_reach_inv [OF assms(1) seq_start_inv])
  then have seqs: "map pc_seq (sy_pcs s) = qs" and lo: "m \<le> sy_last s"
    and mem: "sy_last s \<in> insert m (set qs)" by (auto simp: seq_inv_def seq_start_def)
  have "q \<le> sy_last s" if "q \<in> set qs" for q
  proof -
    have "q \<in> pc_seq ` set (sy_pcs s)" using that by (simp flip: seqs)
    then obtain pc where pc: "pc \<in> set (sy_pcs s)" "pc_seq pc = q" by blast
    then obtain r where "pc = Done r" using assms(2) by blast
    moreover have "pc_ok (sy_last s) pc" using inv pc(1) by (simp add: seq_inv_def list_all_iff)
    ultimately show ?thesis using pc(2) by simp
  qed
  then show ?thesis using lo mem by (intro Max_eqI [symmetric]) auto
qed

lemma seq_monotone: "seq_reach s0 s \<Longrightarrow> seq_inv s0 s0 \<Longrightarrow> sy_last s0 \<le> sy_last s"
  using seq_reach_inv by (auto simp: seq_inv_def)

end
