(* ===== verification/WorkerStream.thy ===== *)
theory WorkerStream
  imports WorkerSegwatch
begin

text \<open>
  What the worker reads out of ffmpeg's standard error (\<open>src/worker/agent/progress_report.go\<close>:
  \<open>logForwarder\<close>; \<open>stderr_watch.go\<close>; \<open>main.go\<close>: \<open>ringBuffer\<close>, \<open>splitLines\<close>). A pipe delivers bytes
  in chunks of any size, so each consumer must not depend on where the chunks end.
\<close>

section \<open>Lines in a buffer\<close>

definition is_eol :: "char \<Rightarrow> bool" where
  "is_eol c \<longleftrightarrow> c = CHR 0x0A \<or> c = CHR 0x0D"

text \<open>The loop both consumers share: cut the buffer at each CR or LF; the rest stays buffered.\<close>

function take_lines :: "string \<Rightarrow> string list \<times> string" where
  "take_lines buf = (case index_byte buf is_eol of
     None \<Rightarrow> ([], buf)
   | Some i \<Rightarrow> (let (ls, r) = take_lines (drop (Suc i) buf) in (take i buf # ls, r)))"
  by pat_completeness auto
termination
proof (relation "measure length", goal_cases)
  case (2 buf i)
  then show ?case by (cases buf) auto
qed simp

declare take_lines.simps [simp del]

definition trim_eol :: "string \<Rightarrow> string" where
  "trim_eol s = trim_right (\<lambda>c. is_eol c \<or> c = CHR '' '') s"

section \<open>The log forwarder\<close>

record logForwarder =
  lf_baseURL :: string
  lf_buf :: string
  lf_posts :: "(string \<times> string) list"

definition log_level :: "string \<Rightarrow> string" where
  "log_level line =
     (if has_prefix line ''['' \<or> has_prefix line ''frame='' \<or> has_prefix line ''size='' then ''2'' else ''3'')"

text \<open>What one raw line posts: level and message.\<close>

definition log_line :: "string \<Rightarrow> (string \<times> string) list" where
  "log_line raw =
     (let line = trim_eol raw
      in if line = [] then []
         else (let line' = (if 8192 < length line then take 8192 line else line)
               in [(log_level line', line')]))"

definition lf_append :: "string \<Rightarrow> logForwarder \<Rightarrow> logForwarder" where
  "lf_append p l =
     (if lf_baseURL l = [] then l
      else (let (ls, r) = take_lines (lf_buf l @ p)
            in l\<lparr>lf_buf := r, lf_posts := lf_posts l @ concat (map log_line ls)\<rparr>))"

section \<open>The stderr error watch\<close>

text \<open>\<open>subBurnStderrRe\<close>, case-insensitive.\<close>

definition subBurnStderrRe :: "string \<Rightarrow> bool" where
  "subBurnStderrRe line =
     (let l = to_lower line
      in str_contains l ''fontconfig error'' \<or> str_contains l ''libass: fontselect''
         \<or> str_contains l ''cannot find font'' \<or> str_contains l ''no writable cache director'')"

record stderrErrorWatch =
  ew_buf :: string
  ew_seen :: "string list"
  ew_emitted :: "string list"

definition watch_line :: "string \<Rightarrow> stderrErrorWatch \<Rightarrow> stderrErrorWatch" where
  "watch_line raw s =
     (let line = trim_eol raw
      in if line = [] \<or> \<not> subBurnStderrRe line \<or> line \<in> set (ew_seen s) then s
         else s\<lparr>ew_seen := line # ew_seen s, ew_emitted := ew_emitted s @ [line]\<rparr>)"

definition max_line_buf :: nat where "max_line_buf = 64 * 1024"

definition ew_append :: "string \<Rightarrow> stderrErrorWatch \<Rightarrow> stderrErrorWatch" where
  "ew_append p s =
     (let buf = ew_buf s @ p;
          buf' = (if max_line_buf < length buf then drop (length buf - max_line_buf) buf else buf);
          (ls, r) = take_lines buf'
      in (fold watch_line ls s)\<lparr>ew_buf := r\<rparr>)"

section \<open>The ring buffer, lists of lines\<close>

record ringBuffer =
  rb_buf :: string
  rb_max :: nat

definition rb_append :: "string \<Rightarrow> ringBuffer \<Rightarrow> ringBuffer" where
  "rb_append p r =
     (let b = rb_buf r @ p
      in r\<lparr>rb_buf := (if rb_max r < length b then drop (length b - rb_max r) b else b)\<rparr>)"

text \<open>\<open>splitLines\<close>: the non-empty lines; \<open>cur\<close> is \<open>s[start:i]\<close>.\<close>

fun split_lines_from :: "string \<Rightarrow> string \<Rightarrow> string list" where
  "split_lines_from cur [] = (if cur = [] then [] else [cur])"
| "split_lines_from cur (c # cs) =
     (if c = CHR 0x0A then (if cur = [] then [] else [cur]) @ split_lines_from [] cs
      else split_lines_from (cur @ [c]) cs)"

definition splitLines :: "string \<Rightarrow> string list" where
  "splitLines s = split_lines_from [] s"

fun containsToken :: "string \<Rightarrow> string \<Rightarrow> bool" where
  "containsToken [] tok = (tok = [])"
| "containsToken (c # cs) tok = (take (length tok) (c # cs) = tok \<or> containsToken cs tok)"

definition filterVAAPIFilters :: "string list \<Rightarrow> string list" where
  "filterVAAPIFilters lines = filter (\<lambda>l. containsToken l ''vaapi'') lines"

definition collectFFmpegList :: "string option \<Rightarrow> string list" where
  "collectFFmpegList out = (case out of None \<Rightarrow> [] | Some s \<Rightarrow> splitLines s)"

text \<open>\<open>listRenderNodes\<close> on the entries of \<open>/dev/dri\<close> (\<open>None\<close>: it cannot be read).\<close>

definition listRenderNodes :: "string list option \<Rightarrow> string list" where
  "listRenderNodes entries = (case entries of
      None \<Rightarrow> []
    | Some ns \<Rightarrow> map (\<lambda>n. ''/dev/dri/'' @ n) (filter (\<lambda>n. 7 < length n \<and> take 7 n = ''renderD'') ns))"

definition countSegments :: "string \<Rightarrow> string list option \<Rightarrow> nat" where
  "countSegments cwd entries =
     (if cwd = [] then 0
      else case entries of
             None \<Rightarrow> 0
           | Some ns \<Rightarrow> length (filter (\<lambda>n. has_suffix n ''.ts'' \<or> has_suffix n ''.m4s'') ns))"

section \<open>Chunk boundaries do not matter\<close>

lemma index_byte_append:
  "index_byte (a @ b) p = (case index_byte a p of Some i \<Rightarrow> Some i | None \<Rightarrow> map_option ((+) (length a)) (index_byte b p))"
proof (induction a)
  case Nil
  then show ?case by (cases "index_byte b p") auto
next
  case (Cons c a)
  then show ?case by (cases "index_byte b p"; auto split: option.splits)
qed

lemma index_byte_less: "index_byte s p = Some i \<Longrightarrow> i < length s"
  by (induction s arbitrary: i) (auto split: if_splits)

lemma index_byte_None: "index_byte s p = None \<longleftrightarrow> (\<forall>c\<in>set s. \<not> p c)"
  by (induction s) auto

lemma take_lines_none: "index_byte s is_eol = None \<Longrightarrow> take_lines s = ([], s)"
  by (simp add: take_lines.simps)

lemma take_lines_append:
  "take_lines (a @ b) = (let (l1, r1) = take_lines a; (l2, r2) = take_lines (r1 @ b) in (l1 @ l2, r2))"
proof (induction a rule: take_lines.induct)
  case (1 a)
  show ?case
  proof (cases "index_byte a is_eol")
    case None
    then show ?thesis by (simp add: take_lines_none)
  next
    case (Some i)
    have i: "i < length a" using index_byte_less [OF Some] .
    have ab: "index_byte (a @ b) is_eol = Some i" using Some by (simp add: index_byte_append)
    show ?thesis
      using "1.IH" [OF Some] i Some ab
      by (subst take_lines.simps, subst (2) take_lines.simps) (simp add: Let_def case_prod_unfold)
  qed
qed

lemma take_lines_rest: "index_byte (snd (take_lines s)) is_eol = None"
proof (induction s rule: take_lines.induct)
  case (1 s)
  then show ?case
    by (subst take_lines.simps) (auto simp: Let_def case_prod_unfold split: option.splits)
qed

text \<open>A consumer of a chunked stream: feeding two chunks is feeding their concatenation.\<close>

locale chunk_consumer =
  fixes app :: "string \<Rightarrow> 's \<Rightarrow> 's" and ok :: "'s \<Rightarrow> bool"
  assumes app_ok: "ok s \<Longrightarrow> ok (app p s)"
    and app_Nil: "ok s \<Longrightarrow> app [] s = s"
    and app_append: "ok s \<Longrightarrow> app (p @ q) s = app q (app p s)"
begin

lemma any_chunks: "ok s \<Longrightarrow> fold app chunks s = app (concat chunks) s"
proof (induction chunks arbitrary: s)
  case Nil
  then show ?case by (simp add: app_Nil)
next
  case (Cons p chunks)
  then show ?case by (simp add: app_ok app_append)
qed

lemma same_bytes_same_state:
  "ok s \<Longrightarrow> concat cs = concat ds \<Longrightarrow> fold app cs s = fold app ds s"
  by (simp add: any_chunks)

end

definition no_line :: "string \<Rightarrow> bool" where
  "no_line buf \<longleftrightarrow> index_byte buf is_eol = None"

interpretation forwarder: chunk_consumer lf_append "\<lambda>l. no_line (lf_buf l)"
proof
  fix l :: logForwarder and p q
  assume ok: "no_line (lf_buf l)"
  show "no_line (lf_buf (lf_append p l))"
    using ok take_lines_rest by (simp add: lf_append_def no_line_def Let_def case_prod_unfold)
  show "lf_append [] l = l"
    using ok by (simp add: lf_append_def no_line_def take_lines_none)
  show "lf_append (p @ q) l = lf_append q (lf_append p l)"
    by (simp add: lf_append_def Let_def case_prod_unfold take_lines_append [of "lf_buf l @ p" q, simplified])
qed

lemma rb_append_last: "rb_append p r = r\<lparr>rb_buf := drop (length (rb_buf r @ p) - rb_max r) (rb_buf r @ p)\<rparr>"
  by (simp add: rb_append_def Let_def)

lemma drop_last_twice:
  "drop (length (drop (length a - m) a @ q) - m) (drop (length a - m) a @ q) = drop (length (a @ q) - m) (a @ q)"
proof (cases "m \<le> length a")
  case True
  then have "drop (length a - m) a @ q = drop (length a - m) (a @ q)" by simp
  then show ?thesis using True by (simp add: add.commute)
qed simp

interpretation tail_ring: chunk_consumer rb_append "\<lambda>r. length (rb_buf r) \<le> rb_max r"
proof
  fix r :: ringBuffer and p q
  assume ok: "length (rb_buf r) \<le> rb_max r"
  show "length (rb_buf (rb_append p r)) \<le> rb_max (rb_append p r)"
    by (auto simp: rb_append_last)
  show "rb_append [] r = r" using ok by (simp add: rb_append_def)
  show "rb_append (p @ q) r = rb_append q (rb_append p r)"
    using drop_last_twice [of "rb_buf r @ p" "rb_max r" q] unfolding rb_append_last by simp
qed

text \<open>The error watch has a cap on the line buffer; below it, chunks do not matter either.\<close>

definition ew_feed :: "string \<Rightarrow> stderrErrorWatch \<Rightarrow> stderrErrorWatch" where
  "ew_feed p s = (let (ls, r) = take_lines (ew_buf s @ p) in (fold watch_line ls s)\<lparr>ew_buf := r\<rparr>)"

lemma watch_line_buf: "watch_line x (s\<lparr>ew_buf := b\<rparr>) = (watch_line x s)\<lparr>ew_buf := b\<rparr>"
  by (simp add: watch_line_def Let_def)

lemma watch_lines_buf: "fold watch_line xs (s\<lparr>ew_buf := b\<rparr>) = (fold watch_line xs s)\<lparr>ew_buf := b\<rparr>"
  by (induction xs arbitrary: s) (simp_all add: watch_line_buf)

lemma watch_lines_keep [simp]: "ew_buf (fold watch_line xs s) = ew_buf s"
proof (induction xs arbitrary: s)
  case (Cons x xs)
  then show ?case by (simp add: watch_line_def Let_def)
qed simp

interpretation watch: chunk_consumer ew_feed "\<lambda>s. no_line (ew_buf s)"
proof
  fix s :: stderrErrorWatch and p q
  assume ok: "no_line (ew_buf s)"
  show "no_line (ew_buf (ew_feed p s))"
    using take_lines_rest by (simp add: ew_feed_def no_line_def Let_def case_prod_unfold)
  show "ew_feed [] s = s"
    using ok by (simp add: ew_feed_def no_line_def take_lines_none)
  show "ew_feed (p @ q) s = ew_feed q (ew_feed p s)"
    by (simp add: ew_feed_def Let_def case_prod_unfold take_lines_append [of "ew_buf s @ p" q, simplified] watch_lines_buf)
qed

lemma ew_append_feed: "length (ew_buf s) + length p \<le> max_line_buf \<Longrightarrow> ew_append p s = ew_feed p s"
  by (simp add: ew_append_def ew_feed_def Let_def)

lemma take_lines_rest_length: "length (snd (take_lines b)) \<le> length b"
proof (induction b rule: take_lines.induct)
  case (1 b)
  then show ?case
    by (subst take_lines.simps) (auto simp: Let_def case_prod_unfold split: option.splits intro: le_trans)
qed

lemma ew_buf_length: "length (ew_buf (ew_append p s)) \<le> max_line_buf"
  unfolding ew_append_def Let_def case_prod_unfold
  by (auto intro: le_trans [OF take_lines_rest_length])

text \<open>No line is reported twice, and only matching lines are.\<close>

definition watch_inv :: "stderrErrorWatch \<Rightarrow> bool" where
  "watch_inv s \<longleftrightarrow> distinct (ew_emitted s) \<and> set (ew_emitted s) = set (ew_seen s)
     \<and> list_all subBurnStderrRe (ew_emitted s)"

lemma watch_line_inv: "watch_inv s \<Longrightarrow> watch_inv (watch_line raw s)"
  by (auto simp: watch_inv_def watch_line_def Let_def)

lemma watch_lines_inv: "watch_inv s \<Longrightarrow> watch_inv (fold watch_line ls s)"
  by (induction ls arbitrary: s) (auto intro: watch_line_inv)

interpretation watchm: machine ew_append watch_inv
proof
  fix s p assume "watch_inv s"
  then have "watch_inv (fold watch_line ls s)" for ls by (rule watch_lines_inv)
  then show "watch_inv (ew_append p s)"
    by (simp add: ew_append_def Let_def case_prod_unfold watch_inv_def)
qed

section \<open>Facts about the lists of lines\<close>

lemma containsToken_iff: "containsToken s tok \<longleftrightarrow> str_contains s tok"
proof -
  have pre: "take (length tok) s = tok \<longleftrightarrow> has_prefix s tok" for s :: string
    by (metis append_eq_conv_conj append_take_drop_id has_prefix_iff)
  show ?thesis
  proof (induction s)
    case Nil
    show ?case by (auto simp: str_contains_iff)
  next
    case (Cons c s)
    have "str_contains (c # s) tok \<longleftrightarrow> has_prefix (c # s) tok \<or> str_contains s tok"
      unfolding str_contains_iff has_prefix_iff by (metis append_Cons append_Nil list.exhaust list.inject)
    then show ?case using Cons pre by simp
  qed
qed

lemma splitLines_concat:
  "concat (split_lines_from cur s) = cur @ filter (\<lambda>c. c \<noteq> CHR 0x0A) s"
  by (induction cur s rule: split_lines_from.induct) auto

lemma splitLines_lines:
  "CHR 0x0A \<notin> set cur \<Longrightarrow> l \<in> set (split_lines_from cur s) \<Longrightarrow> l \<noteq> [] \<and> CHR 0x0A \<notin> set l"
  by (induction cur s rule: split_lines_from.induct) (auto split: if_splits)

end
