(* ===== verification/WorkerAgent.thy ===== *)
theory WorkerAgent
  imports WorkerStream
begin

text \<open>
  The worker daemon's own state (\<open>src/worker/agent/main.go\<close>, \<open>drain.go\<close>, \<open>register.go\<close>,
  \<open>checkpoint.go\<close>, \<open>metrics.go\<close>, \<open>probe.go\<close>): the registry of running tasks, admission of a task,
  draining, the registration loop and the small parsers. What the process table, the environment
  and ffprobe answer are arguments.
\<close>

section \<open>The registry\<close>

text \<open>\<open>rt_ptr\<close> is the Go pointer of the task; \<open>cancel\<close> is recorded in \<open>rg_cancelled\<close>, and
  \<open>rg_live\<close> holds the handlers that have registered and not yet run their deferred \<open>unregister\<close>.\<close>

record runningTask =
  rt_ptr :: nat
  rt_argv :: argv
  rt_env :: env
  rt_cwd :: string
  rt_sourcePath :: string
  rt_progressURL :: string
  rt_seekOffsetS :: go_float
  rt_startedAt :: int
  rt_lastSeq :: int
  rt_pid :: "int option"

record taskRegistry =
  rg_tasks :: "(string \<times> runningTask) list"
  rg_cancelled :: "nat list"
  rg_live :: "(nat \<times> string) list"

definition reg_register :: "string \<Rightarrow> runningTask \<Rightarrow> taskRegistry \<Rightarrow> taskRegistry" where
  "reg_register sid t r =
     (let r1 = (case map_of (rg_tasks r) sid of
                  Some prev \<Rightarrow> r\<lparr>rg_cancelled := rt_ptr prev # rg_cancelled r\<rparr>
                | None \<Rightarrow> r)
      in r1\<lparr>rg_tasks := AList.update sid t (rg_tasks r1)\<rparr>)"

definition reg_unregister :: "string \<Rightarrow> taskRegistry \<Rightarrow> taskRegistry" where
  "reg_unregister sid r = r\<lparr>rg_tasks := AList.delete sid (rg_tasks r)\<rparr>"

definition reg_activeCount :: "taskRegistry \<Rightarrow> nat" where
  "reg_activeCount r = length (rg_tasks r)"

definition reg_kill :: "string \<Rightarrow> taskRegistry \<Rightarrow> bool \<times> taskRegistry" where
  "reg_kill sid r = (case map_of (rg_tasks r) sid of
     None \<Rightarrow> (False, r)
   | Some t \<Rightarrow> (True, r\<lparr>rg_cancelled := rt_ptr t # rg_cancelled r\<rparr>))"

definition reg_get :: "string \<Rightarrow> taskRegistry \<Rightarrow> runningTask option" where
  "reg_get sid r = map_of (rg_tasks r) sid"

text \<open>The two ends of a task handler: it registers its task, and its deferred function
  unregisters the session id.\<close>

datatype reg_event = Spawn string runningTask | Exit nat | Kill string

fun reg_step :: "reg_event \<Rightarrow> taskRegistry \<Rightarrow> taskRegistry" where
  "reg_step (Spawn sid t) r =
     (if rt_ptr t \<in> fst ` set (rg_live r) then r
      else (reg_register sid t r)\<lparr>rg_live := (rt_ptr t, sid) # rg_live r\<rparr>)"
| "reg_step (Exit ptr) r = (case map_of (rg_live r) ptr of
     None \<Rightarrow> r
   | Some sid \<Rightarrow> (reg_unregister sid r)\<lparr>rg_live := AList.delete ptr (rg_live r)\<rparr>)"
| "reg_step (Kill sid) r = snd (reg_kill sid r)"

definition empty_registry :: taskRegistry where
  "empty_registry = \<lparr>rg_tasks = [], rg_cancelled = [], rg_live = []\<rparr>"

section \<open>Admission and the small handlers\<close>

definition maxSessions :: "string \<Rightarrow> int" where
  "maxSessions v = (if v = [] then 0 else case atoi v of None \<Rightarrow> 0 | Some n \<Rightarrow> if n < 0 then 0 else n)"

record task_envelope =
  te_session :: string
  te_args :: argv

datatype admission = Refuse int | Admit

definition handleTask_admit ::
    "bool \<Rightarrow> task_envelope option \<Rightarrow> bool \<Rightarrow> int \<Rightarrow> taskRegistry \<Rightarrow> admission" where
  "handleTask_admit is_post decoded draining cap r =
     (if \<not> is_post then Refuse 405
      else case decoded of
             None \<Rightarrow> Refuse 400
           | Some req \<Rightarrow>
               if te_session req = [] then Refuse 400
               else if te_args req = [] then Refuse 400
               else if draining then Refuse 503
               else if 0 < cap \<and> cap \<le> int (reg_activeCount r) then Refuse 503
               else Admit)"

definition worker_handleReady :: "bool \<Rightarrow> bool \<Rightarrow> int \<times> string" where
  "worker_handleReady draining ready =
     (if draining then (503, ''draining\<newline>'')
      else if ready then (200, ''ready\<newline>'') else (503, ''warming\<newline>''))"

record agent_capability =
  ac_ffmpegOK :: bool
  ac_hwAccels :: "string list"
  ac_hwFilters :: "string list"
  ac_renderNodes :: "string list"
  ac_activeSessions :: int
  ac_maxSessions :: int
  ac_gpuLoad :: go_float
  ac_gpuEngines :: int
  ac_backend :: string
  ac_ready :: bool
  ac_draining :: bool

definition handleCapability ::
    "bool \<Rightarrow> string option \<Rightarrow> string option \<Rightarrow> string list option \<Rightarrow> string \<Rightarrow> (go_float \<times> int) option
       \<Rightarrow> string \<Rightarrow> bool \<Rightarrow> bool \<Rightarrow> taskRegistry \<Rightarrow> agent_capability" where
  "handleCapability ffmpeg hwaccels filters dri capenv sampler backend ready draining r =
     \<lparr>ac_ffmpegOK = ffmpeg, ac_hwAccels = collectFFmpegList hwaccels,
      ac_hwFilters = filterVAAPIFilters (collectFFmpegList filters), ac_renderNodes = listRenderNodes dri,
      ac_activeSessions = int (reg_activeCount r), ac_maxSessions = maxSessions capenv,
      ac_gpuLoad = (case sampler of None \<Rightarrow> 0 | Some (l, n) \<Rightarrow> l),
      ac_gpuEngines = (case sampler of None \<Rightarrow> 0 | Some (l, n) \<Rightarrow> n),
      ac_backend = backend, ac_ready = ready \<and> \<not> draining, ac_draining = draining\<rparr>"

record checkpoint =
  cpt_session :: string
  cpt_args :: argv
  cpt_env :: env
  cpt_cwd :: string
  cpt_sourcePath :: string
  cpt_progressURL :: string
  cpt_seekOffset :: go_float
  cpt_lastSeq :: int
  cpt_startedAt :: int
  cpt_pid :: int

definition handleCheckpoint :: "string \<Rightarrow> taskRegistry \<Rightarrow> checkpoint option" where
  "handleCheckpoint sid r = (case reg_get sid r of
     None \<Rightarrow> None
   | Some t \<Rightarrow> Some \<lparr>cpt_session = sid, cpt_args = rt_argv t, cpt_env = rt_env t, cpt_cwd = rt_cwd t,
       cpt_sourcePath = rt_sourcePath t, cpt_progressURL = rt_progressURL t,
       cpt_seekOffset = rt_seekOffsetS t, cpt_lastSeq = rt_lastSeq t, cpt_startedAt = rt_startedAt t,
       cpt_pid = (case rt_pid t of Some pid \<Rightarrow> pid | None \<Rightarrow> 0)\<rparr>)"

datatype by_id_reply = Status int | CheckpointReply checkpoint

definition split_task_path :: "string \<Rightarrow> string \<times> string" where
  "split_task_path path =
     (let rest = drop (length ''/task/'') path
      in case index_byte rest (\<lambda>c. c = CHR ''/'') of
           None \<Rightarrow> (rest, '''')
         | Some i \<Rightarrow> (take i rest, drop (Suc i) rest))"

definition worker_handleTaskByID :: "string \<Rightarrow> string \<Rightarrow> taskRegistry \<Rightarrow> by_id_reply \<times> taskRegistry" where
  "worker_handleTaskByID meth path r =
     (let (sid, suffix) = split_task_path path
      in if suffix = ''kill'' then
           (if meth \<noteq> ''POST'' then (Status 405, r)
            else (let (ok, r') = reg_kill sid r in (Status (if ok then 202 else 404), r')))
         else if suffix = ''checkpoint'' then
           (if meth \<noteq> ''GET'' then (Status 405, r)
            else (case handleCheckpoint sid r of None \<Rightarrow> Status 404 | Some c \<Rightarrow> CheckpointReply c, r))
         else (Status 404, r))"

section \<open>Draining\<close>

text \<open>The accumulator and the product are Go ints of 64 bits and wrap around.\<close>

fun drain_digits :: "string \<Rightarrow> u64 \<Rightarrow> u64 option" where
  "drain_digits [] n = Some n"
| "drain_digits (c # cs) n =
     (if is_digit c then drain_digits cs (n * 10 + of_nat (digit_val c)) else None)"

definition nanos :: "u64 \<Rightarrow> int" where
  "nanos n = sint (n * 1000000000)"

definition drainTimeout :: "string \<Rightarrow> int" where
  "drainTimeout v =
     (if v = [] then 10 * 1000000000
      else case drain_digits v 0 of None \<Rightarrow> 10 * 1000000000 | Some n \<Rightarrow> nanos n)"

text \<open>\<open>waitForSessions\<close> with the 250 ms poll of its only caller; \<open>cnt t\<close> is \<open>activeCount()\<close> at \<open>t\<close>.\<close>

function waitForSessions :: "(int \<Rightarrow> nat) \<Rightarrow> int \<Rightarrow> int \<Rightarrow> nat \<times> int" where
  "waitForSessions cnt deadline now =
     (if cnt now = 0 \<or> \<not> now < deadline then (cnt now, now)
      else waitForSessions cnt deadline (now + 250000000))"
  by pat_completeness auto
termination
  by (relation "measure (\<lambda>(c, d, t). nat (d - t))") auto

declare waitForSessions.simps [simp del]

text \<open>After the signal: draining is on, then the wait; the number of sessions left.\<close>

definition serveWithDrain :: "string \<Rightarrow> (int \<Rightarrow> nat) \<Rightarrow> int \<Rightarrow> bool \<times> nat" where
  "serveWithDrain v cnt now = (True, fst (waitForSessions cnt (now + drainTimeout v) now))"

section \<open>The registration loop\<close>

definition maxBackoff :: int where "maxBackoff = 30 * 1000000000"

text \<open>One pass: whether the POST succeeded, the backoff before, the sleep and the backoff after.\<close>

definition register_pass :: "int \<Rightarrow> bool \<Rightarrow> int \<Rightarrow> int \<times> int" where
  "register_pass interval ok backoff =
     (if ok then (interval, interval)
      else (backoff, if maxBackoff < backoff * 2 then maxBackoff else backoff * 2))"

fun register_sleeps :: "int \<Rightarrow> bool list \<Rightarrow> int \<Rightarrow> int list" where
  "register_sleeps interval [] backoff = []"
| "register_sleeps interval (ok # oks) backoff =
     (let (sleep, backoff') = register_pass interval ok backoff
      in sleep # register_sleeps interval oks backoff')"

definition registerLoop :: "int \<Rightarrow> bool list \<Rightarrow> int list" where
  "registerLoop interval oks = register_sleeps interval oks interval"

definition resolveAdvertisedHost :: "string \<Rightarrow> string option \<Rightarrow> string" where
  "resolveAdvertisedHost v hostname =
     (if trim_space v \<noteq> [] then trim_space v
      else case hostname of None \<Rightarrow> '''' | Some h \<Rightarrow> h)"

definition worker_envSecondsOr :: "string \<Rightarrow> int \<Rightarrow> int" where
  "worker_envSecondsOr v dflt =
     (if v = [] then dflt else case atoi v of None \<Rightarrow> dflt | Some n \<Rightarrow> if n < 1 then dflt else n)"

text \<open>\<open>startRegisterLoop\<close>: the URL, the advertised host and the interval, or no loop.\<close>

definition startRegisterLoop :: "string \<Rightarrow> string \<Rightarrow> string option \<Rightarrow> string \<Rightarrow> (string \<times> string \<times> int) option" where
  "startRegisterLoop orchenv hostenv hostname hbenv =
     (let orch = trim_space orchenv
      in if orch = [] then None
         else
           (let url = trim_right (\<lambda>c. c = CHR ''/'') orch; host = resolveAdvertisedHost hostenv hostname
            in if host = [] then None
               else Some (url @ ''/register'', host, worker_envSecondsOr hbenv 5 * 1000000000)))"

definition postRegister :: "int option \<Rightarrow> bool" where
  "postRegister resp = (case resp of None \<Rightarrow> False | Some st \<Rightarrow> 200 \<le> st \<and> st < 300)"

section \<open>Environment, client info, speed\<close>

definition env_key :: "string \<Rightarrow> string option" where
  "env_key kv = map_option (\<lambda>i. take i kv) (index_byte kv (\<lambda>c. c = CHR ''=''))"

text \<open>\<open>supplied\<close> is the map in Go's iteration order.\<close>

definition buildEnv :: "string list \<Rightarrow> env \<Rightarrow> string list" where
  "buildEnv base supplied =
     (if supplied = [] then base
      else filter (\<lambda>kv. case env_key kv of None \<Rightarrow> True | Some k \<Rightarrow> k \<notin> fst ` set supplied) base
             @ map (\<lambda>(k, v). k @ ''='' @ v) supplied)"

record captureClient =
  cl_product :: string
  cl_device :: string
  cl_platform :: string
  cl_version :: string
  cl_user :: string

definition env_get :: "env \<Rightarrow> string \<Rightarrow> string" where
  "env_get en k = (case map_of en k of Some v \<Rightarrow> v | None \<Rightarrow> '''')"

definition captureClientInfo :: "env \<Rightarrow> captureClient option" where
  "captureClientInfo en =
     (let c = \<lparr>cl_product = env_get en ''X_PLEX_PRODUCT'', cl_device = env_get en ''X_PLEX_DEVICE_NAME'',
               cl_platform = env_get en ''X_PLEX_PLATFORM'', cl_version = env_get en ''X_PLEX_VERSION'',
               cl_user = env_get en ''X_PLEX_USERNAME''\<rparr>
      in if cl_product c = [] \<and> cl_device c = [] \<and> cl_platform c = [] \<and> cl_version c = [] \<and> cl_user c = []
         then None else Some c)"

definition is_speed_char :: "char \<Rightarrow> bool" where
  "is_speed_char c \<longleftrightarrow> c = CHR ''.'' \<or> is_digit c"

text \<open>The digit loop: value, decimal weight, whether a dot was seen.\<close>

fun speed_value :: "string \<Rightarrow> go_float \<Rightarrow> go_float \<Rightarrow> bool \<Rightarrow> go_float" where
  "speed_value [] v dec dot = v"
| "speed_value (c # cs) v dec dot =
     (if c = CHR ''.'' then speed_value cs v dec True
      else if dot then speed_value cs (v + of_nat (digit_val c) / (dec * 10)) (dec * 10) dot
      else speed_value cs (v * 10 + of_nat (digit_val c)) dec dot)"

lemma str_index_length: "str_index s p = Some i \<Longrightarrow> i + length p \<le> length s"
proof (induction s arbitrary: i)
  case Nil
  then show ?case by (auto simp: has_prefix_iff split: if_splits)
next
  case (Cons c s)
  then show ?case
    by (auto simp: has_prefix_iff split: if_splits) (metis add_le_mono1 length_append length_Cons le_add1)
qed

function lastSpeed_from :: "string \<Rightarrow> go_float \<Rightarrow> go_float" where
  "lastSpeed_from s lastVal =
     (case str_index s ''speed='' of
        None \<Rightarrow> lastVal
      | Some i \<Rightarrow>
          (let t = dropWhile (\<lambda>c. c = CHR '' '') (drop (i + 6) s);
               ds = takeWhile is_speed_char t;
               rest = dropWhile is_speed_char t
           in if ds = [] then lastSpeed_from t lastVal
              else lastSpeed_from rest
                     (if rest \<noteq> [] \<and> hd rest = CHR ''x'' then speed_value ds 0 1 False else lastVal)))"
  by pat_completeness auto
termination
proof (relation "measure (\<lambda>(s, v). length s)", goal_cases)
  case (2 s lastVal i t ds rest)
  have "length t \<le> length s - (i + 6)" unfolding 2(2) by (metis length_drop length_dropWhile_le)
  with str_index_length [OF 2(1)] show ?case by simp
next
  case (3 s lastVal i t ds rest)
  have "length t \<le> length s - (i + 6)" unfolding 3(2) by (metis length_drop length_dropWhile_le)
  moreover have "length rest \<le> length t" unfolding 3(4) by (rule length_dropWhile_le)
  ultimately show ?case using str_index_length [OF 3(1)] by simp
qed simp

declare lastSpeed_from.simps [simp del]

definition lastSpeedX :: "string \<Rightarrow> go_float" where
  "lastSpeedX s = lastSpeed_from s 0"

definition recordSpeedFromOutput :: "string \<Rightarrow> go_float list \<Rightarrow> go_float list" where
  "recordSpeedFromOutput out obs = (if lastSpeedX out \<le> 0 then obs else obs @ [lastSpeedX out])"

section \<open>ffprobe output\<close>

fun color_lines :: "string list \<Rightarrow> string \<times> string \<times> string \<Rightarrow> string \<times> string \<times> string" where
  "color_lines [] acc = acc"
| "color_lines (l # ls) (tr, pr, sp) =
     color_lines ls (case str_cut (trim_space l) (CHR ''='') of
        None \<Rightarrow> (tr, pr, sp)
      | Some (k, v) \<Rightarrow> if k = ''color_transfer'' then (v, pr, sp)
                    else if k = ''color_primaries'' then (tr, v, sp)
                    else if k = ''color_space'' then (tr, pr, v) else (tr, pr, sp))"

definition probeVideoColor :: "string \<Rightarrow> string option \<Rightarrow> string \<times> string \<times> string" where
  "probeVideoColor source out =
     (if source = [] then ('''', '''', '''')
      else case out of None \<Rightarrow> ('''', '''', '''')
           | Some s \<Rightarrow> color_lines (split_on (CHR 0x0A) s) ('''', '''', ''''))"

text \<open>The stream selector given to ffprobe: a leading integer input index is stripped.\<close>

definition probe_selector :: "string \<Rightarrow> string" where
  "probe_selector spec =
     (case index_byte spec (\<lambda>c. c = CHR '':'') of
        Some i \<Rightarrow> if 0 < i \<and> atoi (take i spec) \<noteq> None then drop (Suc i) spec else spec
      | None \<Rightarrow> spec)"

definition probeSubtitleCodec :: "(string \<Rightarrow> string option) \<Rightarrow> string \<Rightarrow> string \<Rightarrow> string" where
  "probeSubtitleCodec run source spec =
     (if source = [] \<or> spec = [] then ''''
      else case run (probe_selector spec) of None \<Rightarrow> '''' | Some out \<Rightarrow> trim_space out)"

section \<open>The registry and the running handlers\<close>

text \<open>Every registered task belongs to a handler that is still running, and the two lists have
  distinct keys. The converse fails: see \<open>replaced_task_is_lost\<close>.\<close>

definition reg_ok :: "taskRegistry \<Rightarrow> bool" where
  "reg_ok r \<longleftrightarrow> distinct_keys (rg_tasks r) \<and> distinct_keys (rg_live r)
     \<and> (\<forall>(sid, t)\<in>set (rg_tasks r). map_of (rg_live r) (rt_ptr t) = Some sid)"

lemma empty_registry_ok: "reg_ok empty_registry"
  by (simp add: reg_ok_def empty_registry_def distinct_keys_def)

lemma reg_register_fields [simp]:
  "rg_tasks (reg_register sid t r) = AList.update sid t (rg_tasks r)"
  "rg_live (reg_register sid t r) = rg_live r"
  by (simp_all add: reg_register_def Let_def split: option.split)

lemma set_alist_update: "distinct_keys m \<Longrightarrow> x \<in> set (AList.update k v m) \<Longrightarrow> x = (k, v) \<or> x \<in> set m \<and> fst x \<noteq> k"
proof (induction m)
  case (Cons p m)
  then show ?case by (cases p) (auto simp: distinct_keys_def split: if_splits)
qed (simp)

lemma set_alist_delete: "x \<in> set (AList.delete k m) \<longleftrightarrow> x \<in> set m \<and> fst x \<noteq> k"
  by (auto simp: AList.delete_eq)

lemma reg_step_ok:
  assumes "reg_ok r"
  shows "reg_ok (reg_step ev r)"
proof (cases ev)
  case (Spawn sid t)
  show ?thesis
  proof (cases "rt_ptr t \<in> fst ` set (rg_live r)")
    case False
    then have new: "map_of (rg_live r) (rt_ptr t) = None" by (simp add: map_of_eq_None_iff)
    have d: "distinct_keys (rg_tasks r)" using assms by (simp add: reg_ok_def)
    have "map_of ((rt_ptr t, sid) # rg_live r) (rt_ptr t') = Some sid'"
      if m: "(sid', t') \<in> set (AList.update sid t (rg_tasks r))" for sid' t'
      using set_alist_update [OF d m] assms new by (auto simp: reg_ok_def)
    then have "\<forall>(sid', t')\<in>set (AList.update sid t (rg_tasks r)).
        map_of ((rt_ptr t, sid) # rg_live r) (rt_ptr t') = Some sid'" by blast
    moreover have "distinct_keys (AList.update sid t (rg_tasks r))" by (rule gomap.ok_put [OF d])
    moreover have "distinct_keys ((rt_ptr t, sid) # rg_live r)"
      using assms False by (simp add: reg_ok_def distinct_keys_def)
    moreover have "reg_step ev r = (reg_register sid t r)\<lparr>rg_live := (rt_ptr t, sid) # rg_live r\<rparr>"
      using Spawn False by simp
    ultimately show ?thesis unfolding reg_ok_def by (simp del: map_of.simps)
  qed (use assms Spawn in simp)
next
  case (Exit ptr)
  show ?thesis
  proof (cases "map_of (rg_live r) ptr")
    case (Some sid)
    have "map_of (AList.delete ptr (rg_live r)) (rt_ptr t) = Some sid'"
      if m: "(sid', t) \<in> set (AList.delete sid (rg_tasks r))" for sid' t
      using m assms Some by (auto simp: reg_ok_def set_alist_delete delete_conv')
    then show ?thesis
      using assms Exit Some
      by (auto simp: reg_ok_def reg_unregister_def gomap.ok_remove)
  qed (use assms Exit in simp)
next
  case (Kill sid)
  then show ?thesis using assms by (auto simp: reg_ok_def reg_kill_def split: option.split)
qed

interpretation regm: machine reg_step reg_ok
  by unfold_locales (rule reg_step_ok)

lemma active_at_most_live:
  assumes "reg_ok r"
  shows "reg_activeCount r \<le> length (rg_live r)"
proof -
  let ?f = "\<lambda>(sid, t). (rt_ptr t, sid) :: nat \<times> string"
  have "inj_on ?f (set (rg_tasks r))"
    using assms by (auto simp: inj_on_def reg_ok_def distinct_keys_def dest: eq_key_imp_eq_value)
  moreover have "?f ` set (rg_tasks r) \<subseteq> set (rg_live r)"
    using assms by (auto simp: reg_ok_def dest: map_of_SomeD)
  ultimately have "card (set (rg_tasks r)) \<le> card (set (rg_live r))" by (metis card_inj_on_le List.finite_set)
  also have "\<dots> \<le> length (rg_live r)" by (rule card_length)
  finally show ?thesis
    using assms distinct_card [of "rg_tasks r"]
    by (simp add: reg_activeCount_def reg_ok_def distinct_keys_def distinct_map)
qed

text \<open>As long as no session id is registered while an earlier handler of it runs, the registry
  lists exactly the running handlers.\<close>

definition fresh_ids :: "taskRegistry \<Rightarrow> bool" where
  "fresh_ids r \<longleftrightarrow> distinct (map snd (rg_live r))
     \<and> (\<forall>(ptr, sid)\<in>set (rg_live r). \<exists>t. map_of (rg_tasks r) sid = Some t \<and> rt_ptr t = ptr)"

lemma fresh_ids_step:
  assumes "reg_ok r" and "fresh_ids r"
    and "\<forall>sid t. ev = Spawn sid t \<longrightarrow> sid \<notin> snd ` set (rg_live r)"
  shows "fresh_ids (reg_step ev r)"
proof (cases ev)
  case (Spawn sid t)
  show ?thesis
  proof (cases "rt_ptr t \<in> fst ` set (rg_live r)")
    case False
    have new: "sid \<notin> snd ` set (rg_live r)" using assms(3) Spawn by blast
    have "\<exists>t'. map_of (AList.update sid t (rg_tasks r)) sid' = Some t' \<and> rt_ptr t' = ptr'"
      if "(ptr', sid') \<in> set (rg_live r)" for ptr' sid'
    proof -
      have "sid' \<noteq> sid" using that new by force
      then show ?thesis using that assms(2) by (auto simp: fresh_ids_def gomap.lookup_put)
    qed
    moreover have "map_of (AList.update sid t (rg_tasks r)) sid = Some t" by (simp add: gomap.lookup_put)
    ultimately show ?thesis using assms(2) False Spawn new by (auto simp: fresh_ids_def)
  qed (use assms Spawn in simp)
next
  case (Exit ptr)
  show ?thesis
  proof (cases "map_of (rg_live r) ptr")
    case (Some sid)
    have d: "distinct (map snd (rg_live r))" using assms(2) by (simp add: fresh_ids_def)
    have other: "sid' \<noteq> sid" if "(ptr', sid') \<in> set (rg_live r)" "ptr' \<noteq> ptr" for ptr' sid'
    proof
      assume "sid' = sid"
      with that(1) map_of_SomeD [OF Some] have "(ptr', sid) \<in> set (rg_live r)" "(ptr, sid) \<in> set (rg_live r)" by auto
      then have "(ptr', sid) = (ptr, sid)"
        using d by (metis (no_types, lifting) distinct_map inj_onD snd_conv)
      with that(2) show False by simp
    qed
    have "distinct (map snd (AList.delete ptr (rg_live r)))"
      using d by (auto simp: AList.delete_eq distinct_map inj_on_def)
    then show ?thesis
      using assms(2) Exit Some
      by (auto simp: fresh_ids_def reg_unregister_def set_alist_delete gomap.lookup_remove dest: other)
  qed (use assms Exit in simp)
next
  case (Kill sid)
  then show ?thesis using assms(2) by (auto simp: fresh_ids_def reg_kill_def split: option.split)
qed

lemma fresh_ids_count:
  assumes "reg_ok r" and "fresh_ids r"
  shows "reg_activeCount r = length (rg_live r)"
proof (rule antisym [OF active_at_most_live [OF assms(1)]])
  have "snd ` set (rg_live r) \<subseteq> fst ` set (rg_tasks r)"
    using assms(2) by (fastforce simp: fresh_ids_def dest: map_of_SomeD intro: rev_image_eqI)
  then have "card (set (map snd (rg_live r))) \<le> card (set (map fst (rg_tasks r)))"
    by (intro card_mono) simp_all
  moreover have "card (set (map snd (rg_live r))) = length (rg_live r)"
    using assms(2) by (metis distinct_card fresh_ids_def length_map)
  moreover have "card (set (map fst (rg_tasks r))) \<le> length (rg_tasks r)"
    by (metis card_length length_map)
  ultimately show "length (rg_live r) \<le> reg_activeCount r" by (simp add: reg_activeCount_def)
qed

text \<open>A session id registered again: the first handler's deferred \<open>unregister\<close> removes the second
  handler's entry, while the second ffmpeg runs on.\<close>

lemma replaced_task_is_lost:
  assumes "rt_ptr t1 \<noteq> rt_ptr t2" and "rt_ptr t1 \<notin> fst ` set (rg_live r)" and "rt_ptr t2 \<notin> fst ` set (rg_live r)"
  shows "reg_get sid (reg_step (Exit (rt_ptr t1)) (reg_step (Spawn sid t2) (reg_step (Spawn sid t1) r))) = None
    \<and> (rt_ptr t2, sid) \<in> set (rg_live (reg_step (Exit (rt_ptr t1)) (reg_step (Spawn sid t2) (reg_step (Spawn sid t1) r))))
    \<and> rt_ptr t1 \<in> set (rg_cancelled (reg_step (Exit (rt_ptr t1)) (reg_step (Spawn sid t2) (reg_step (Spawn sid t1) r))))"
  using assms by (auto simp: reg_get_def reg_unregister_def gomap.lookup_remove gomap.lookup_put set_alist_delete
      reg_register_def Let_def split: option.split)

section \<open>Draining and the cap\<close>

lemma draining_refuses: "handleTask_admit p d True cap r \<noteq> Admit"
  by (auto simp: handleTask_admit_def split: option.split)

lemma admitted_below_cap:
  "handleTask_admit p d draining cap r = Admit \<Longrightarrow> 0 < cap \<Longrightarrow> int (reg_activeCount r) < cap"
  by (auto simp: handleTask_admit_def split: option.splits if_splits)

lemma wait_result:
  "fst (waitForSessions cnt deadline now) = cnt (snd (waitForSessions cnt deadline now))
   \<and> (fst (waitForSessions cnt deadline now) = 0 \<or> deadline \<le> snd (waitForSessions cnt deadline now))
   \<and> snd (waitForSessions cnt deadline now) \<le> max now (deadline + 250000000)"
proof (induction cnt deadline now rule: waitForSessions.induct)
  case (1 cnt deadline now)
  show ?case
  proof (cases "cnt now = 0 \<or> \<not> now < deadline")
    case True
    then show ?thesis by (subst (1 2 3 4 5) waitForSessions.simps) auto
  next
    case False
    have "waitForSessions cnt deadline now = waitForSessions cnt deadline (now + 250000000)"
      using False by (subst waitForSessions.simps) simp
    then show ?thesis using 1 False by auto
  qed
qed

lemma drain_digits_val:
  "list_all is_digit s \<Longrightarrow> drain_digits s n = Some (of_nat (case parse_digits (unat n) s of Some v \<Rightarrow> v | None \<Rightarrow> 0))"
proof (induction s n rule: drain_digits.induct)
  case (2 c cs n)
  have gen: "of_nat (case parse_digits a cs of Some v \<Rightarrow> v | None \<Rightarrow> 0) =
      (of_nat (case parse_digits b cs of Some v \<Rightarrow> v | None \<Rightarrow> 0) :: u64)"
    if "(of_nat a :: u64) = of_nat b" "list_all is_digit cs" for a b
    using that
  proof (induction cs arbitrary: a b)
    case (Cons d ds)
    have "(of_nat (10 * a + digit_val d) :: u64) = of_nat (10 * b + digit_val d)"
      using Cons.prems(1) by simp
    then show ?case using Cons by simp
  qed simp
  have e: "of_nat (unat (n * 10 + of_nat (digit_val c))) = (of_nat (10 * unat n + digit_val c) :: u64)"
    by (simp add: mult.commute)
  from 2 gen [OF e] show ?case by simp
qed (simp add: drain_digits.simps)

lemma drainTimeout_value:
  assumes "list_all is_digit v" and "v \<noteq> []" and "digits_val v \<le> 9223372036"
  shows "drainTimeout v = int (digits_val v) * 1000000000"
proof -
  have n: "drain_digits v 0 = Some (of_nat (digits_val v))"
    using drain_digits_val [OF assms(1), of 0] by (simp add: digits_val_def split: option.split)
  have "nanos (of_nat (digits_val v)) = int (digits_val v) * 1000000000"
  proof -
    have "(of_nat (digits_val v) * 1000000000 :: u64) = of_int (int (digits_val v) * 1000000000)" by simp
    then have "nanos (of_nat (digits_val v)) = signed_take_bit 63 (int (digits_val v) * 1000000000)"
      unfolding nanos_def by (simp only: signed_of_int) simp
    also have "\<dots> = int (digits_val v) * 1000000000"
      using assms(3) by (intro signed_take_bit_int_eq_self) simp_all
    finally show ?thesis .
  qed
  then show ?thesis using n assms(2) by (simp add: drainTimeout_def)
qed

section \<open>Registration\<close>

lemma register_sleeps_bound:
  assumes "0 < interval"
  shows "0 < b \<Longrightarrow> b \<le> max interval maxBackoff \<Longrightarrow>
    list_all (\<lambda>s. 0 < s \<and> s \<le> max interval maxBackoff) (register_sleeps interval oks b)"
  using assms
  by (induction interval oks b rule: register_sleeps.induct) (auto simp: register_pass_def maxBackoff_def)

text \<open>After a success the next pass comes at the heartbeat interval.\<close>

lemma register_after_success:
  "register_sleeps interval (True # oks) b = interval # register_sleeps interval oks interval"
  by (simp add: register_pass_def)

section \<open>The environment of the child\<close>

lemma buildEnv_supplied:
  "(k, v) \<in> set supplied \<Longrightarrow> k @ ''='' @ v \<in> set (buildEnv base supplied)"
  by (force simp: buildEnv_def)

lemma env_key_entry: "CHR ''='' \<notin> set k \<Longrightarrow> env_key (k @ ''='' @ v) = Some k"
proof -
  assume k: "CHR ''='' \<notin> set k"
  have "index_byte (k @ CHR ''='' # v) (\<lambda>c. c = CHR ''='') = Some (length k)"
    using k by (induction k) auto
  then show ?thesis by (simp add: env_key_def)
qed

text \<open>No inherited value of an overridden variable survives.\<close>

lemma buildEnv_overrides:
  assumes "\<forall>(k, v)\<in>set supplied. CHR ''='' \<notin> set k" and "kv \<in> set (buildEnv base supplied)"
    and "env_key kv = Some k" and "k \<in> fst ` set supplied"
  shows "\<exists>v. (k, v) \<in> set supplied \<and> kv = k @ ''='' @ v"
proof -
  have "supplied \<noteq> []" using assms(4) by auto
  then obtain k' v where "(k', v) \<in> set supplied" "kv = k' @ ''='' @ v"
    using assms(2-4) by (auto simp: buildEnv_def)
  moreover then have "k' = k" using assms(1,3) env_key_entry [of k' v] by auto
  ultimately show ?thesis by blast
qed

end
