(* ===== verification/WorkerProgress.thy ===== *)
theory WorkerProgress
  imports WorkerAgent
begin

text \<open>
  Progress reporting to PMS (\<open>src/worker/agent/progress_report.go\<close>): the translation of ffmpeg's
  \<open>-progress\<close> blocks into PUTs, the prelude, the throttle flag, and what is read from ffprobe and
  from the argument vector about the streams. A request is its kind, the path suffix and the query
  parameters that are added; how \<open>net/url\<close> encodes them is left out. The answer of PMS to a request
  is an argument.
\<close>

section \<open>Throttle and requests\<close>

type_synonym params = "(string \<times> string) list"

datatype put_resp = PutBuildErr | PutTransport | PutAnswer int string

definition httpClass :: "int \<Rightarrow> string" where
  "httpClass code =
     (if 500 \<le> code then ''5xx'' else if 400 \<le> code then ''4xx''
      else if 300 \<le> code then ''3xx'' else if 200 \<le> code then ''2xx'' else ''1xx'')"

text \<open>\<open>doPlexPUT\<close>: whether the PUT counts as accepted, the throttle flag after it, the metric label.\<close>

definition doPlexPUT :: "string \<Rightarrow> put_resp \<Rightarrow> bool \<Rightarrow> bool \<times> bool \<times> string" where
  "doPlexPUT kind resp throttle =
     (case resp of
        PutBuildErr \<Rightarrow> (False, throttle, ''err'')
      | PutTransport \<Rightarrow> (False, False, ''err'')
      | PutAnswer code body \<Rightarrow>
          if 400 \<le> code then (False, False, httpClass code)
          else (True, if kind = ''progress'' then str_contains (take 4096 body) ''canThrottle'' else throttle,
                httpClass code))"

section \<open>One progress block\<close>

text \<open>\<open>n, _ := strconv.ParseInt(s, 10, 64)\<close>: 0 for a syntax error, the nearest value out of range.\<close>

definition parse_int_lossy :: "string \<Rightarrow> int" where
  "parse_int_lossy s =
     (let (neg, ds) = strip_sign s
      in case parse_nat ds of
           None \<Rightarrow> 0
         | Some n \<Rightarrow> if neg then max (- (2 ^ 63)) (- int n) else min (2 ^ 63 - 1) (int n))"

definition blk_get :: "params \<Rightarrow> string \<Rightarrow> string" where
  "blk_get blk k = (case map_of blk k of Some v \<Rightarrow> v | None \<Rightarrow> '''')"

definition speed_text :: "string \<Rightarrow> string" where
  "speed_text v = trim_suffix (trim_space v) ''x''"

text \<open>\<open>None\<close> is NaN.\<close>

definition block_speed :: "params \<Rightarrow> go_float option" where
  "block_speed blk =
     (let v = blk_get blk ''speed''
      in if v \<noteq> [] \<and> v \<noteq> ''N/A'' then parse_float (speed_text v) else None)"

definition progress_pct :: "go_float \<Rightarrow> go_float \<Rightarrow> go_float" where
  "progress_pct durationS outS =
     (if 0 < durationS
      then (let pct = outS / durationS * 100;
                pct1 = (if pct < 0 then 0 else pct)
            in if 100 < pct1 then 100 else pct1)
      else 0)"

definition progress_size :: "params \<Rightarrow> int" where
  "progress_size blk =
     (let v = blk_get blk ''total_size''
      in if v \<noteq> [] \<and> v \<noteq> ''N/A'' then (case atoi v of Some n \<Rightarrow> n | None \<Rightarrow> -1) else -1)"

definition progress_remaining :: "go_float \<Rightarrow> go_float \<Rightarrow> go_float option \<Rightarrow> go_float" where
  "progress_remaining durationS outS speed =
     (case speed of
        Some f \<Rightarrow> if 0 < durationS \<and> 0 < f
                  then (let r = (durationS - outS) / f in if r < 0 then 0 else r) else -1
      | None \<Rightarrow> -1)"

text \<open>\<open>fmt\<close> is \<open>FormatFloat(_, 'f', -1, 64)\<close>, the shortest text that reads back.\<close>

definition putProgressTick :: "(go_float \<Rightarrow> string) \<Rightarrow> go_float \<Rightarrow> params \<Rightarrow> bool \<Rightarrow> params" where
  "putProgressTick fmt durationS blk throttled =
     (let outS = of_int (parse_int_lossy (blk_get blk ''out_time_us'')) / 1000000;
          speed = block_speed blk;
          remaining = progress_remaining durationS outS speed
      in [(''progress'', format_fixed 1 (progress_pct durationS outS)),
          (''size'', itoa (progress_size blk)),
          (''remaining'', if 0 \<le> remaining then format_fixed 0 remaining else ''-1'')]
         @ (if throttled then []
            else [(''speed'', case speed of Some f \<Rightarrow> fmt f | None \<Rightarrow> ''inf'')]))"

section \<open>The reporter\<close>

record reporter =
  pr_block :: params
  pr_throttle :: bool
  pr_puts :: "params list"
  pr_ticks :: nat
  pr_speed :: "go_float option"

definition gauge_speed :: "params \<Rightarrow> go_float option \<Rightarrow> go_float option" where
  "gauge_speed blk old = (case block_speed blk of Some f \<Rightarrow> if 0 < f then Some f else old | None \<Rightarrow> old)"

text \<open>One scanned line; \<open>resp k\<close> is PMS's answer to the \<open>k\<close>-th progress PUT.\<close>

definition report_line ::
    "(go_float \<Rightarrow> string) \<Rightarrow> go_float \<Rightarrow> (nat \<Rightarrow> put_resp) \<Rightarrow> string \<Rightarrow> reporter \<Rightarrow> reporter" where
  "report_line fmt durationS resp line s =
     (if line = [] then s
      else case str_cut line (CHR ''='') of
             None \<Rightarrow> s
           | Some (k, v) \<Rightarrow>
               (let blk = AList.update k v (pr_block s)
                in if k \<noteq> ''progress'' then s\<lparr>pr_block := blk\<rparr>
                   else
                     (let q = putProgressTick fmt durationS blk (pr_throttle s);
                          (ok, thr, cls) = doPlexPUT ''progress'' (resp (length (pr_puts s))) (pr_throttle s)
                      in s\<lparr>pr_block := [], pr_throttle := thr, pr_puts := pr_puts s @ [q],
                           pr_ticks := (if ok then pr_ticks s + 1 else pr_ticks s),
                           pr_speed := gauge_speed blk (pr_speed s)\<rparr>)))"

definition runProgressReporter ::
    "(go_float \<Rightarrow> string) \<Rightarrow> string \<Rightarrow> go_float \<Rightarrow> (nat \<Rightarrow> put_resp) \<Rightarrow> string list \<Rightarrow> reporter \<Rightarrow> reporter" where
  "runProgressReporter fmt url durationS resp lines s =
     (if url = [] then s else fold (report_line fmt durationS resp) lines s)"

section \<open>The prelude\<close>

record outputStream =
  os_index :: int
  os_id :: int
  os_codec :: string
  os_type :: string
  os_width :: int
  os_height :: int
  os_frameRate :: go_float
  os_profile :: string
  os_level :: int
  os_channels :: int
  os_layout :: string
  os_sampleRate :: int
  os_language :: string

definition no_stream :: outputStream where
  "no_stream = \<lparr>os_index = 0, os_id = 0, os_codec = [], os_type = [], os_width = 0, os_height = 0,
     os_frameRate = 0, os_profile = [], os_level = 0, os_channels = 0, os_layout = [],
     os_sampleRate = 0, os_language = []\<rparr>"

definition opt :: "bool \<Rightarrow> string \<Rightarrow> string \<Rightarrow> params" where
  "opt b k v = (if b then [(k, v)] else [])"

definition detail_params :: "outputStream \<Rightarrow> params" where
  "detail_params s =
     [(''index'', itoa (os_index s)), (''id'', itoa (os_id s)), (''codec'', os_codec s), (''type'', os_type s)]
     @ (if os_type s = ''video'' then
          opt (os_profile s \<noteq> []) ''profile'' (os_profile s)
          @ opt (0 < os_width s) ''width'' (itoa (os_width s))
          @ opt (0 < os_height s) ''height'' (itoa (os_height s))
          @ [(''interlaced'', ''0'')]
          @ opt (0 < os_level s) ''level'' (itoa (os_level s))
          @ opt (0 < os_frameRate s) ''frameRate'' (format_fixed 3 (os_frameRate s))
          @ [(''disp_default'', ''1'')]
        else if os_type s = ''audio'' then
          opt (os_profile s \<noteq> []) ''profile'' (os_profile s)
          @ opt (os_language s \<noteq> []) ''language'' (os_language s)
          @ opt (0 < os_channels s) ''channels'' (itoa (os_channels s))
          @ opt (os_layout s \<noteq> []) ''layout'' (os_layout s)
          @ opt (0 < os_sampleRate s) ''sampleRate'' (itoa (os_sampleRate s))
          @ [(''disp_default'', ''1'')]
        else [])"

definition stream_params :: "outputStream \<Rightarrow> params" where
  "stream_params s =
     [(''index'', itoa (os_index s)), (''id'', itoa (os_id s)), (''codec'', os_codec s), (''type'', os_type s)]
     @ opt (os_type s = ''audio'' \<and> os_profile s \<noteq> []) ''profile'' (os_profile s)"

type_synonym put_request = "string \<times> string \<times> params"

definition sendPrelude :: "string \<Rightarrow> go_float \<Rightarrow> outputStream list \<Rightarrow> put_request list" where
  "sendPrelude url durationS streams =
     (if url = [] then []
      else
        (if 0 < durationS then [(''duration'', '''', [(''duration'', format_fixed 6 durationS)])] else [])
        @ concat (map (\<lambda>s. [(''streamDetail'', ''/streamDetail'', detail_params s),
                            (''stream'', ''/stream'', stream_params s)]) streams)
        @ (case find (\<lambda>s. os_type s = ''video'') streams of
             Some v \<Rightarrow> if 0 < os_width v \<and> 0 < os_height v
                       then [(''dimensions'', '''', [(''width'', itoa (os_width v)), (''height'', itoa (os_height v))])]
                       else []
           | None \<Rightarrow> []))"

definition progressPipeArg :: "nat \<Rightarrow> argv" where
  "progressPipeArg extraIdx = [''-progress'', ''pipe:'' @ itoa (3 + int extraIdx)]"

section \<open>Streams from ffprobe\<close>

fun extractInputPath :: "argv \<Rightarrow> string" where
  "extractInputPath (a # b # rest) = (if a = ''-i'' then b else extractInputPath (b # rest))"
| "extractInputPath _ = []"

definition probeDurationSeconds :: "string \<Rightarrow> string option \<Rightarrow> go_float" where
  "probeDurationSeconds path out =
     (if path = [] then 0
      else case out of None \<Rightarrow> 0
           | Some s \<Rightarrow> (case parse_float (trim_space s) of Some d \<Rightarrow> d | None \<Rightarrow> 0))"

definition float_or0 :: "string \<Rightarrow> go_float" where
  "float_or0 s = (case parse_float s of Some f \<Rightarrow> f | None \<Rightarrow> 0)"

definition is_av :: "outputStream \<Rightarrow> bool" where
  "is_av s \<longleftrightarrow> os_type s = ''video'' \<or> os_type s = ''audio''"

definition frame_rate :: "string \<Rightarrow> go_float \<Rightarrow> go_float" where
  "frame_rate v old = (case str_cut v (CHR ''/'') of
     None \<Rightarrow> old
   | Some (num, den) \<Rightarrow> if 0 < float_or0 den then float_or0 num / float_or0 den else old)"

text \<open>One line of the loop: the finished streams and the current one.\<close>

definition probe_line :: "string \<Rightarrow> outputStream list \<times> outputStream \<Rightarrow> outputStream list \<times> outputStream" where
  "probe_line raw acc =
     (let (done, cur) = acc; line = trim_space raw
      in if line = [] then acc
         else case str_cut line (CHR ''='') of
           None \<Rightarrow> acc
         | Some (k, v) \<Rightarrow>
             if k = ''index'' then
               (if is_av cur then done @ [cur] else done, no_stream\<lparr>os_index := parse_int_lossy v\<rparr>)
             else (done,
               if k = ''codec_name'' then cur\<lparr>os_codec := v\<rparr>
               else if k = ''codec_type'' then cur\<lparr>os_type := v\<rparr>
               else if k = ''profile'' then (if v \<noteq> ''N/A'' \<and> v \<noteq> ''unknown'' then cur\<lparr>os_profile := v\<rparr> else cur)
               else if k = ''width'' then cur\<lparr>os_width := parse_int_lossy v\<rparr>
               else if k = ''height'' then cur\<lparr>os_height := parse_int_lossy v\<rparr>
               else if k = ''r_frame_rate'' then cur\<lparr>os_frameRate := frame_rate v (os_frameRate cur)\<rparr>
               else if k = ''channels'' then cur\<lparr>os_channels := parse_int_lossy v\<rparr>
               else if k = ''channel_layout'' then cur\<lparr>os_layout := v\<rparr>
               else if k = ''sample_rate'' then cur\<lparr>os_sampleRate := parse_int_lossy v\<rparr>
               else if k = ''TAG:language'' then cur\<lparr>os_language := v\<rparr>
               else cur))"

definition probeInputStreams :: "string \<Rightarrow> string option \<Rightarrow> outputStream list" where
  "probeInputStreams path out =
     (if path = [] then []
      else case out of
             None \<Rightarrow> []
           | Some s \<Rightarrow> (let (done, cur) = fold probe_line (split_on (CHR 0x0A) s) ([], no_stream)
                        in if is_av cur then done @ [cur] else done))"

text \<open>What \<open>handleTask\<close> does with them: Plex's level for a video stream that names none.\<close>

definition with_default_level :: "outputStream list \<Rightarrow> outputStream list" where
  "with_default_level ss =
     map (\<lambda>s. if os_type s = ''video'' \<and> os_level s = 0 then s\<lparr>os_level := 5\<rparr> else s) ss"

section \<open>Streams from the argument vector\<close>

definition codecType :: "string \<Rightarrow> string" where
  "codecType codec =
     (if codec \<in> {''h264_vaapi'', ''hevc_vaapi'', ''h264_nvenc'', ''hevc_nvenc'', ''libx264'', ''libx265'',
                  ''av1'', ''h264'', ''hevc'', ''vp9''} then ''video''
      else if codec \<in> {''aac'', ''eac3'', ''ac3'', ''mp3'', ''opus'', ''flac'', ''libopus'', ''libvorbis''} then ''audio''
      else '''')"

definition codecPlexName :: "string \<Rightarrow> string" where
  "codecPlexName codec =
     (if codec \<in> {''h264_vaapi'', ''h264_nvenc'', ''libx264''} then ''h264''
      else if codec \<in> {''hevc_vaapi'', ''hevc_nvenc'', ''libx265''} then ''hevc''
      else if codec = ''libopus'' then ''opus''
      else if codec = ''libvorbis'' then ''vorbis''
      else codec)"

text \<open>\<open>scale(?:_vaapi)?=w=(\<backslash>d+):h=(\<backslash>d+)\<close>, at one position and leftmost.\<close>

definition scale_at :: "string \<Rightarrow> (string \<times> string) option" where
  "scale_at s =
     (let after = (\<lambda>p. if has_prefix s p then
            (let (w, r) = span_digits (drop (length p) s)
             in if w \<noteq> [] \<and> has_prefix r '':h=''
                then (let (h, r2) = span_digits (drop 3 r) in if h \<noteq> [] then Some (w, h) else None)
                else None) else None)
      in case after ''scale_vaapi=w='' of Some x \<Rightarrow> Some x | None \<Rightarrow> after ''scale=w='')"

fun reScaleWH :: "string \<Rightarrow> (string \<times> string) option" where
  "reScaleWH [] = None"
| "reScaleWH (c # cs) = (case scale_at (c # cs) of Some x \<Rightarrow> Some x | None \<Rightarrow> reScaleWH cs)"

fun extractScaleWH :: "argv \<Rightarrow> int \<times> int" where
  "extractScaleWH (a # b # rest) =
     (if a \<noteq> ''-filter_complex'' then extractScaleWH (b # rest)
      else case reScaleWH b of
             Some (w, h) \<Rightarrow> (parse_int_lossy w, parse_int_lossy h)
           | None \<Rightarrow> extractScaleWH (b # rest))"
| "extractScaleWH _ = (0, 0)"

text \<open>The first value of a flag, with the test of the source on the value.\<close>

fun flag_value :: "string \<Rightarrow> (string \<Rightarrow> bool) \<Rightarrow> argv \<Rightarrow> string option" where
  "flag_value flag P (a # b # rest) =
     (if a = flag \<and> P b then Some b else flag_value flag P (b # rest))"
| "flag_value flag P _ = None"

definition output_rate :: "int \<Rightarrow> argv \<Rightarrow> go_float" where
  "output_rate idx args =
     (let f = (case flag_value (''-r:'' @ itoa idx) (\<lambda>_. True) args of
                 Some v \<Rightarrow> float_or0 v | None \<Rightarrow> 0)
      in if f \<le> 0 then 23976 / 1000 else f)"

definition argv_stream :: "argv \<Rightarrow> int \<Rightarrow> string \<Rightarrow> outputStream" where
  "argv_stream args idx codec =
     (let (w, h) = extractScaleWH args; typ = codecType codec;
          s = no_stream\<lparr>os_index := idx, os_codec := codecPlexName codec, os_type := typ\<rparr>;
          s1 = (if typ = ''video''
                then s\<lparr>os_width := w, os_height := h, os_profile := ''Main'', os_frameRate := output_rate idx args\<rparr>
                else s);
          s2 = (if typ = ''audio'' then s1\<lparr>os_channels := 2, os_layout := ''stereo'', os_sampleRate := 48000\<rparr> else s1)
      in case flag_value (''-metadata:s:'' @ itoa idx) (\<lambda>v. has_prefix v ''language='') args of
           Some v \<Rightarrow> s2\<lparr>os_language := trim_prefix v ''language=''\<rparr>
         | None \<Rightarrow> s2)"

fun output_streams_from :: "argv \<Rightarrow> argv \<Rightarrow> outputStream list \<Rightarrow> outputStream list" where
  "output_streams_from args (a # b # rest) out =
     (let next = output_streams_from args (b # rest)
      in if \<not> has_prefix a ''-codec:'' then next out
         else case atoi (trim_prefix a ''-codec:'') of
                None \<Rightarrow> next out
              | Some idx \<Rightarrow>
                  if ''-i'' \<in> set (b # rest) then next out
                  else if idx \<in> os_index ` set out then next out
                  else next (out @ [argv_stream args idx b]))"
| "output_streams_from args _ out = out"

definition extractOutputStreams :: "argv \<Rightarrow> outputStream list" where
  "extractOutputStreams args = output_streams_from args args []"

section \<open>Facts about a tick\<close>

lemma progress_pct_range: "0 \<le> progress_pct d o' \<and> progress_pct d o' \<le> 100"
  by (simp add: progress_pct_def Let_def)

lemma tick_speed_iff:
  "(\<exists>v. (''speed'', v) \<in> set (putProgressTick fmt d blk throttled)) \<longleftrightarrow> \<not> throttled"
  by (auto simp: putProgressTick_def Let_def)

lemma throttle_fails_open:
  "fst (doPlexPUT kind resp thr) = False \<Longrightarrow> resp \<noteq> PutBuildErr \<Longrightarrow> fst (snd (doPlexPUT kind resp thr)) = False"
  by (auto simp: doPlexPUT_def split: put_resp.splits if_splits)

lemma throttle_follows_pms:
  "fst (doPlexPUT ''progress'' (PutAnswer code body) thr) \<Longrightarrow>
   fst (snd (doPlexPUT ''progress'' (PutAnswer code body) thr)) = str_contains (take 4096 body) ''canThrottle''"
  by (auto simp: doPlexPUT_def split: if_splits)

text \<open>The reporter: never more ticks than PUTs, and a PUT per completed block.\<close>

definition reporter_ok :: "reporter \<Rightarrow> bool" where
  "reporter_ok s \<longleftrightarrow> pr_ticks s \<le> length (pr_puts s) \<and> distinct_keys (pr_block s)"

lemma report_line_ok: "reporter_ok s \<Longrightarrow> reporter_ok (report_line fmt d resp line s)"
  by (auto simp: reporter_ok_def report_line_def Let_def case_prod_unfold gomap.ok_put
      distinct_keys_def [of "[]"] split: option.split)

interpretation reporterm: machine "report_line fmt d resp" reporter_ok for fmt d resp
  by unfold_locales (rule report_line_ok)

lemma report_line_puts:
  "length (pr_puts (report_line fmt d resp line s)) =
     length (pr_puts s) + (if map_option fst (str_cut line (CHR ''='')) = Some ''progress'' then 1 else 0)"
  by (auto simp: report_line_def Let_def case_prod_unfold str_cut_def split: option.split)

lemma report_puts:
  "length (pr_puts (fold (report_line fmt d resp) lines s)) = length (pr_puts s) +
     length (filter (\<lambda>l. map_option fst (str_cut l (CHR ''='')) = Some ''progress'') lines)"
  by (induction lines arbitrary: s) (simp_all add: report_line_puts)

section \<open>Facts about the streams\<close>

lemma probe_streams_av:
  "list_all is_av done \<Longrightarrow> list_all is_av (fst (fold probe_line lines (done, cur)))"
proof (induction lines arbitrary: "done" cur)
  case (Cons l lines)
  obtain d c where dc: "probe_line l (done, cur) = (d, c)" by fastforce
  then have "list_all is_av d"
    using Cons.prems by (auto simp: probe_line_def Let_def split: if_splits option.splits)
  from Cons.IH [OF this] show ?case by (simp add: dc)
qed simp

lemma probeInputStreams_av: "list_all is_av (probeInputStreams path out)"
  using probe_streams_av [of "[]"]
  by (auto simp: probeInputStreams_def Let_def case_prod_unfold split: option.split)

lemma output_streams_distinct:
  "distinct (map os_index out) \<Longrightarrow> distinct (map os_index (output_streams_from args rest out))"
proof (induction args rest out rule: output_streams_from.induct)
  case (1 args a b rest out)
  have "os_index (argv_stream args idx b) = idx" for idx
    by (simp add: argv_stream_def Let_def case_prod_unfold split: option.split)
  with 1 show ?case by (auto simp: Let_def split: option.split)
qed simp_all

lemma prelude_count:
  assumes "url \<noteq> []"
  shows "length (filter (\<lambda>(k, sfx, q). k = ''streamDetail'') (sendPrelude url d ss)) = length ss
    \<and> length (filter (\<lambda>(k, sfx, q). k = ''stream'') (sendPrelude url d ss)) = length ss"
proof -
  let ?f = "\<lambda>s. [(''streamDetail'', ''/streamDetail'', detail_params s), (''stream'', ''/stream'', stream_params s)]"
  have "length (filter (\<lambda>(k, sfx, q). k = ''streamDetail'') (concat (map ?f ss))) = length ss"
    "length (filter (\<lambda>(k, sfx, q). k = ''stream'') (concat (map ?f ss))) = length ss"
    by (induction ss) simp_all
  then show ?thesis using assms by (auto simp: sendPrelude_def split: option.split)
qed

end
