(* ===== verification/WorkerLoad.thy ===== *)
theory WorkerLoad
  imports WorkerSegwatch
begin

text \<open>
  GPU load sampling (\<open>src/worker/agent/load.go\<close>): the three readers of busy counters, the choice
  between them, and the sampler that turns two samples into a busy fraction. Counters are naturals
  below \<open>2^64\<close>; the sampler subtracts them only when that cannot wrap. What files, \<open>perf_event\<close> and
  nvidia-smi return are arguments.
\<close>

section \<open>Readers\<close>

text \<open>\<open>filepath.Dir\<close> of a clean absolute path.\<close>

definition path_dir :: "string \<Rightarrow> string" where
  "path_dir p =
     (let d = trim_right (\<lambda>c. c = CHR ''/'') (rev (dropWhile (\<lambda>c. c \<noteq> CHR ''/'') (rev p)))
      in if d = [] then (if has_prefix p ''/'' then ''/'' else ''.'') else d)"

definition engine_name :: "string \<Rightarrow> string" where
  "engine_name p = path_base (path_dir p)"

definition env_engine_paths :: "(string \<Rightarrow> bool) \<Rightarrow> string \<Rightarrow> string list" where
  "env_engine_paths stat v = filter (\<lambda>p. p \<noteq> [] \<and> stat p) (map trim_space (split_on (CHR '','') v))"

text \<open>\<open>None\<close> is the error of the constructor; \<open>globbed\<close> are the matches of the two patterns.\<close>

definition newSysfsReader :: "(string \<Rightarrow> bool) \<Rightarrow> string \<Rightarrow> string list \<Rightarrow> (string list \<times> string list) option" where
  "newSysfsReader stat v globbed =
     (let paths = (if v \<noteq> [] then env_engine_paths stat v else filter stat globbed)
      in if paths = [] then None else Some (paths, map engine_name paths))"

text \<open>\<open>files\<close> are the contents of the busy files, \<open>None\<close> for a read error: the counter stays 0.\<close>

definition sysfs_sample :: "string option list \<Rightarrow> nat list" where
  "sysfs_sample files = map (\<lambda>f. case f of None \<Rightarrow> 0
     | Some s \<Rightarrow> (case parse_uint64 (trim_space s) of Some n \<Rightarrow> n | None \<Rightarrow> 0)) files"

definition hex_digit :: "char \<Rightarrow> nat option" where
  "hex_digit c =
     (let n = of_char c :: nat
      in if 48 \<le> n \<and> n \<le> 57 then Some (n - 48)
         else if 97 \<le> n \<and> n \<le> 102 then Some (n - 87)
         else if 65 \<le> n \<and> n \<le> 70 then Some (n - 55) else None)"

fun parse_hex :: "nat \<Rightarrow> string \<Rightarrow> nat option" where
  "parse_hex a [] = Some a"
| "parse_hex a (c # cs) = (case hex_digit c of None \<Rightarrow> None | Some d \<Rightarrow> parse_hex (16 * a + d) cs)"

definition parse_uint64_hex :: "string \<Rightarrow> nat option" where
  "parse_uint64_hex s = (if s = [] then None else case parse_hex 0 s of
     Some n \<Rightarrow> if int n < 2 ^ 64 then Some n else None | None \<Rightarrow> None)"

text \<open>One field of an events file: \<open>None\<close> goes on to the next field.\<close>

definition config_field :: "string \<Rightarrow> nat option" where
  "config_field p = (case str_cut p (CHR ''='') of
     None \<Rightarrow> None
   | Some (k, v0) \<Rightarrow>
       if trim_space k \<noteq> ''config'' then None
       else (let v = trim_space v0
             in if has_prefix v ''0x'' \<or> has_prefix v ''0X'' then parse_uint64_hex (drop 2 v)
                else parse_uint64 v))"

fun first_config :: "string list \<Rightarrow> nat option" where
  "first_config [] = None"
| "first_config (p # ps) = (case config_field p of Some n \<Rightarrow> Some n | None \<Rightarrow> first_config ps)"

definition parseEventConfig :: "string \<Rightarrow> nat option" where
  "parseEventConfig s = first_config (split_on (CHR '','') (trim_space s))"

text \<open>The video engines among the event files of one PMU device.\<close>

definition video_engine :: "string \<Rightarrow> string option" where
  "video_engine n =
     (let e = trim_suffix n ''-busy''
      in if has_suffix n ''-busy'' \<and> (has_prefix e ''vcs'' \<or> has_prefix e ''vecs'') then Some e else None)"

text \<open>\<open>open_event\<close> is the system call on the parsed configuration.\<close>

definition pmu_events :: "(nat \<Rightarrow> 'fd option) \<Rightarrow> (string \<times> string option) list \<Rightarrow> ('fd \<times> string) list" where
  "pmu_events open_event entries =
     concat (map (\<lambda>(n, contents). case video_engine n of
         None \<Rightarrow> []
       | Some e \<Rightarrow> (case contents of
             None \<Rightarrow> []
           | Some s \<Rightarrow> (case parseEventConfig s of
                 None \<Rightarrow> []
               | Some cfg \<Rightarrow> (case open_event cfg of None \<Rightarrow> [] | Some fd \<Rightarrow> [(fd, e)])))) entries)"

definition newPMUReader :: "('fd \<times> string) list list \<Rightarrow> ('fd list \<times> string list) option" where
  "newPMUReader devices =
     (let evs = concat devices in if evs = [] then None else Some (map fst evs, map snd evs))"

record nvidiaReader =
  nv_lastTime :: "int option"
  nv_accEnc :: go_float
  nv_accDec :: go_float

text \<open>The output of nvidia-smi; \<open>None\<close> is an error of \<open>query\<close>.\<close>

definition nvidia_query :: "string option \<Rightarrow> (go_float \<times> go_float) option" where
  "nvidia_query out = (case out of
     None \<Rightarrow> None
   | Some s \<Rightarrow>
       (case split_on (CHR '','') (trim_space s) of
          e # d # rest \<Rightarrow>
            (case (parse_float (trim_space e), parse_float (trim_space d)) of
               (Some x, Some y) \<Rightarrow> Some (x / 100, y / 100)
             | _ \<Rightarrow> None)
        | _ \<Rightarrow> None))"

definition nvidia_sample :: "int \<Rightarrow> string option \<Rightarrow> nvidiaReader \<Rightarrow> nat list option \<times> nvidiaReader" where
  "nvidia_sample now out r = (case nvidia_query out of
     None \<Rightarrow> (None, r)
   | Some (enc, dec) \<Rightarrow>
       (let r1 = (case nv_lastTime r of
                    None \<Rightarrow> r
                  | Some t \<Rightarrow> (let dt = of_int (now - t)
                              in r\<lparr>nv_accEnc := nv_accEnc r + enc * dt, nv_accDec := nv_accDec r + dec * dt\<rparr>));
            r2 = r1\<lparr>nv_lastTime := Some now\<rparr>
        in (Some [nat \<lfloor>nv_accEnc r2\<rfloor>, nat \<lfloor>nv_accDec r2\<rfloor>], r2)))"

definition detectReader ::
    "string \<Rightarrow> string list option \<Rightarrow> string list option \<Rightarrow> string list option \<Rightarrow> string list option \<times> string" where
  "detectReader disable sysfs pmu nvidia =
     (if disable = ''1'' then (None, ''disabled'')
      else case sysfs of Some n \<Rightarrow> (Some n, ''sysfs'')
         | None \<Rightarrow> (case pmu of Some n \<Rightarrow> (Some n, ''pmu'')
             | None \<Rightarrow> (case nvidia of Some n \<Rightarrow> (Some n, ''nvidia-smi'') | None \<Rightarrow> (None, ''none''))))"

section \<open>The sampler\<close>

record engineSampler =
  es_reader :: bool
  es_mode :: string
  es_names :: "string list"
  es_lastBusy :: "nat list option"
  es_lastTime :: int
  es_cached :: go_float

definition newEngineSampler :: "string list option \<times> string \<Rightarrow> engineSampler" where
  "newEngineSampler det =
     \<lparr>es_reader = (fst det \<noteq> None), es_mode = snd det,
      es_names = (case fst det of Some n \<Rightarrow> n | None \<Rightarrow> []), es_lastBusy = None, es_lastTime = 0, es_cached = 0\<rparr>"

definition busy_frac :: "go_float \<Rightarrow> nat \<Rightarrow> nat \<Rightarrow> go_float" where
  "busy_frac elapsedNs c l =
     (let frac = of_nat (c - l) / elapsedNs;
          frac1 = (if frac < 0 then 0 else frac)
      in if 1 < frac1 then 1 else frac1)"

text \<open>The loop over the engines: sum and count; an engine whose counter went back is skipped.\<close>

fun sum_fracs :: "go_float \<Rightarrow> nat list \<Rightarrow> nat list \<Rightarrow> go_float \<times> nat \<Rightarrow> go_float \<times> nat" where
  "sum_fracs el (c # cs) (l # ls) (acc, n) =
     (if c < l then sum_fracs el cs ls (acc, n) else sum_fracs el cs ls (acc + busy_frac el c l, n + 1))"
| "sum_fracs el _ _ acc = acc"

definition sampler_sample :: "int \<Rightarrow> nat list option \<Rightarrow> engineSampler \<Rightarrow> engineSampler" where
  "sampler_sample now cur s =
     (if \<not> es_reader s then s\<lparr>es_cached := 0\<rparr>
      else case cur of
             None \<Rightarrow> s
           | Some c \<Rightarrow>
               (case es_lastBusy s of
                  None \<Rightarrow> s\<lparr>es_lastBusy := Some c, es_lastTime := now\<rparr>
                | Some l \<Rightarrow>
                    if now - es_lastTime s \<le> 0 then s
                    else
                      (let (acc, n) = sum_fracs (of_int (now - es_lastTime s)) c l (0, 0)
                       in s\<lparr>es_lastBusy := Some c, es_lastTime := now,
                            es_cached := (if n = 0 then 0 else acc / of_nat n)\<rparr>)))"

definition sampler_load :: "engineSampler \<Rightarrow> go_float" where
  "sampler_load s = es_cached s"

definition numEngines :: "engineSampler \<Rightarrow> nat" where
  "numEngines s = length (es_names s)"

definition startEngineSampler :: "string list option \<times> string \<Rightarrow> (int \<times> nat list option) list \<Rightarrow> engineSampler" where
  "startEngineSampler det samples =
     fold (\<lambda>(now, cur). sampler_sample now cur) samples (newEngineSampler det)"

section \<open>The load is a fraction\<close>

lemma busy_frac_range: "0 < el \<Longrightarrow> 0 \<le> busy_frac el c l \<and> busy_frac el c l \<le> 1"
  by (simp add: busy_frac_def Let_def)

lemma sum_fracs_range:
  "0 < el \<Longrightarrow> 0 \<le> fst acc \<Longrightarrow> fst acc \<le> of_nat (snd acc) \<Longrightarrow>
   0 \<le> fst (sum_fracs el cs ls acc) \<and> fst (sum_fracs el cs ls acc) \<le> of_nat (snd (sum_fracs el cs ls acc))"
proof (induction el cs ls acc rule: sum_fracs.induct)
  case (1 el c cs l ls acc n)
  note r = busy_frac_range [OF "1.prems"(1), of c l]
  show ?case
  proof (cases "c < l")
    case True
    then show ?thesis using 1 by simp
  next
    case False
    have "0 \<le> acc + busy_frac el c l" "acc + busy_frac el c l \<le> of_nat (n + 1)"
      using "1.prems" r by simp_all
    then show ?thesis using "1.IH"(2) [OF False "1.prems"(1)] False by simp
  qed
qed simp_all

definition load_ok :: "engineSampler \<Rightarrow> bool" where
  "load_ok s \<longleftrightarrow> 0 \<le> es_cached s \<and> es_cached s \<le> 1"

lemma sampler_sample_ok:
  assumes "load_ok s"
  shows "load_ok (sampler_sample now cur s)"
proof (cases "es_reader s \<and> cur \<noteq> None \<and> es_lastBusy s \<noteq> None \<and> 0 < now - es_lastTime s")
  case True
  then obtain c l where c: "cur = Some c" "es_lastBusy s = Some l" by auto
  obtain acc n where an: "sum_fracs (of_int (now - es_lastTime s)) c l (0, 0) = (acc, n)" by fastforce
  have "0 \<le> acc \<and> acc \<le> of_nat n"
    using sum_fracs_range [of "of_int (now - es_lastTime s)" "(0, 0)" c l] True an by simp
  moreover have "es_cached (sampler_sample now cur s) = (if n = 0 then 0 else acc / of_nat n)"
    using True c an by (simp add: sampler_sample_def)
  ultimately show ?thesis by (simp add: load_ok_def divide_le_eq)
next
  case False
  then show ?thesis
    using assms by (cases cur; cases "es_lastBusy s") (auto simp: load_ok_def sampler_sample_def)
qed

interpretation samplerm: machine "\<lambda>(now, cur). sampler_sample now cur" load_ok
  by unfold_locales (auto intro: sampler_sample_ok)

lemma newEngineSampler_ok: "load_ok (newEngineSampler det)"
  by (simp add: load_ok_def newEngineSampler_def)

text \<open>A failed read holds the last load.\<close>

lemma sample_error_holds: "es_reader s \<Longrightarrow> sampler_sample now None s = s"
  by (simp add: sampler_sample_def)

lemma busy_frac_forward:
  assumes "0 < el" "l \<le> c" "of_nat (c - l) \<le> el"
  shows "busy_frac el c l = of_nat (c - l) / el"
proof -
  have "0 \<le> of_nat (c - l) / el" "of_nat (c - l) / el \<le> 1"
    using assms by (simp_all only: divide_le_eq_1_pos zero_le_divide_iff of_nat_0_le_iff simp_thms order_less_imp_le)
  then show ?thesis using assms(2) unfolding busy_frac_def Let_def by simp
qed

lemma busy_frac_full:
  assumes "0 < el" "el \<le> of_nat c"
  shows "busy_frac el c 0 = 1"
proof -
  have "1 \<le> of_nat c / el" using assms by (simp add: le_divide_eq)
  then show ?thesis unfolding busy_frac_def Let_def by (auto simp: min_def)
qed

text \<open>With all counters going forward by less than the elapsed time, the load is the mean busy
  fraction.\<close>

lemma sum_fracs_mean:
  assumes "0 < el" and "list_all2 (\<lambda>c l. l \<le> c \<and> of_nat (c - l) \<le> el) cs ls"
  shows "sum_fracs el cs ls (a, n) = (a + sum_list (map2 (\<lambda>c l. of_nat (c - l) / el) cs ls), n + length cs)"
  using assms(2)
proof (induction cs arbitrary: ls a n)
  case (Cons c cs)
  then obtain l ls' where ls: "ls = l # ls'" "l \<le> c" "of_nat (c - l) \<le> el"
    "list_all2 (\<lambda>c l. l \<le> c \<and> of_nat (c - l) \<le> el) cs ls'" by (auto simp: list_all2_Cons1)
  have "busy_frac el c l = of_nat (c - l) / el"
    by (rule busy_frac_forward) (use assms(1) ls in auto)
  then show ?case using ls Cons.IH [OF ls(4)] by simp
qed simp

text \<open>An engine that could not be read once is stored as 0; its next reading, any counter of at
  least the elapsed time, then counts as fully busy.\<close>

lemma read_error_then_full_load:
  assumes "es_reader s" and "es_lastBusy s = Some [l]" and "0 < l"
    and "es_lastTime s < t1" and "t1 < t2" and "t2 - t1 \<le> int c"
  shows "es_cached (sampler_sample t2 (Some [c]) (sampler_sample t1 (Some (sysfs_sample [None])) s)) = 1"
proof -
  have s1: "sampler_sample t1 (Some (sysfs_sample [None])) s =
      s\<lparr>es_lastBusy := Some [0], es_lastTime := t1, es_cached := 0\<rparr>"
    using assms(1-4) by (simp add: sampler_sample_def sysfs_sample_def)
  have "(of_int (t2 - t1) :: go_float) \<le> of_int (int c)" using assms(6) by (simp only: of_int_le_iff)
  then have "busy_frac (of_int (t2 - t1)) c 0 = 1"
    using assms(5) by (intro busy_frac_full) simp_all
  then show ?thesis
    unfolding s1 using assms(1,5) by (simp add: sampler_sample_def)
qed

section \<open>Readers: facts\<close>

lemma nvidia_monotone:
  assumes "nvidia_sample now out r = (Some cs, r')" and "0 \<le> nv_accEnc r" and "0 \<le> nv_accDec r"
    and "case nv_lastTime r of None \<Rightarrow> True | Some t \<Rightarrow> t \<le> now"
    and "case nvidia_query out of Some (e, d) \<Rightarrow> 0 \<le> e \<and> 0 \<le> d | None \<Rightarrow> True"
  shows "nv_accEnc r \<le> nv_accEnc r' \<and> nv_accDec r \<le> nv_accDec r'"
  using assms by (auto simp: nvidia_sample_def Let_def split: option.splits)

lemma pmu_events_video:
  "(fd, e) \<in> set (pmu_events open_event entries) \<Longrightarrow> has_prefix e ''vcs'' \<or> has_prefix e ''vecs''"
  by (auto simp: pmu_events_def video_engine_def Let_def split: option.splits if_splits)

lemma detect_order:
  "disable \<noteq> ''1'' \<Longrightarrow> detectReader disable (Some n) pmu nv = (Some n, ''sysfs'')"
  "disable \<noteq> ''1'' \<Longrightarrow> detectReader disable None (Some n) nv = (Some n, ''pmu'')"
  by (simp_all add: detectReader_def)

end
