(* ===== verification/WorkerProps.thy ===== *)
theory WorkerProps
  imports WorkerProgress WorkerLoad
begin

text \<open>
  The properties of the worker daemon, each with a concrete input at which its hypotheses hold.
\<close>

section \<open>Chunks and their numbers\<close>

text \<open>
  C34. A size written by \<open>encodeEBMLSizeFixedWidth\<close> at any width from 1 to 8 is read back by
  \<open>readEBMLSize\<close>, whatever follows it, as long as it fits into the 7 bits the width leaves per byte.
\<close>

theorem ebml_size_reads_back:
  assumes "1 \<le> w" and "w \<le> 8" and "unat v < 2 ^ (7 * w)"
  shows "readEBMLSize (encodeEBMLSizeFixedWidth v w @ rest) = Some (w, v)"
  by (rule ebml_size_roundtrip [OF assms])

theorem ebml_size_reads_back_witness:
  "readEBMLSize (encodeEBMLSizeFixedWidth 300 2 @ [0xE7]) = Some (2, 300)"
  using ebml_size_reads_back [of 2 300 "[0xE7]"] by simp

definition demo_cluster :: bytes where
  "demo_cluster = clusterID @ [0x85, 0xE7, 0x81, 0x07, 0xA3, 0x80]"

lemma demo_cluster_clusters:
  "parse_clusters demo_cluster = Some [(1, [0xE7, 0x81, 0x07, 0xA3, 0x80])]"
  by code_simp

lemma demo_cluster_body:
  "cluster_timecode [0xE7, 0x81, 0x07, 0xA3, 0x80] = Some (7, [0xA3, 0x80])
   \<and> \<not> already_patched [0xE7, 0x81, 0x07, 0xA3, 0x80]
   \<and> headroom 5000 (1, [0xE7, 0x81, 0x07, 0xA3, 0x80])"
  by code_simp

text \<open>
  C35. Patching a well-formed chunk whose cluster sizes have room keeps it a sequence of the same
  number of clusters with size fields of the same widths; every cluster that was not patched before
  has its timecode moved by the offset (modulo \<open>2^64\<close>) and its other elements unchanged; and
  patching the result again, with any offset, changes nothing.
\<close>

theorem chunk_patched_once:
  assumes "parse_clusters data = Some cs"
    and "list_all (headroom off) cs"
    and "list_all (\<lambda>(w, b). cluster_timecode b \<noteq> None \<and> \<not> already_patched b) cs"
  shows "\<exists>cs'. parse_clusters (patch_from data off) = Some cs'
      \<and> map fst cs' = map fst cs
      \<and> map (\<lambda>(w, b). cluster_timecode b) cs' =
          map (\<lambda>(w, b). map_option (\<lambda>(tc, rest). (tc + off, rest)) (cluster_timecode b)) cs
      \<and> patch_from (patch_from data off) off' = patch_from data off"
proof (intro exI conjI)
  show "parse_clusters (patch_from data off) = Some (map (\<lambda>(w, b). (w, fst (patchClusterBody b off))) cs)"
    by (rule patch_from_parse [OF assms(1,2)])
  show "map fst (map (\<lambda>(w, b). (w, fst (patchClusterBody b off))) cs) = map fst cs" by auto
  show "map (\<lambda>(w, b). cluster_timecode b) (map (\<lambda>(w, b). (w, fst (patchClusterBody b off))) cs) =
      map (\<lambda>(w, b). map_option (\<lambda>(tc, rest). (tc + off, rest)) (cluster_timecode b)) cs"
    using assms(3) patch_shifts_timecode by (fastforce simp: list_all_iff)
  show "patch_from (patch_from data off) off' = patch_from data off"
    using assms(3) by (intro patch_from_twice [OF assms(1,2)]) (auto simp: list_all_iff)
qed

theorem chunk_patched_once_witness:
  "\<exists>cs'. parse_clusters (patch_from demo_cluster 5000) = Some cs'
      \<and> map (\<lambda>(w, b). cluster_timecode b) cs' = [Some (5007, [0xA3, 0x80])]"
  using chunk_patched_once [OF demo_cluster_clusters, of 5000 0] demo_cluster_body by auto

text \<open>A size field of one byte has no room near its end: the patched cluster no longer parses.\<close>

lemma size_field_overflow:
  "parse_clusters (clusterID @ 0xFC # 0xE7 # 0x81 # 0x07 # replicate 121 0) \<noteq> None
   \<and> parse_clusters (patch_from (clusterID @ 0xFC # 0xE7 # 0x81 # 0x07 # replicate 121 0) 5000) = None"
  by code_simp

text \<open>
  C36. Any number of watchers raise the sequence counter of a task with their compare-and-swap loops
  in any interleaving: the counter never goes down on the way, and when all loops are done it holds
  the largest number, or the old value if that is larger. No raise is lost.
\<close>

theorem raises_keep_the_maximum:
  assumes "seq_reach (seq_start m qs) s" and "\<forall>pc\<in>set (sy_pcs s). \<exists>q. pc = Done q"
  shows "sy_last s = fold raise_seq qs m"
proof -
  have "fold raise_seq qs m = Max (insert m (set qs))"
    unfolding raise_seq_max [abs_def] by (metis Max.set_eq_fold list.simps(15))
  then show ?thesis using raises_reach_max [OF assms] by simp
qed

lemma demo_race:
  "seq_reach (seq_start 0 [4, 3]) \<lparr>sy_last = 4, sy_pcs = [Done 4, Done 3]\<rparr>"
proof -
  let ?s = "\<lambda>l a b. \<lparr>sy_last = l, sy_pcs = [a, b]\<rparr>"
  have 1: "seq_step (?s 0 (Start 4) (Start 3)) (?s 0 (Start 4) (Loaded 3 0))"
    using seq_load [of 1 "?s 0 (Start 4) (Start 3)" 3] by simp
  have 2: "seq_step (?s 0 (Start 4) (Loaded 3 0)) (?s 0 (Loaded 4 0) (Loaded 3 0))"
    using seq_load [of 0 "?s 0 (Start 4) (Loaded 3 0)" 4] by simp
  have 3: "seq_step (?s 0 (Loaded 4 0) (Loaded 3 0)) (?s 4 (Done 4) (Loaded 3 0))"
    using seq_swap [of 0 "?s 0 (Loaded 4 0) (Loaded 3 0)" 4 0] by simp
  have 4: "seq_step (?s 4 (Done 4) (Loaded 3 0)) (?s 4 (Done 4) (Start 3))"
    using seq_retry [of 1 "?s 4 (Done 4) (Loaded 3 0)" 3 0] by simp
  have 5: "seq_step (?s 4 (Done 4) (Start 3)) (?s 4 (Done 4) (Loaded 3 4))"
    using seq_load [of 1 "?s 4 (Done 4) (Start 3)" 3] by simp
  have 6: "seq_step (?s 4 (Done 4) (Loaded 3 4)) (?s 4 (Done 4) (Done 3))"
    using seq_skip [of 1 "?s 4 (Done 4) (Loaded 3 4)" 3 4] by simp
  have "seq_start 0 [4, 3] = ?s 0 (Start 4) (Start 3)" by (simp add: seq_start_def)
  then show ?thesis
    using reach_step [OF reach_step [OF reach_step [OF reach_step [OF reach_step [OF reach_step
      [OF reach_refl 1] 2] 3] 4] 5] 6] by simp
qed

theorem raises_keep_the_maximum_witness: "fold raise_seq [4, 3] 0 = (4 :: int)"
  using raises_keep_the_maximum [OF demo_race] by simp

section \<open>Streams of bytes\<close>



section \<open>The registry of running tasks\<close>

definition demo_task :: "nat \<Rightarrow> runningTask" where
  "demo_task p = \<lparr>rt_ptr = p, rt_argv = [''-i'', ''x''], rt_env = [], rt_cwd = [], rt_sourcePath = ''x'',
     rt_progressURL = [], rt_seekOffsetS = 0, rt_startedAt = 0, rt_lastSeq = 0, rt_pid = Some 7\<rparr>"



text \<open>
  C39. A second task with the session id of a running one cancels the first; when the first handler
  then returns, its deferred \<open>unregister\<close> removes the second task from the registry although that
  one still runs: a kill or a checkpoint request for the session is answered 404 and the task is no
  longer counted against the cap.
\<close>

theorem replaced_task_cannot_be_killed:
  assumes "rt_ptr t1 \<noteq> rt_ptr t2" and "{rt_ptr t1, rt_ptr t2} \<inter> fst ` set (rg_live r) = {}"
    and "CHR ''/'' \<notin> set sid"
  defines "r' \<equiv> reg_step (Exit (rt_ptr t1)) (reg_step (Spawn sid t2) (reg_step (Spawn sid t1) r))"
  shows "(rt_ptr t2, sid) \<in> set (rg_live r') \<and> rt_ptr t1 \<in> set (rg_cancelled r')
    \<and> worker_handleTaskByID ''POST'' (''/task/'' @ sid @ ''/kill'') r' = (Status 404, r')
    \<and> worker_handleTaskByID ''GET'' (''/task/'' @ sid @ ''/checkpoint'') r' = (Status 404, r')"
proof -
  have gone: "reg_get sid r' = None" "(rt_ptr t2, sid) \<in> set (rg_live r')" "rt_ptr t1 \<in> set (rg_cancelled r')"
    using replaced_task_is_lost [of t1 t2 r sid] assms(1,2) by (auto simp: r'_def)
  have "index_byte sid (\<lambda>c. c = CHR ''/'') = None" using assms(3) by (auto simp: index_byte_None)
  then have split: "split_task_path (''/task/'' @ sid @ CHR ''/'' # rest) = (sid, rest)" for rest
    by (simp add: split_task_path_def index_byte_append Let_def)
  have "split_task_path (''/task/'' @ sid @ ''/kill'') = (sid, ''kill'')"
    "split_task_path (''/task/'' @ sid @ ''/checkpoint'') = (sid, ''checkpoint'')"
    using split by simp_all
  then show ?thesis
    using gone by (simp add: worker_handleTaskByID_def reg_kill_def handleCheckpoint_def reg_get_def)
qed

theorem replaced_task_cannot_be_killed_witness:
  "fst (worker_handleTaskByID ''POST'' ''/task/s/kill''
     (reg_step (Exit 1) (reg_step (Spawn ''s'' (demo_task 2)) (reg_step (Spawn ''s'' (demo_task 1)) empty_registry))))
   = Status 404"
  using replaced_task_cannot_be_killed [of "demo_task 1" "demo_task 2" empty_registry "''s''"]
  by (simp add: demo_task_def empty_registry_def)

text \<open>
  The environment of ffmpeg: every supplied variable is there with its value, no inherited value
  of a supplied variable survives, and every other inherited entry does.
\<close>

theorem child_environment:
  assumes "supplied \<noteq> []" and "\<forall>(k, v)\<in>set supplied. CHR ''='' \<notin> set k"
  shows "kv \<in> set (buildEnv base supplied) \<longleftrightarrow>
    (\<exists>(k, v)\<in>set supplied. kv = k @ ''='' @ v)
    \<or> kv \<in> set base \<and> (\<forall>k. env_key kv = Some k \<longrightarrow> k \<notin> fst ` set supplied)"
  using assms by (auto simp: buildEnv_def split: option.splits)

theorem child_environment_witness:
  "''A=1'' \<notin> set (buildEnv [''A=1'', ''B=2''] [(''A'', ''3'')])
   \<and> ''B=2'' \<in> set (buildEnv [''A=1'', ''B=2''] [(''A'', ''3'')])"
proof -
  have k: "env_key ''A=1'' = Some ''A''" "env_key ''B=2'' = Some ''B''" by code_simp+
  show ?thesis
    using child_environment [of "[(''A'', ''3'')]" "''A=1''" "[''A=1'', ''B=2'']"]
      child_environment [of "[(''A'', ''3'')]" "''B=2''" "[''A=1'', ''B=2'']"] k by simp
qed

section \<open>Registration and draining\<close>

text \<open>
  The heartbeat loop sleeps the interval after every success and never longer than the larger of
  the interval and 30 seconds, whatever sequence of failures comes.
\<close>

theorem heartbeat_sleeps_bounded:
  assumes "0 < interval" and "i < length oks"
  shows "0 < registerLoop interval oks ! i \<and> registerLoop interval oks ! i \<le> max interval maxBackoff
    \<and> (oks ! i \<longrightarrow> registerLoop interval oks ! i = interval)"
proof -
  have len: "length (register_sleeps interval oks b) = length oks" for b
    by (induction oks arbitrary: b) (simp_all add: case_prod_unfold Let_def)
  have ok: "oks ! i \<Longrightarrow> i < length oks \<Longrightarrow> register_sleeps interval oks b ! i = interval" for b
  proof (induction oks arbitrary: b i)
    case (Cons o' os)
    then show ?case by (cases i) (auto simp: case_prod_unfold register_pass_def Let_def)
  qed simp
  have "list_all (\<lambda>s. 0 < s \<and> s \<le> max interval maxBackoff) (registerLoop interval oks)"
    unfolding registerLoop_def using assms(1) by (intro register_sleeps_bound) auto
  then show ?thesis
    using assms(2) ok [of interval] by (simp add: registerLoop_def list_all_length len)
qed

theorem heartbeat_sleeps_bounded_witness:
  "registerLoop 5000000000 [False, False, True] ! 2 = 5000000000"
  using heartbeat_sleeps_bounded [of 5000000000 2 "[False, False, True]"] by simp

text \<open>The product with a second wraps around: from 9223372037 on the timeout is negative, and the
  worker exits at once with its sessions running.\<close>

lemma drain_timeout_wraps: "drainTimeout ''9223372037'' < 0"
proof -
  have "drain_digits ''9223372037'' 0 = Some 9223372037" by (simp add: is_digit_def digit_val_def)
  then have "drainTimeout ''9223372037'' = nanos 9223372037" by (simp add: drainTimeout_def)
  also have "nanos 9223372037 = sint (9223372037000000000 :: u64)" by (simp add: nanos_def)
  also have "\<dots> < 0" by code_simp
  finally show ?thesis .
qed

section \<open>Progress reports\<close>

text \<open>
  One completed block of ffmpeg's \<open>-progress\<close> output is one PUT, whatever other lines the block
  holds. Its percentage lies between 0 and 100, the speed parameter is left out exactly while PMS
  throttles the session, and the throttle flag afterwards is set only if PMS accepted the PUT with
  an answer that says so: an error of any kind clears it.
\<close>

theorem progress_block:
  assumes "\<forall>l\<in>set lines. l = [] \<or> (\<forall>k v. str_cut l (CHR ''='') = Some (k, v) \<longrightarrow> k \<noteq> ''progress'')"
    and "str_cut last_line (CHR ''='') = Some (''progress'', v)" and "last_line \<noteq> []"
    and "resp (length (pr_puts s)) \<noteq> PutBuildErr"
  shows "\<exists>blk. let s' = fold (report_line fmt d resp) (lines @ [last_line]) s;
      q = putProgressTick fmt d blk (pr_throttle s) in
      pr_puts s' = pr_puts s @ [q] \<and> pr_block s' = []
      \<and> ((\<exists>x. (''speed'', x) \<in> set q) \<longleftrightarrow> \<not> pr_throttle s)
      \<and> (pr_throttle s' \<longleftrightarrow> (\<exists>code body. resp (length (pr_puts s)) = PutAnswer code body \<and> code < 400
           \<and> str_contains (take 4096 body) ''canThrottle''))
      \<and> pr_ticks s' = pr_ticks s + (if fst (doPlexPUT ''progress'' (resp (length (pr_puts s))) (pr_throttle s)) then 1 else 0)"
proof -
  have quiet: "\<exists>blk. fold (report_line fmt d resp) lines s = s\<lparr>pr_block := blk\<rparr>" for s
    using assms(1)
  proof (induction lines arbitrary: s)
    case Nil
    then show ?case by (intro exI [of _ "pr_block s"]) simp
  next
    case (Cons l lines)
    have "\<exists>blk. report_line fmt d resp l s = s\<lparr>pr_block := blk\<rparr>"
    proof (cases "str_cut l (CHR ''='')")
      case None
      then show ?thesis by (intro exI [of _ "pr_block s"]) (simp add: report_line_def)
    next
      case (Some kv)
      obtain k w where kv: "kv = (k, w)" by (cases kv)
      have "report_line fmt d resp l s = s\<lparr>pr_block := (if l = [] then pr_block s else AList.update k w (pr_block s))\<rparr>"
        using Cons.prems Some kv by (auto simp: report_line_def Let_def)
      then show ?thesis by blast
    qed
    then obtain blk where b: "report_line fmt d resp l s = s\<lparr>pr_block := blk\<rparr>" by blast
    obtain blk' where b': "fold (report_line fmt d resp) lines (s\<lparr>pr_block := blk\<rparr>) = s\<lparr>pr_block := blk\<rparr>\<lparr>pr_block := blk'\<rparr>"
      using Cons.IH [of "s\<lparr>pr_block := blk\<rparr>"] Cons.prems by auto
    then show ?case using b by (intro exI [of _ blk']) simp
  qed
  obtain blk where b: "fold (report_line fmt d resp) lines s = s\<lparr>pr_block := blk\<rparr>" using quiet by blast
  have "\<not> throttle_on \<longleftrightarrow> (\<exists>x. (''speed'', x) \<in> set (putProgressTick fmt d b' throttle_on))" for throttle_on b'
    using tick_speed_iff by blast
  then show ?thesis
    using assms(2-4) b
    by (intro exI [of _ "AList.update ''progress'' v blk"])
      (cases "resp (length (pr_puts s))"; auto simp: report_line_def Let_def doPlexPUT_def)
qed

definition demo_reporter :: reporter where
  "demo_reporter = \<lparr>pr_block = [], pr_throttle = True, pr_puts = [], pr_ticks = 0, pr_speed = None\<rparr>"

theorem progress_block_witness:
  "\<not> pr_throttle (fold (report_line (\<lambda>_. []) 10 (\<lambda>_. PutAnswer 500 ''canThrottle''))
     [''speed=2x'', ''progress=continue''] demo_reporter)"
proof -
  have c: "str_cut ''speed=2x'' (CHR ''='') = Some (''speed'', ''2x'')"
    "str_cut ''progress=continue'' (CHR ''='') = Some (''progress'', ''continue'')" by code_simp+
  show ?thesis
    using progress_block [of "[''speed=2x'']" "''progress=continue''" "''continue''"
        "\<lambda>_. PutAnswer 500 ''canThrottle''" demo_reporter "\<lambda>_. []" 10] c by (auto simp: Let_def)
qed

text \<open>The level of a probed stream is never read: every video stream is announced with level 5,
  and a status below 200 or from 300 to 399 counts as accepted.\<close>

lemma probed_level_is_0: "s \<in> set (probeInputStreams path out) \<Longrightarrow> os_level s = 0"
proof -
  have line: "list_all (\<lambda>s. os_level s = 0) d \<Longrightarrow> os_level c = 0 \<Longrightarrow>
      list_all (\<lambda>s. os_level s = 0) (fst (probe_line l (d, c))) \<and> os_level (snd (probe_line l (d, c))) = 0" for l d c
    by (auto simp: probe_line_def Let_def no_stream_def split: option.split)
  have "list_all (\<lambda>s. os_level s = 0) d \<Longrightarrow> os_level c = 0 \<Longrightarrow>
      list_all (\<lambda>s. os_level s = 0) (fst (fold probe_line ls (d, c)))
      \<and> os_level (snd (fold probe_line ls (d, c))) = 0" for ls d c
  proof (induction ls arbitrary: d c)
    case (Cons l ls)
    then show ?case using line [of d c l] by (cases "probe_line l (d, c)") simp
  qed simp
  from this [of "[]" no_stream] show "s \<in> set (probeInputStreams path out) \<Longrightarrow> os_level s = 0"
    by (auto simp: probeInputStreams_def Let_def case_prod_unfold list_all_iff no_stream_def
        split: option.splits if_splits)
qed

lemma announced_level_is_5:
  "s \<in> set (with_default_level (probeInputStreams path out)) \<Longrightarrow> os_type s = ''video'' \<Longrightarrow> os_level s = 5"
  using probed_level_is_0 by (auto simp: with_default_level_def)

lemma redirect_counts_as_accepted: "fst (doPlexPUT kind (PutAnswer 302 []) thr)"
  by (simp add: doPlexPUT_def)

lemma unknown_codec_is_announced:
  "map os_type (extractOutputStreams [''-codec:2'', ''ass'', ''out'']) = ['''']"
  by code_simp

section \<open>GPU load\<close>



end
