(* ===== verification/GoRegexp.thy ===== *)
theory GoRegexp
  imports GoPrelude
begin

text \<open>
  The part of Go's \<open>regexp\<close> package the worker uses: a syntax without laziness, back references or
  flags, and the leftmost-first match of the package, as a backtracking matcher with captures.
  Strings are bytes; every pattern of the source is ASCII.
\<close>

section \<open>Syntax\<close>

text \<open>\<open>RSet\<close> is a character class: negated or not, with its ranges.\<close>

datatype rx =
    REps
  | RLit char
  | RSet bool "(char \<times> char) list"
  | RSeq rx rx
  | RAlt rx rx
  | RStar rx
  | RGrp nat rx
  | RBol
  | REol

primrec lit :: "string \<Rightarrow> rx" where
  "lit [] = REps"
| "lit (c # cs) = RSeq (RLit c) (lit cs)"

fun rseq :: "rx list \<Rightarrow> rx" where
  "rseq [] = REps"
| "rseq [r] = r"
| "rseq (r # rs) = RSeq r (rseq rs)"

fun ralt :: "rx list \<Rightarrow> rx" where
  "ralt [] = RSet False []"
| "ralt [r] = r"
| "ralt (r # rs) = RAlt r (ralt rs)"

definition rplus :: "rx \<Rightarrow> rx" where
  "rplus r = RSeq r (RStar r)"

definition ropt :: "rx \<Rightarrow> rx" where
  "ropt r = RAlt r REps"

definition rdigit :: rx where
  "rdigit = RSet False [(CHR ''0'', CHR ''9'')]"

definition rchars :: "string \<Rightarrow> rx" where
  "rchars cs = RSet False (map (\<lambda>c. (c, c)) cs)"

definition rnone :: "string \<Rightarrow> rx" where
  "rnone cs = RSet True (map (\<lambda>c. (c, c)) cs)"

definition in_class :: "bool \<Rightarrow> (char \<times> char) list \<Rightarrow> char \<Rightarrow> bool" where
  "in_class neg rs c \<longleftrightarrow>
     neg \<noteq> list_ex (\<lambda>(a, b). (of_char a :: nat) \<le> of_char c \<and> (of_char c :: nat) \<le> of_char b) rs"

section \<open>Matching\<close>

text \<open>A state: whether the position is the beginning of the text, the rest of the text, and the
  captures, the latest first.\<close>

type_synonym rx_state = "bool \<times> string \<times> (nat \<times> string) list"

text \<open>All ways to match, the preferred one first; an iteration of a star has to consume something.\<close>

definition shorter :: "rx_state \<Rightarrow> rx_state \<Rightarrow> bool" where
  "shorter st st' \<longleftrightarrow> length (fst (snd st')) < length (fst (snd st))"

definition eat :: "(char \<Rightarrow> bool) \<Rightarrow> rx_state \<Rightarrow> rx_state list" where
  "eat p st = (case st of (b, s, caps) \<Rightarrow>
     case s of [] \<Rightarrow> [] | c # s' \<Rightarrow> if p c then [(False, s', caps)] else [])"

definition close_group :: "nat \<Rightarrow> rx_state \<Rightarrow> rx_state \<Rightarrow> rx_state" where
  "close_group i st st' = (case st of (b, s, caps) \<Rightarrow> case st' of (b', s', caps') \<Rightarrow>
     (b', s', (i, take (length s - length s') s) # caps'))"

fun star_all :: "(rx_state \<Rightarrow> rx_state list) \<Rightarrow> nat \<Rightarrow> rx_state \<Rightarrow> rx_state list" where
  "star_all m 0 st = [st]"
| "star_all m (Suc n) st = concat (map (star_all m n) (filter (shorter st) (m st))) @ [st]"

primrec rx_all :: "rx \<Rightarrow> rx_state \<Rightarrow> rx_state list" where
  "rx_all REps st = [st]"
| "rx_all (RLit d) st = eat ((=) d) st"
| "rx_all (RSet neg rs) st = eat (in_class neg rs) st"
| "rx_all (RSeq r1 r2) st = concat (map (rx_all r2) (rx_all r1 st))"
| "rx_all (RAlt r1 r2) st = rx_all r1 st @ rx_all r2 st"
| "rx_all (RStar r) st = star_all (rx_all r) (length (fst (snd st))) st"
| "rx_all (RGrp i r) st = map (close_group i st) (rx_all r st)"
| "rx_all RBol st = (if fst st then [st] else [])"
| "rx_all REol st = (if fst (snd st) = [] then [st] else [])"

text \<open>A match: the text before it, the matched text, the text after it, the captures.\<close>

type_synonym rx_hit = "string \<times> string \<times> string \<times> (nat \<times> string) list"

definition rx_here :: "rx \<Rightarrow> bool \<Rightarrow> string \<Rightarrow> (string \<times> string \<times> (nat \<times> string) list) option" where
  "rx_here r b s = (case rx_all r (b, s, []) of
     [] \<Rightarrow> None
   | (b', rest, caps) # others \<Rightarrow> Some (take (length s - length rest) s, rest, caps))"

fun rx_find_from :: "rx \<Rightarrow> bool \<Rightarrow> string \<Rightarrow> rx_hit option" where
  "rx_find_from r b [] = (case rx_here r b [] of None \<Rightarrow> None | Some (m, rest, caps) \<Rightarrow> Some ([], m, rest, caps))"
| "rx_find_from r b (c # s) =
     (case rx_here r b (c # s) of
        Some (m, rest, caps) \<Rightarrow> Some ([], m, rest, caps)
      | None \<Rightarrow> (case rx_find_from r False s of
            None \<Rightarrow> None
          | Some (pre, hit) \<Rightarrow> Some (c # pre, hit)))"

text \<open>\<open>FindStringSubmatchIndex\<close>, as the pieces of the text.\<close>

definition rx_find :: "rx \<Rightarrow> string \<Rightarrow> rx_hit option" where
  "rx_find r s = rx_find_from r True s"

definition rx_matches :: "rx \<Rightarrow> string \<Rightarrow> bool" where
  "rx_matches r s \<longleftrightarrow> rx_find r s \<noteq> None"

definition cap :: "(nat \<times> string) list \<Rightarrow> nat \<Rightarrow> string" where
  "cap caps i = (case map_of caps i of Some s \<Rightarrow> s | None \<Rightarrow> [])"

text \<open>\<open>FindStringSubmatch\<close>: the captures of the leftmost match.\<close>

definition rx_submatch :: "rx \<Rightarrow> string \<Rightarrow> (nat \<Rightarrow> string) option" where
  "rx_submatch r s = map_option (\<lambda>(pre, m, rest, caps). cap caps) (rx_find r s)"

text \<open>\<open>FindAllString\<close> and \<open>ReplaceAllString\<close> for patterns that match no empty text: the
  non-overlapping matches from left to right. A position that is not the first is no beginning.\<close>

function rx_find_all :: "rx \<Rightarrow> bool \<Rightarrow> string \<Rightarrow> (string \<times> (nat \<Rightarrow> string)) list" where
  "rx_find_all r b s =
     (case rx_find_from r b s of
        None \<Rightarrow> []
      | Some (pre, m, rest, caps) \<Rightarrow>
          if length rest < length s then (m, cap caps) # rx_find_all r False rest else [])"
  by pat_completeness auto
termination
  by (relation "measure (\<lambda>(r, b, s). length s)") auto

declare rx_find_all.simps [simp del]

function rx_replace_from :: "rx \<Rightarrow> bool \<Rightarrow> string \<Rightarrow> string \<Rightarrow> string" where
  "rx_replace_from r b by s =
     (case rx_find_from r b s of
        None \<Rightarrow> s
      | Some (pre, m, rest, caps) \<Rightarrow>
          if length rest < length s then pre @ by @ rx_replace_from r False by rest else s)"
  by pat_completeness auto
termination
  by (relation "measure (\<lambda>(r, b, y, s). length s)") auto

declare rx_replace_from.simps [simp del]

definition rx_replace_all :: "rx \<Rightarrow> string \<Rightarrow> string \<Rightarrow> string" where
  "rx_replace_all r s by = rx_replace_from r True by s"

section \<open>Facts\<close>

lemma eat_Cons [simp]: "eat p (b, c # s, caps) = (if p c then [(False, s, caps)] else [])"
  and eat_Nil [simp]: "eat p (b, [], caps) = []"
  by (simp_all add: eat_def)

lemma rx_lit: "rx_all (lit p) (b, s, caps) =
  (if has_prefix s p then [(b \<and> p = [], drop (length p) s, caps)] else [])"
proof (induction p arbitrary: b s)
  case (Cons c p)
  then show ?case by (cases s) (auto simp: has_prefix_def)
qed (simp add: has_prefix_def)

text \<open>A greedy run of a class takes the longest prefix first.\<close>

lemma star_class_hd:
  "length s \<le> n \<Longrightarrow> hd (star_all (eat p) n (b, s, caps)) = (b \<and> takeWhile p s = [], dropWhile p s, caps)"
proof (induction s arbitrary: n b)
  case Nil
  then show ?case by (cases n) auto
next
  case (Cons c s)
  then obtain n' where n: "n = Suc n'" "length s \<le> n'" by (cases n) auto
  have ne: "star_all (eat p) n' st \<noteq> []" for st by (cases n') auto
  then show ?case using Cons.IH [OF n(2), of False] by (simp add: n shorter_def hd_append2)
qed

text \<open>Every way to match leaves a suffix of the text.\<close>

definition leaves :: "rx_state \<Rightarrow> rx_state \<Rightarrow> bool" where
  "leaves st st' \<longleftrightarrow> (\<exists>p. fst (snd st) = p @ fst (snd st'))"

lemma leaves_refl [simp]: "leaves st st"
  by (simp add: leaves_def)

lemma leaves_trans: "leaves a b \<Longrightarrow> leaves b c \<Longrightarrow> leaves a c"
  unfolding leaves_def by (metis append_assoc)

lemma eat_leaves: "st' \<in> set (eat p st) \<Longrightarrow> leaves st st'"
  by (auto simp: eat_def leaves_def split: prod.splits list.splits if_splits)

lemma star_all_leaves:
  assumes "\<And>st st'. st' \<in> set (m st) \<Longrightarrow> leaves st st'"
  shows "st' \<in> set (star_all m n st) \<Longrightarrow> leaves st st'"
proof (induction n arbitrary: st)
  case (Suc n)
  show ?case
  proof (cases "st' = st")
    case False
    then obtain st1 where st1: "st1 \<in> set (m st)" "st' \<in> set (star_all m n st1)"
      using Suc.prems by (simp only: star_all.simps) (auto simp del: split_paired_Ex)
    show ?thesis by (rule leaves_trans [OF assms [OF st1(1)] Suc.IH [OF st1(2)]])
  qed simp
qed simp

lemma rx_all_leaves: "st' \<in> set (rx_all r st) \<Longrightarrow> leaves st st'"
proof (induction r arbitrary: st st')
  case (RSeq r1 r2)
  then obtain st1 where st1: "st1 \<in> set (rx_all r1 st)" "st' \<in> set (rx_all r2 st1)"
    by (auto simp del: split_paired_Ex)
  show ?case by (rule leaves_trans [OF RSeq.IH(1) [OF st1(1)] RSeq.IH(2) [OF st1(2)]])
next
  case (RStar r)
  then show ?case using star_all_leaves [of "rx_all r"] by simp
next
  case (RGrp i r)
  then show ?case by (fastforce simp: close_group_def leaves_def split: prod.splits)
qed (auto dest: eat_leaves split: if_splits)

lemma rx_here_split: "rx_here r b s = Some (m, rest, caps) \<Longrightarrow> s = m @ rest"
  using rx_all_leaves [of "(b', rest, caps)" r "(b, s, [])" for b']
  by (fastforce simp: rx_here_def leaves_def split: list.splits)

lemma rx_find_from_split: "rx_find_from r b s = Some (pre, m, rest, caps) \<Longrightarrow> s = pre @ m @ rest"
  by (induction r b s arbitrary: pre rule: rx_find_from.induct)
    (auto split: option.splits dest: rx_here_split)

lemma rx_find_split: "rx_find r s = Some (pre, m, rest, caps) \<Longrightarrow> s = pre @ m @ rest"
  unfolding rx_find_def by (rule rx_find_from_split)

lemma rx_replace_none: "\<not> rx_matches r s \<Longrightarrow> rx_replace_all r s by = s"
  by (cases "rx_find_from r True s") (auto simp: rx_replace_all_def rx_matches_def rx_find_def rx_replace_from.simps)

section \<open>The preferred way\<close>

text \<open>\<open>prefers r st st'\<close>: the match the package prefers takes \<open>st\<close> to \<open>st'\<close>. It composes as long as the
  preferred way of every part succeeds.\<close>

definition prefers :: "rx \<Rightarrow> rx_state \<Rightarrow> rx_state \<Rightarrow> bool" where
  "prefers r st st' \<longleftrightarrow> (\<exists>others. rx_all r st = st' # others)"

lemma prefers_lit: "prefers (lit p) (b, p @ s, caps) (b \<and> p = [], s, caps)"
  by (simp add: prefers_def rx_lit)

lemma prefers_char: "prefers (RLit c) (b, c # s, caps) (False, s, caps)"
  by (simp add: prefers_def)

lemma prefers_seq: "prefers r1 st st1 \<Longrightarrow> prefers r2 st1 st2 \<Longrightarrow> prefers (RSeq r1 r2) st st2"
  by (auto simp: prefers_def)

lemma prefers_grp:
  "prefers r (b, s @ t, caps) (b', t, caps') \<Longrightarrow> prefers (RGrp i r) (b, s @ t, caps) (b', t, (i, s) # caps')"
  by (auto simp: prefers_def close_group_def)

lemma prefers_bol: "prefers RBol (True, s, caps) (True, s, caps)"
  by (simp add: prefers_def)

lemma prefers_eol: "prefers REol (b, [], caps) (b, [], caps)"
  by (simp add: prefers_def)

lemma rx_set_eat: "rx_all (RSet neg rs) = eat (in_class neg rs)"
  by (rule ext) simp

lemma prefers_star:
  assumes "\<forall>c\<in>set u. in_class neg rs c" "s = [] \<or> \<not> in_class neg rs (hd s)"
  shows "prefers (RStar (RSet neg rs)) (b, u @ s, caps) (b \<and> u = [], s, caps)"
proof -
  let ?p = "in_class neg rs"
  have "takeWhile ?p (u @ s) = u" "dropWhile ?p (u @ s) = s"
    using assms by (cases s; simp add: takeWhile_append dropWhile_append)+
  moreover have "star_all m n st \<noteq> []" for m n st by (cases n) auto
  then obtain st sts where "rx_all (RStar (RSet neg rs)) (b, u @ s, caps) = st # sts"
    unfolding rx_all.simps neq_Nil_conv by blast
  ultimately show ?thesis
    using star_class_hd [of "u @ s" "length (u @ s)" ?p b caps] by (auto simp: prefers_def rx_set_eat)
qed

lemma prefers_plus:
  assumes "u \<noteq> []" "\<forall>c\<in>set u. in_class neg rs c" "s = [] \<or> \<not> in_class neg rs (hd s)"
  shows "prefers (rplus (RSet neg rs)) (b, u @ s, caps) (False, s, caps)"
proof -
  obtain c v where u: "u = c # v" using assms(1) by (cases u) auto
  have "prefers (RSet neg rs) (b, u @ s, caps) (False, v @ s, caps)"
    using assms(2) by (simp add: prefers_def u)
  moreover have "prefers (RStar (RSet neg rs)) (False, v @ s, caps) (False, s, caps)"
    using prefers_star [of v neg rs s False caps] assms u by simp
  ultimately show ?thesis unfolding rplus_def by (rule prefers_seq)
qed

lemma prefers_here: "prefers r (b, m @ rest, []) (b', rest, caps) \<Longrightarrow> rx_here r b (m @ rest) = Some (m, rest, caps)"
  by (auto simp: prefers_def rx_here_def)

lemma prefers_submatch: "prefers r (True, s, []) (b', rest, caps) \<Longrightarrow> rx_submatch r s = Some (cap caps)"
  by (cases s) (auto simp: prefers_def rx_submatch_def rx_find_def rx_here_def)

section \<open>Captures\<close>

text \<open>A capture is made of characters of the text.\<close>

definition caps_from :: "rx_state \<Rightarrow> rx_state \<Rightarrow> bool" where
  "caps_from st st' \<longleftrightarrow> set (fst (snd st')) \<subseteq> set (fst (snd st))
     \<and> (\<forall>ix\<in>set (snd (snd st')). ix \<in> set (snd (snd st)) \<or> set (snd ix) \<subseteq> set (fst (snd st)))"

lemma caps_refl [simp]: "caps_from st st"
  by (simp add: caps_from_def)

lemma caps_trans: "caps_from a b \<Longrightarrow> caps_from b c \<Longrightarrow> caps_from a c"
  unfolding caps_from_def by blast

lemma star_all_caps:
  assumes "\<And>st st'. st' \<in> set (m st) \<Longrightarrow> caps_from st st'"
  shows "st' \<in> set (star_all m n st) \<Longrightarrow> caps_from st st'"
proof (induction n arbitrary: st)
  case (Suc n)
  show ?case
  proof (cases "st' = st")
    case False
    then obtain st1 where "st1 \<in> set (m st)" "st' \<in> set (star_all m n st1)"
      using Suc.prems by (simp only: star_all.simps) (auto simp del: split_paired_Ex)
    then show ?thesis using assms Suc.IH caps_trans by blast
  qed simp
qed simp

lemma eat_caps: "st' \<in> set (eat p st) \<Longrightarrow> caps_from st st'"
  by (auto simp: eat_def caps_from_def split: prod.splits list.splits if_splits)

lemma rx_all_caps: "st' \<in> set (rx_all r st) \<Longrightarrow> caps_from st st'"
proof (induction r arbitrary: st st')
  case (RSeq r1 r2)
  then obtain st1 where st1: "st1 \<in> set (rx_all r1 st)" "st' \<in> set (rx_all r2 st1)"
    by (auto simp del: split_paired_Ex)
  show ?case by (rule caps_trans [OF RSeq.IH(1) [OF st1(1)] RSeq.IH(2) [OF st1(2)]])
next
  case (RStar r)
  then show ?case using star_all_caps [of "rx_all r"] by simp
next
  case (RGrp i r)
  then obtain st1 where st1: "st1 \<in> set (rx_all r st)" "st' = close_group i st st1" by auto
  have "set (take k (fst (snd st))) \<subseteq> set (fst (snd st))" for k by (rule set_take_subset)
  with RGrp.IH [OF st1(1)] show ?case
    unfolding st1(2) by (fastforce simp: close_group_def caps_from_def split: prod.splits)
qed (auto dest: eat_caps split: if_splits)

lemma rx_here_caps:
  assumes "rx_here r b s = Some (m, rest, caps)" "c \<in> set (cap caps i)"
  shows "c \<in> set s"
proof -
  obtain b' xs where "rx_all r (b, s, []) = (b', rest, caps) # xs"
    using assms(1) by (auto simp: rx_here_def split: list.splits)
  then have "caps_from (b, s, []) (b', rest, caps)" by (intro rx_all_caps [of _ r]) simp
  moreover obtain x where "(i, x) \<in> set caps" "c \<in> set x"
    using assms(2) by (cases "map_of caps i") (auto simp: cap_def dest: map_of_SomeD)
  ultimately show ?thesis by (fastforce simp: caps_from_def)
qed

lemma rx_find_from_caps:
  "rx_find_from r b s = Some (pre, m, rest, caps) \<Longrightarrow> c \<in> set (cap caps i) \<Longrightarrow> c \<in> set s"
proof (induction s arbitrary: b pre)
  case Nil
  then show ?case by (auto split: option.splits dest!: rx_here_caps)
next
  case (Cons d s)
  then show ?case
    by (auto split: option.splits dest!: rx_here_caps [of r b "d # s"])
qed

lemma rx_submatch_caps: "rx_submatch r s = Some f \<Longrightarrow> c \<in> set (f i) \<Longrightarrow> c \<in> set s"
  by (auto simp: rx_submatch_def rx_find_def dest: rx_find_from_caps)

section \<open>Giving back\<close>

text \<open>A greedy run gives back one character when what follows does not match behind the longest run.\<close>

lemma prefers_seq_back:
  assumes "rx_all r1 st = st0 # st1 # others" and "rx_all r2 st0 = []" and "prefers r2 st1 st2"
  shows "prefers (RSeq r1 r2) st st2"
  using assms by (auto simp: prefers_def)

lemma star_class_two:
  assumes "\<forall>x\<in>set u. p x" "p c" "s = [] \<or> \<not> p (hd s)"
  shows "length (u @ c # s) \<le> n \<Longrightarrow>
    \<exists>others. star_all (eat p) n (False, u @ c # s, caps) = (False, s, caps) # (False, c # s, caps) # others"
  using assms(1)
proof (induction u arbitrary: n)
  case Nil
  then obtain n' where n: "n = Suc n'" by (cases n) auto
  have "star_all (eat p) n' (False, s, caps) = [(False, s, caps)]"
    using assms(3) by (cases n'; cases s) auto
  then show ?case using assms(2) by (simp add: n shorter_def)
next
  case (Cons x u)
  then obtain n' where n: "n = Suc n'" by (cases n) auto
  with Cons obtain others where
    "star_all (eat p) n' (False, u @ c # s, caps) = (False, s, caps) # (False, c # s, caps) # others"
    by (auto simp del: split_paired_Ex)
  then show ?case using Cons.prems by (simp add: n shorter_def)
qed

lemma star_back:
  assumes "\<forall>x\<in>set u. in_class neg rs x" "in_class neg rs c" "s = [] \<or> \<not> in_class neg rs (hd s)"
  shows "\<exists>others. rx_all (RStar (RSet neg rs)) (False, u @ c # s, caps) = (False, s, caps) # (False, c # s, caps) # others"
  using star_class_two [OF assms order_refl] by (simp add: rx_set_eat)

lemma plus_back:
  assumes "u \<noteq> []" "\<forall>x\<in>set u. in_class neg rs x" "in_class neg rs c" "s = [] \<or> \<not> in_class neg rs (hd s)"
  shows "\<exists>others. rx_all (rplus (RSet neg rs)) (False, u @ c # s, caps) = (False, s, caps) # (False, c # s, caps) # others"
proof -
  obtain x v where u: "u = x # v" using assms(1) by (cases u) auto
  with assms(2) have v: "\<forall>x\<in>set v. in_class neg rs x" by simp
  from star_back [OF this assms(3,4), of caps] assms(2) show ?thesis by (auto simp: rplus_def u)
qed

lemma grp_back:
  assumes "rx_all r (False, u @ c # s, caps) = (False, s, caps) # (False, c # s, caps) # others"
  shows "rx_all (RGrp i r) (False, u @ c # s, caps) =
    (False, s, (i, u @ [c]) # caps) # (False, c # s, (i, u) # caps) # map (close_group i (False, u @ c # s, caps)) others"
  by (simp add: assms close_group_def)

section \<open>A match behind a prefix\<close>

lemma find_behind:
  assumes "\<And>i. i < length pre \<Longrightarrow> \<not> has_prefix (drop i (pre @ s)) p"
    and "rx_here (RSeq (lit p) r) (b \<and> pre = []) s = Some (m, rest, caps)"
  shows "rx_find_from (RSeq (lit p) r) b (pre @ s) = Some (pre, m, rest, caps)"
  using assms
proof (induction pre arbitrary: b)
  case Nil
  then show ?case by (cases s) auto
next
  case (Cons c pre)
  have "\<not> has_prefix (drop i (pre @ s)) p" if "i < length pre" for i
    using Cons.prems(1) [of "Suc i"] that by simp
  moreover have "rx_here (RSeq (lit p) r) b (c # pre @ s) = None"
    using Cons.prems(1) [of 0] by (simp add: rx_here_def rx_lit)
  ultimately show ?case using Cons.IH [of False] Cons.prems(2) by simp
qed

lemma str_index_least:
  "str_index s p = Some k \<Longrightarrow> i < k \<Longrightarrow> \<not> has_prefix (drop i s) p"
proof (induction s p arbitrary: i k rule: str_index.induct)
  case (2 c cs p)
  then show ?case by (cases i) (auto split: if_splits)
qed (auto split: if_splits)

lemma submatch_behind:
  assumes "str_index (pre @ p) p = Some (length pre)"
    and "rx_here (RSeq (lit p) r) (pre = []) (p @ s) = Some (m, rest, caps)"
  shows "rx_submatch (RSeq (lit p) r) (pre @ p @ s) = Some (cap caps)"
proof -
  have "\<not> has_prefix (drop i (pre @ p @ s)) p" if "i < length pre" for i
    using str_index_least [OF assms(1) that] that by (simp add: has_prefix_def)
  from find_behind [of pre "p @ s" p r True, OF this] assms(2) show ?thesis
    by (simp add: rx_submatch_def rx_find_def)
qed

end
