(* ===== verification/RewriteDialect.thy ===== *)
theory RewriteDialect
  imports GoRegexp WorkerAgent
begin

text \<open>
  The backends of the worker (\<open>src/worker/agent/dialect.go\<close>, \<open>rewriter_nvidia.go\<close>,
  \<open>vaapi_driver.go\<close>), the names of the codecs they share, and the Plex Pass gate
  (\<open>pass_gate.go\<close>). A Go map is an association list; the process environment is an association list
  too, a missing variable reading as the empty string.
\<close>

section \<open>Environment\<close>

definition worker_envOr :: "env \<Rightarrow> string \<Rightarrow> string \<Rightarrow> string" where
  "worker_envOr os k dflt = (case map_of os k of Some v \<Rightarrow> if v \<noteq> [] then v else dflt | None \<Rightarrow> dflt)"

definition envBool :: "env \<Rightarrow> string \<Rightarrow> bool" where
  "envBool os k \<longleftrightarrow> to_lower (trim_space (env_get os k)) \<in> {''1'', ''true'', ''yes'', ''on''}"

definition envFrom :: "env \<Rightarrow> env \<Rightarrow> string \<Rightarrow> string" where
  "envFrom os inputEnv k = (case map_of inputEnv k of
     Some v \<Rightarrow> if v \<noteq> [] then v else env_get os k | None \<Rightarrow> env_get os k)"

section \<open>Dialects\<close>

text \<open>The interface \<open>dialect\<close> and its three implementations; \<open>VaapiDialect\<close> holds the vendor.\<close>

datatype dialect = VaapiDialect string | NvencDialect | SwDialect

definition backendName :: "dialect \<Rightarrow> string" where
  "backendName d = (case d of VaapiDialect v \<Rightarrow> ''vaapi'' | NvencDialect \<Rightarrow> ''nvenc'' | SwDialect \<Rightarrow> ''sw'')"

definition isAMD :: "dialect \<Rightarrow> bool" where
  "isAMD d \<longleftrightarrow> d = VaapiDialect ''amd''"

definition vaapiEncoderMap :: env where
  "vaapiEncoderMap = [(''libx264'', ''h264_vaapi''), (''libx265'', ''hevc_vaapi'')]"

definition nvencEncoderMap :: env where
  "nvencEncoderMap = [(''libx264'', ''h264_nvenc''), (''libx265'', ''hevc_nvenc'')]"

definition swEncoderMap :: env where
  "swEncoderMap = [(''libx264'', ''libx264''), (''libx265'', ''libx265'')]"

definition encoderMap :: "dialect \<Rightarrow> env" where
  "encoderMap d = (case d of VaapiDialect v \<Rightarrow> vaapiEncoderMap | NvencDialect \<Rightarrow> nvencEncoderMap | SwDialect \<Rightarrow> swEncoderMap)"

definition hwDecoderMap :: env where
  "hwDecoderMap = [(''libdav1d'', ''av1''), (''libhevc'', ''hevc''), (''libx264'', ''h264'')]"

definition decoderMap :: "dialect \<Rightarrow> env" where
  "decoderMap d = (case d of SwDialect \<Rightarrow> [] | _ \<Rightarrow> hwDecoderMap)"

definition hwShortCodecs :: "string list" where
  "hwShortCodecs = [''av1'', ''hevc'', ''h264'', ''vp9'']"

definition hwDecodeShortCodecs :: "dialect \<Rightarrow> string list" where
  "hwDecodeShortCodecs d = (case d of SwDialect \<Rightarrow> [] | _ \<Rightarrow> hwShortCodecs)"

definition hwaccelName :: "dialect \<Rightarrow> string" where
  "hwaccelName d = (case d of VaapiDialect v \<Rightarrow> ''vaapi'' | NvencDialect \<Rightarrow> ''nvdec'' | SwDialect \<Rightarrow> [])"

definition hwaccelOutputFormat :: "dialect \<Rightarrow> string" where
  "hwaccelOutputFormat d = (case d of VaapiDialect v \<Rightarrow> ''vaapi'' | NvencDialect \<Rightarrow> ''cuda'' | SwDialect \<Rightarrow> [])"

definition filterHWDeviceName :: "dialect \<Rightarrow> string" where
  "filterHWDeviceName d = (case d of VaapiDialect v \<Rightarrow> ''vaapi'' | NvencDialect \<Rightarrow> ''cuda'' | SwDialect \<Rightarrow> [])"

definition initHWDeviceArg :: "dialect \<Rightarrow> int \<Rightarrow> string" where
  "initHWDeviceArg d devIdx = (case d of
     VaapiDialect v \<Rightarrow> ''vaapi=vaapi:'' | NvencDialect \<Rightarrow> ''cuda=cuda:'' @ itoa devIdx | SwDialect \<Rightarrow> [])"

definition scaleFilter :: "dialect \<Rightarrow> string \<Rightarrow> string \<Rightarrow> string \<Rightarrow> string" where
  "scaleFilter d w h pix = (case d of
     VaapiDialect v \<Rightarrow> ''scale_vaapi=w='' @ w @ '':h='' @ h @ '':format='' @ pix
   | NvencDialect \<Rightarrow> ''scale_cuda=w='' @ w @ '':h='' @ h @ '':format='' @ pix
   | SwDialect \<Rightarrow> ''scale=w='' @ w @ '':h='' @ h @ '',format='' @ pix)"

definition validTonemapAlgo :: "string \<Rightarrow> bool" where
  "validTonemapAlgo a \<longleftrightarrow>
     a \<in> {''hable'', ''mobius'', ''reinhard'', ''bt2390'', ''linear'', ''gamma'', ''clip''}"

definition swTonemapNode :: "string \<Rightarrow> string" where
  "swTonemapNode algo = ''format=p010,tonemap='' @ (if validTonemapAlgo algo then algo else ''hable'')"

definition swTonemapChain :: "string \<Rightarrow> string \<Rightarrow> string" where
  "swTonemapChain algo pix = swTonemapNode algo @ '',format='' @ pix"

definition tonemapFilter :: "dialect \<Rightarrow> string \<Rightarrow> string \<Rightarrow> string" where
  "tonemapFilter d algo pix = (case d of
     VaapiDialect v \<Rightarrow> if isAMD d then [] else ''tonemap_vaapi=transfer=bt709:format='' @ pix
   | NvencDialect \<Rightarrow> ''tonemap_cuda=tonemap='' @ algo @ '':format='' @ pix
   | SwDialect \<Rightarrow> swTonemapChain algo pix)"

definition hwUploadFilter :: "dialect \<Rightarrow> string" where
  "hwUploadFilter d = (case d of SwDialect \<Rightarrow> [] | _ \<Rightarrow> ''hwupload'')"

definition hwDownloadFilter :: "dialect \<Rightarrow> string" where
  "hwDownloadFilter d = (case d of SwDialect \<Rightarrow> [] | _ \<Rightarrow> ''hwdownload'')"

definition subBurnDownloadFilter :: "dialect \<Rightarrow> string" where
  "subBurnDownloadFilter d = []"

section \<open>The libva driver and the choice of the dialect\<close>

definition pciVendorVAAPIDriver :: env where
  "pciVendorVAAPIDriver = [(''0x8086'', ''iHD''), (''0x1002'', ''radeonsi''), (''0x10de'', ''nvidia'')]"

text \<open>The contents of the vendor files, \<open>None\<close> for one that cannot be read.\<close>

fun probeVAAPIDriver :: "string option list \<Rightarrow> string" where
  "probeVAAPIDriver [] = ''iHD''"
| "probeVAAPIDriver (f # fs) =
     (case f of
        None \<Rightarrow> probeVAAPIDriver fs
      | Some b \<Rightarrow> (case map_of pciVendorVAAPIDriver (trim_space (to_lower b)) of
            Some drv \<Rightarrow> drv
          | None \<Rightarrow> probeVAAPIDriver fs))"

text \<open>\<open>,driver=[A-Za-z0-9_-]*\<close>\<close>

definition reVAAPIDriverParam :: rx where
  "reVAAPIDriverParam = RSeq (lit '',driver='') (RStar (RSet False
     [(CHR ''A'', CHR ''Z''), (CHR ''a'', CHR ''z''), (CHR ''0'', CHR ''9''), (CHR ''_'', CHR ''_''), (CHR ''-'', CHR ''-'')]))"

definition stripVAAPIDriverParam :: "string \<Rightarrow> string" where
  "stripVAAPIDriverParam arg =
     (if has_prefix arg ''vaapi='' then rx_replace_all reVAAPIDriverParam arg [] else arg)"

definition hasNvidiaDevice :: "(string \<Rightarrow> bool) \<Rightarrow> bool" where
  "hasNvidiaDevice deviceExists \<longleftrightarrow> deviceExists ''/dev/nvidia0'' \<or> deviceExists ''/dev/dxg''"

definition pickVaapiDialect :: "string \<Rightarrow> dialect" where
  "pickVaapiDialect driver = VaapiDialect (if driver = ''radeonsi'' then ''amd'' else ''intel'')"

definition selectDialect :: "env \<Rightarrow> (string \<Rightarrow> bool) \<Rightarrow> bool \<Rightarrow> string \<Rightarrow> dialect" where
  "selectDialect os deviceExists hasRenderNode driver =
     (let want = to_lower (trim_space (env_get os ''WORKER_BACKEND''))
      in if want = ''vaapi'' then pickVaapiDialect driver
         else if want \<in> {''nvenc'', ''nvidia''} then NvencDialect
         else if want \<in> {''sw'', ''cpu'', ''software''} then SwDialect
         else if want \<in> {[], ''auto''} then
           (if hasNvidiaDevice deviceExists then NvencDialect
            else if hasRenderNode then pickVaapiDialect driver
            else SwDialect)
         else pickVaapiDialect driver)"

section \<open>Codec tables\<close>

definition hwEncoderCodec :: env where
  "hwEncoderCodec =
     [(''h264_vaapi'', ''h264''), (''hevc_vaapi'', ''hevc''), (''av1_vaapi'', ''av1''), (''vp9_vaapi'', ''vp9''),
      (''vp8_vaapi'', ''vp8''), (''mjpeg_vaapi'', ''mjpeg''), (''h264_nvenc'', ''h264''),
      (''hevc_nvenc'', ''hevc''), (''av1_nvenc'', ''av1'')]"

definition codecCanonicalSWEncoder :: env where
  "codecCanonicalSWEncoder = [(''h264'', ''libx264''), (''hevc'', ''libx265'')]"

definition swDecoderForShort :: env where
  "swDecoderForShort = [(''av1'', ''libdav1d'')]"

section \<open>The Plex Pass gate\<close>

record passCacheEntry =
  pc_active :: bool
  pc_at :: int

type_synonym passCache = "(string \<times> passCacheEntry) list"

definition passCacheTTL :: int where "passCacheTTL = 5 * 60 * 1000000000"

text \<open>\<open>myPlexSubscription="(\<backslash>d)"\<close>\<close>

definition reMyPlexSubscription :: rx where
  "reMyPlexSubscription = rseq [lit ''myPlexSubscription='', RLit (CHR 0x22), RGrp 1 rdigit, RLit (CHR 0x22)]"

text \<open>The answer to the GET: no answer, or a status and the first 64 KiB of the body, \<open>None\<close> for a
  body that cannot be read.\<close>

datatype pass_reply = PassNoReply | PassReply int "string option"

definition httpPassCheck :: "pass_reply \<Rightarrow> bool option" where
  "httpPassCheck r = (case r of
     PassNoReply \<Rightarrow> None
   | PassReply code body \<Rightarrow>
       if code \<noteq> 200 then Some False
       else (case body of
               None \<Rightarrow> None
             | Some s \<Rightarrow> (case rx_submatch reMyPlexSubscription s of
                 None \<Rightarrow> Some False
               | Some m \<Rightarrow> Some (m 1 = ''1''))))"

definition pass_key :: "string \<Rightarrow> string \<Rightarrow> string" where
  "pass_key base tok = base @ CHR 0x00 # tok"

text \<open>\<open>probe\<close> is the result of \<open>passCheck\<close>, asked at \<open>now\<close> and answered at \<open>later\<close>.\<close>

definition hwAccelAllowed ::
    "env \<Rightarrow> env \<Rightarrow> int \<Rightarrow> int \<Rightarrow> (string \<Rightarrow> string \<Rightarrow> bool option) \<Rightarrow> passCache \<Rightarrow> bool \<times> passCache" where
  "hwAccelAllowed os inputEnv now later probe cache =
     (let v = env_get inputEnv ''SCALEPLEX_PASS_ACTIVE''
      in if v \<noteq> [] then (v = ''1'', cache)
         else
           (let base = envFrom os inputEnv ''SCALEPLEX_PMS_BASE_URL''; tok = envFrom os inputEnv ''X_PLEX_TOKEN''
            in if base = [] \<or> tok = [] then (True, cache)
               else
                 (let ask = (case probe base tok of
                        None \<Rightarrow> (False, cache)
                      | Some active \<Rightarrow>
                          (active, AList.update (pass_key base tok) \<lparr>pc_active = active, pc_at = later\<rparr> cache))
                  in case map_of cache (pass_key base tok) of
                       Some e \<Rightarrow> if now - pc_at e < passCacheTTL then (pc_active e, cache) else ask
                     | None \<Rightarrow> ask)))"

section \<open>What the gate lets through\<close>

text \<open>One session asking: the query, the times, and the probe's answer.\<close>

record pass_query =
  pq_env :: env
  pq_now :: int
  pq_later :: int
  pq_probe :: "string \<Rightarrow> string \<Rightarrow> bool option"

definition pass_ask :: "env \<Rightarrow> pass_query \<Rightarrow> passCache \<Rightarrow> passCache" where
  "pass_ask os q cache = snd (hwAccelAllowed os (pq_env q) (pq_now q) (pq_later q) (pq_probe q) cache)"

text \<open>Every entry of the cache is an answer that one of the queries got.\<close>

definition answered :: "pass_query list \<Rightarrow> string \<Rightarrow> bool \<Rightarrow> int \<Rightarrow> bool" where
  "answered qs key active t \<longleftrightarrow>
     (\<exists>q\<in>set qs. pq_later q = t \<and> (\<exists>base tok. key = pass_key base tok \<and> pq_probe q base tok = Some active))"

definition cache_ok :: "pass_query list \<Rightarrow> passCache \<Rightarrow> bool" where
  "cache_ok qs cache \<longleftrightarrow> (\<forall>key e. map_of cache key = Some e \<longrightarrow> answered qs key (pc_active e) (pc_at e))"

lemma answered_mono: "answered qs key a t \<Longrightarrow> set qs \<subseteq> set qs' \<Longrightarrow> answered qs' key a t"
  unfolding answered_def by blast

lemma pass_ask_ok:
  assumes "cache_ok qs cache"
  shows "cache_ok (qs @ [q]) (pass_ask os q cache)"
proof -
  have "cache_ok (qs @ [q]) cache"
    using assms answered_mono [of qs _ _ _ "qs @ [q]"] by (simp add: cache_ok_def subset_insertI)
  moreover have "cache_ok (qs @ [q]) (AList.update (pass_key base tok) \<lparr>pc_active = a, pc_at = pq_later q\<rparr> cache)"
    if "pq_probe q base tok = Some a" for base tok a
    using calculation that by (auto simp: cache_ok_def gomap.lookup_put answered_def)
  ultimately show ?thesis
    by (auto simp: pass_ask_def hwAccelAllowed_def Let_def split: option.split)
qed

lemma pass_asks_ok: "cache_ok qs (fold (pass_ask os) qs [])"
proof (induction qs rule: rev_induct)
  case Nil
  then show ?case by (simp add: cache_ok_def)
next
  case (snoc q qs)
  then show ?case using pass_ask_ok by simp
qed

lemma allowed_cases:
  assumes "fst (hwAccelAllowed os en now later probe cache)"
  shows "env_get en ''SCALEPLEX_PASS_ACTIVE'' = ''1''
    \<or> env_get en ''SCALEPLEX_PASS_ACTIVE'' = [] \<and>
       (envFrom os en ''SCALEPLEX_PMS_BASE_URL'' = [] \<or> envFrom os en ''X_PLEX_TOKEN'' = []
        \<or> probe (envFrom os en ''SCALEPLEX_PMS_BASE_URL'') (envFrom os en ''X_PLEX_TOKEN'') = Some True
        \<or> (\<exists>e. map_of cache (pass_key (envFrom os en ''SCALEPLEX_PMS_BASE_URL'') (envFrom os en ''X_PLEX_TOKEN'')) = Some e
             \<and> pc_active e \<and> now - pc_at e < passCacheTTL))"
  using assms by (auto simp: hwAccelAllowed_def Let_def split: option.splits if_splits)

section \<open>Drivers\<close>

lemma strip_driver_none: "\<not> has_prefix arg ''vaapi='' \<Longrightarrow> stripVAAPIDriverParam arg = arg"
  by (simp add: stripVAAPIDriverParam_def)

lemma encoder_maps_to_codec:
  "d \<noteq> SwDialect \<Longrightarrow> list_all (\<lambda>(sw, hw). case map_of hwEncoderCodec hw of
     Some c \<Rightarrow> map_of codecCanonicalSWEncoder c = Some sw | None \<Rightarrow> False) (encoderMap d)"
proof (cases d)
  case (VaapiDialect v)
  have "list_all (\<lambda>(sw, hw). case map_of hwEncoderCodec hw of
     Some c \<Rightarrow> map_of codecCanonicalSWEncoder c = Some sw | None \<Rightarrow> False) vaapiEncoderMap" by code_simp
  then show ?thesis by (simp add: VaapiDialect encoderMap_def)
next
  case NvencDialect
  have "list_all (\<lambda>(sw, hw). case map_of hwEncoderCodec hw of
     Some c \<Rightarrow> map_of codecCanonicalSWEncoder c = Some sw | None \<Rightarrow> False) nvencEncoderMap" by code_simp
  then show ?thesis by (simp add: NvencDialect encoderMap_def)
qed simp

end
