(* ===== verification/RewriteArgs.thy ===== *)
theory RewriteArgs
  imports RewriteDialect
begin

text \<open>
  The argument-vector and environment passes of the rewriter (\<open>src/worker/agent/rewriter.go\<close>,
  \<open>probesize.go\<close>, \<open>rewriter_tags.go\<close>): each takes the vector apart and returns it with the tags of
  what it changed. The Go index \<open>-1\<close> is \<open>None\<close>. An operation whose indexing is not guarded by the
  code returns an \<open>option\<close>, \<open>None\<close> being the run-time panic.
\<close>

type_synonym changes = "string list"

section \<open>Vectors\<close>

definition spliceArgs :: "argv \<Rightarrow> nat \<Rightarrow> argv \<Rightarrow> argv" where
  "spliceArgs s i ins = take i s @ ins @ drop i s"

text \<open>In range only: \<open>i + n\<close> is at most the length wherever it is used.\<close>

definition removeArgs :: "argv \<Rightarrow> nat \<Rightarrow> nat \<Rightarrow> argv" where
  "removeArgs s i n = take i s @ drop (i + n) s"

text \<open>The first position with a successor such that both satisfy the predicate.\<close>

fun find_pair :: "('a \<Rightarrow> 'a \<Rightarrow> bool) \<Rightarrow> 'a list \<Rightarrow> nat option" where
  "find_pair p (a # b # r) = (if p a b then Some 0 else map_option Suc (find_pair p (b # r)))"
| "find_pair p r = None"

lemma find_pair_Some:
  "find_pair p xs = Some i \<Longrightarrow> Suc i < length xs \<and> p (xs ! i) (xs ! Suc i)"
  by (induction p xs arbitrary: i rule: find_pair.induct) (auto split: if_splits)

section \<open>Stream specifiers\<close>

definition hexdigits :: rx where
  "hexdigits = rplus (RSet False [(CHR ''0'', CHR ''9''), (CHR ''a'', CHR ''f''), (CHR ''A'', CHR ''F'')])"

text \<open>\<open>:#0x[0-9a-fA-F]+\<close>\<close>

definition streamIDSpecRegex :: rx where
  "streamIDSpecRegex = RSeq (lit '':#0x'') hexdigits"

definition add_id :: "string \<Rightarrow> (string \<times> int) list \<Rightarrow> (string \<times> int) list" where
  "add_id i m = (if map_of m i = None then m @ [(i, int (length m))] else m)"

definition streamIDOrdinalMap :: "argv \<Rightarrow> (string \<times> int) list" where
  "streamIDOrdinalMap args =
     fold add_id (concat (map (\<lambda>a. map (\<lambda>(m, c). drop 2 m) (rx_find_all streamIDSpecRegex True a)) args)) []"

definition streamSpecSelectsOrdinal :: "string \<Rightarrow> int \<Rightarrow> (string \<times> int) list \<Rightarrow> bool" where
  "streamSpecSelectsOrdinal spec ord idMap =
     (case atoi spec of
        Some n \<Rightarrow> n = ord
      | None \<Rightarrow>
          if has_prefix spec ''#0x'' then map_of idMap (drop 1 spec) = Some ord
          else (case str_cut spec (CHR '':'') of
                  Some (t, idx) \<Rightarrow> (t = ''v'' \<or> t = ''V'') \<and> atoi idx = Some ord
                | None \<Rightarrow> False))"

definition streamSpecIndex :: "argv \<Rightarrow> string \<Rightarrow> int \<Rightarrow> nat \<Rightarrow> nat option" where
  "streamSpecIndex args flagBase ord start =
     (let idMap = streamIDOrdinalMap args; prefix = flagBase @ '':''
      in map_option ((+) start)
           (find_from (\<lambda>a. has_prefix a prefix \<and> streamSpecSelectsOrdinal (drop (length prefix) a) ord idMap)
              (drop start args)))"

section \<open>Filter text and subtitles\<close>

definition assStyleKeys :: "string list" where
  "assStyleKeys =
     [''FontName'', ''FontSize'', ''Bold'', ''Italic'', ''Underline'', ''StrikeOut'', ''PrimaryColour'',
      ''SecondaryColour'', ''OutlineColour'', ''BackColour'', ''BorderStyle'', ''Outline'', ''Shadow'',
      ''Alignment'', ''MarginL'', ''MarginR'', ''MarginV'', ''ScaleX'', ''ScaleY'', ''Spacing'', ''Angle'']"

definition style_pairs :: "string \<Rightarrow> string list" where
  "style_pairs p = (case str_cut p (CHR ''='') of
     None \<Rightarrow> []
   | Some (k, v) \<Rightarrow>
       if k = ''font_size'' then [''FontSize='' @ v]
       else if k = ''outline'' then [''Outline='' @ v]
       else if k = ''shadow'' then [''Shadow='' @ v]
       else if k = ''overrides'' then
         concat (map (\<lambda>ov. case str_cut ov (CHR ''='') of
            Some (k', v') \<Rightarrow> if k' \<in> set assStyleKeys then [k' @ ''='' @ v'] else [] | None \<Rightarrow> [])
           (split_on (CHR '','') v))
       else [])"

definition plexInlineassToForceStyle :: "string \<Rightarrow> string" where
  "plexInlineassToForceStyle params = join_with '','' (concat (map style_pairs (split_on (CHR '':'') params)))"

definition bslash :: char where "bslash = CHR 0x5C"

definition squote :: char where "squote = CHR 0x27"

definition escapeFilterPath :: "string \<Rightarrow> string" where
  "escapeFilterPath p =
     replace_all (replace_all (replace_all p [bslash] [bslash, bslash]) '':'' [bslash, CHR '':''])
       [squote] [bslash, squote]"

definition isHDRTransfer :: "string \<Rightarrow> bool" where
  "isHDRTransfer transfer \<longleftrightarrow> to_lower transfer \<in> {''smpte2084'', ''smpte428'', ''arib-std-b67''}"

definition subtitleKind :: "string \<Rightarrow> string" where
  "subtitleKind codec =
     (if to_lower codec \<in> {''subrip'', ''srt'', ''ass'', ''ssa'', ''mov_text'', ''tx3g'', ''webvtt'', ''vtt'',
         ''microdvd'', ''jacosub'', ''sami'', ''realtext'', ''stl'', ''subviewer'', ''hdmv_text_subtitle''}
      then ''text''
      else if to_lower codec \<in> {''hdmv_pgs_subtitle'', ''pgssub'', ''pgs'', ''dvb_subtitle'', ''dvbsub'',
         ''dvd_subtitle'', ''dvdsub'', ''xsub''}
      then ''bitmap'' else ''unknown'')"

definition assAnimationTags :: "string list" where
  "assAnimationTags = map ((#) bslash) [''k'', ''K'', ''t('', ''move('', ''fad'']"

text \<open>\<open>readFile\<close> is \<open>None\<close> for the nil function, and returns \<open>None\<close> on a read error.\<close>

definition subtitleIsAnimated :: "string \<Rightarrow> string \<Rightarrow> (string \<Rightarrow> string option) option \<Rightarrow> bool" where
  "subtitleIsAnimated codec filePath readFile =
     (if to_lower codec \<in> {''subrip'', ''srt''} then False
      else if to_lower codec \<in> {''ass'', ''ssa''} then
        (if filePath = [] then True
         else (case readFile of
             None \<Rightarrow> True
           | Some rf \<Rightarrow> (case rf filePath of
               None \<Rightarrow> True
             | Some body \<Rightarrow> list_ex (str_contains body) assAnimationTags)))
      else False)"

record subtitleSource =
  Kind :: string
  Codec :: string
  StreamSpec :: string
  FilePath :: string
  SecondInputArgIdx :: int

definition input_num :: "string \<Rightarrow> int" where
  "input_num streamSpec = (case index_byte streamSpec (\<lambda>c. c = CHR '':'') of
     Some colon \<Rightarrow> if 0 < colon then (case atoi (take colon streamSpec) of Some n \<Rightarrow> n | None \<Rightarrow> 0) else 0
   | None \<Rightarrow> 0)"

definition probe_spec :: "int \<Rightarrow> string \<Rightarrow> string" where
  "probe_spec inputNum streamSpec = (if 0 < inputNum
     then (case index_byte streamSpec (\<lambda>c. c = CHR '':'') of
             Some colon \<Rightarrow> if 0 < colon then drop (Suc colon) streamSpec else streamSpec
           | None \<Rightarrow> streamSpec)
     else streamSpec)"

text \<open>The outer \<open>None\<close> is the panic on a negative input number, the inner one Go's \<open>nil\<close>.\<close>

definition detectSubtitleSource ::
    "argv \<Rightarrow> (string \<Rightarrow> string \<Rightarrow> string) option \<Rightarrow> subtitleSource option option" where
  "detectSubtitleSource args probe =
     (case index_of_arg args ''-map_inlineass'' 0 of
        None \<Rightarrow> Some None
      | Some mia \<Rightarrow>
          if length args \<le> mia + 1 then Some None
          else
            (let streamSpec = args ! (mia + 1);
                 inputArgIdxs = filter (\<lambda>i. args ! i = ''-i'') [0..<length args - 1];
                 inputNum = input_num streamSpec
             in if inputArgIdxs = [] then Some None
                else if int (length inputArgIdxs) \<le> inputNum then Some None
                else if inputNum < 0 then None
                else
                  (let idx = inputArgIdxs ! nat inputNum;
                       src = args ! (idx + 1);
                       codec = (case probe of Some f \<Rightarrow> to_lower (f src (probe_spec inputNum streamSpec)) | None \<Rightarrow> []);
                       kind = (if subtitleKind codec = ''unknown'' then ''text'' else subtitleKind codec);
                       res = \<lparr>Kind = kind, Codec = codec, StreamSpec = streamSpec, FilePath = [], SecondInputArgIdx = -1\<rparr>
                   in Some (Some
                        (if inputNum = 0 then res
                         else if kind = ''text'' then res\<lparr>SecondInputArgIdx := int idx, FilePath := src\<rparr>
                         else res)))))"

section \<open>Audio codecs and EAE\<close>

datatype eaeDirection = eaeDecode | eaeEncode

definition eaeBaseFor :: "string \<Rightarrow> eaeDirection \<Rightarrow> string" where
  "eaeBaseFor eaeName direction =
     (if \<not> has_suffix eaeName ''_eae'' then []
      else
        (let base = trim_suffix eaeName ''_eae''
         in case direction of
              eaeDecode \<Rightarrow> base
            | eaeEncode \<Rightarrow> if base \<in> {''eac3'', ''ac3''} then base else ''eac3''))"

definition audioCodecFlag :: "string \<Rightarrow> bool" where
  "audioCodecFlag s \<longleftrightarrow>
     s = ''-c:a''
     \<or> has_prefix s ''-codec:'' \<and> atoi (drop 7 s) \<noteq> None
     \<or> has_prefix s ''-c:a:'' \<and> atoi (drop 5 s) \<noteq> None"

text \<open>One position of the loop; the swapped pairs are kept once.\<close>

definition eae_at :: "nat option \<Rightarrow> nat \<Rightarrow> argv \<times> (string \<times> string) list \<Rightarrow> argv \<times> (string \<times> string) list" where
  "eae_at iIdx i st = (case st of (args, swapped) \<Rightarrow>
     if \<not> audioCodecFlag (args ! i) \<or> length args \<le> i + 1 then (args, swapped)
     else
       (let dir = (case iIdx of Some k \<Rightarrow> if i < k then eaeDecode else eaeEncode | None \<Rightarrow> eaeEncode);
            src = args ! (i + 1);
            dst = eaeBaseFor src dir
        in if dst = [] then (args, swapped)
           else (args[i + 1 := dst], if (src, dst) \<in> set swapped then swapped else swapped @ [(src, dst)])))"

definition swapEAEAudioDecoders :: "argv \<Rightarrow> argv \<times> (string \<times> string) list" where
  "swapEAEAudioDecoders args = fold (eae_at (index_of_arg args ''-i'' 0)) [0..<length args] (args, [])"

text \<open>The loops that drop flag-value pairs start over after every removal.\<close>

function dropEAEPrefixFlags :: "argv \<Rightarrow> (argv \<times> changes) option" where
  "dropEAEPrefixFlags args =
     (case find_from (\<lambda>a. has_prefix a ''-eae_prefix'') args of
        None \<Rightarrow> Some (args, [])
      | Some i \<Rightarrow>
          if length args < i + 2 then None
          else (case dropEAEPrefixFlags (removeArgs args i 2) of
                  None \<Rightarrow> None
                | Some (r, dropped) \<Rightarrow> Some (r, args ! i # dropped)))"
  by pat_completeness auto
termination
  by (relation "measure length") (auto simp: removeArgs_def)

function dropFramedropBSF :: "argv \<Rightarrow> argv \<times> changes" where
  "dropFramedropBSF args =
     (case find_pair (\<lambda>a b. has_prefix a ''-bsf:'' \<and> has_prefix b ''framedrop='') args of
        None \<Rightarrow> (args, [])
      | Some i \<Rightarrow>
          (case dropFramedropBSF (removeArgs args i 2) of (r, dropped) \<Rightarrow> (r, args ! i # dropped)))"
  by pat_completeness auto
termination
  by (relation "measure length") (auto simp: removeArgs_def dest: find_pair_Some)

definition inputDecoderHintFlag :: "string \<Rightarrow> bool" where
  "inputDecoderHintFlag s \<longleftrightarrow>
     s \<in> {''-c:v'', ''-c:a'', ''-c:s'', ''-c:d'', ''-c:t''}
     \<or> has_prefix s ''-codec:'' \<and> drop 7 s \<noteq> []
     \<or> has_prefix s ''-c:'' \<and> drop 3 s \<noteq> []"

function drop_hints :: "argv \<Rightarrow> argv \<times> changes" where
  "drop_hints args =
     (case index_of_arg args ''-i'' 0 of
        None \<Rightarrow> (args, [])
      | Some iIdx \<Rightarrow>
          (case find_pair (\<lambda>a b. inputDecoderHintFlag a) args of
             None \<Rightarrow> (args, [])
           | Some i \<Rightarrow>
               if iIdx \<le> i then (args, [])
               else (case drop_hints (removeArgs args i 2) of
                       (r, ch) \<Rightarrow> (r, (''drop:'' @ args ! i @ ''='' @ args ! (i + 1) @ ''(bail)'') # ch))))"
  by pat_completeness auto
termination
  by (relation "measure length") (auto simp: removeArgs_def dest: find_pair_Some)

function drop_orphans :: "argv \<Rightarrow> argv \<times> changes" where
  "drop_orphans args =
     (case find_pair (\<lambda>a b. has_prefix a ''-eae_prefix'') args of
        None \<Rightarrow> (args, [])
      | Some i \<Rightarrow>
          (case drop_orphans (removeArgs args i 2) of (r, ch) \<Rightarrow> (r, ''drop:-eae_prefix(bail)'' # ch)))"
  by pat_completeness auto
termination
  by (relation "measure length") (auto simp: removeArgs_def dest: find_pair_Some)

declare dropEAEPrefixFlags.simps [simp del] dropFramedropBSF.simps [simp del]
  drop_hints.simps [simp del] drop_orphans.simps [simp del]

definition dropInputAudioDecoderHints :: "argv \<Rightarrow> argv \<times> changes" where
  "dropInputAudioDecoderHints args =
     (case drop_hints args of (r, ch) \<Rightarrow> case drop_orphans r of (r', ch') \<Rightarrow> (r', ch @ ch'))"

definition sink_at :: "argv \<Rightarrow> nat \<Rightarrow> bool" where
  "sink_at args i \<longleftrightarrow>
     args ! i = ''-map'' \<and> args ! (i + 2) = ''-f'' \<and> args ! (i + 3) = ''null'' \<and> args ! (i + 4) = ''-codec''
     \<and> (args ! (i + 5) = ''ass'' \<or> args ! (i + 5) = ''dvdsub'') \<and> args ! (i + 6) = ''nullfile''"

definition stripInlineassDecodeSink :: "argv \<Rightarrow> argv \<times> bool" where
  "stripInlineassDecodeSink args =
     (case index_of_arg args ''-map_inlineass'' 0 of
        None \<Rightarrow> (args, False)
      | Some mi \<Rightarrow>
          if length args \<le> mi + 1 then (args, False)
          else
            (let spec = args ! (mi + 1)
             in if (case index_byte spec (\<lambda>c. c = CHR '':'') of
                      Some colon \<Rightarrow> 0 < colon \<and> take colon spec \<noteq> ''0'' | None \<Rightarrow> False)
                then (args, False)
                else (case find (sink_at args) [0..<length args - 6] of
                        Some i \<Rightarrow> (removeArgs args i 7, True)
                      | None \<Rightarrow> (args, False))))"

section \<open>Font paths\<close>

definition scrub_pair :: "string \<Rightarrow> bool" where
  "scrub_pair p \<longleftrightarrow> (case str_cut p (CHR ''='') of
     Some (k, v) \<Rightarrow> k = ''font_path'' \<or> k = ''fontconfig_file'' | None \<Rightarrow> False)"

definition node_end :: "char \<Rightarrow> bool" where
  "node_end c \<longleftrightarrow> c = CHR ''['' \<or> c = CHR '';''"

function scrub_from :: "string \<Rightarrow> string \<times> bool" where
  "scrub_from s =
     (case str_index s ''inlineass='' of
        None \<Rightarrow> (s, False)
      | Some j \<Rightarrow>
          (let rest = drop (j + 10) s;
               pairs = split_on (CHR '':'') (takeWhile (Not \<circ> node_end) rest)
           in case scrub_from (dropWhile (Not \<circ> node_end) rest) of
                (r, changed) \<Rightarrow>
                  (take (j + 10) s @ join_with '':'' (filter (Not \<circ> scrub_pair) pairs) @ r,
                   list_ex scrub_pair pairs \<or> changed)))"
  by pat_completeness auto
termination
proof (relation "measure length"; clarsimp)
  fix s j
  assume "str_index s ''inlineass='' = Some j"
  then have "j + 10 \<le> length s" by (auto dest: str_index_le)
  then show "length (dropWhile (Not \<circ> node_end) (drop (j + 10) s)) < length s"
    using length_dropWhile_le [of "Not \<circ> node_end" "drop (j + 10) s"] by simp
qed

declare scrub_from.simps [simp del]

definition scrubPlexInlineassFilesystemPaths :: "string \<Rightarrow> string \<times> bool" where
  "scrubPlexInlineassFilesystemPaths filterStr =
     (if \<not> str_contains filterStr ''inlineass='' then (filterStr, False) else scrub_from filterStr)"

definition scrub_arg :: "nat \<Rightarrow> argv \<times> bool \<Rightarrow> argv \<times> bool" where
  "scrub_arg i st = (case st of (out, didAny) \<Rightarrow>
     if out ! i \<noteq> ''-filter_complex'' then st
     else (case scrubPlexInlineassFilesystemPaths (out ! (i + 1)) of
             (newVal, did) \<Rightarrow> if did then (out[i + 1 := newVal], True) else st))"

definition scrubPlexInlineassFilesystemPathsInArgs :: "argv \<Rightarrow> argv \<times> bool" where
  "scrubPlexInlineassFilesystemPathsInArgs args = fold scrub_arg [0..<length args - 1] (args, False)"

section \<open>URLs of the media server\<close>

definition loopback :: string where "loopback = ''http://127.0.0.1:32400''"

definition replace_first :: "string \<Rightarrow> string \<Rightarrow> string \<Rightarrow> string" where
  "replace_first s p r = (case str_index s p of
     None \<Rightarrow> s | Some i \<Rightarrow> take i s @ r @ drop (i + length p) s)"

definition pms_base :: "env \<Rightarrow> env \<Rightarrow> string" where
  "pms_base os inputEnv = (case map_of inputEnv ''SCALEPLEX_PMS_BASE_URL'' of
     Some b \<Rightarrow> if b \<noteq> [] then b else worker_envOr os ''SCALEPLEX_PMS_BASE_URL'' []
   | None \<Rightarrow> worker_envOr os ''SCALEPLEX_PMS_BASE_URL'' [])"

definition appendQuery :: "string \<Rightarrow> string \<Rightarrow> string" where
  "appendQuery url kv = url @ (if str_contains url ''?'' then ''&'' else ''?'') @ kv"

definition with_token :: "string \<Rightarrow> env \<Rightarrow> string" where
  "with_token url inputEnv =
     (let tok = env_get inputEnv ''X_PLEX_TOKEN''
      in if tok \<noteq> [] then appendQuery url (''X-Plex-Token='' @ tok) else url)"

definition rewriteManifestName :: "env \<Rightarrow> argv \<Rightarrow> env \<Rightarrow> argv \<times> changes" where
  "rewriteManifestName os args inputEnv =
     (case index_of_arg args ''-manifest_name'' 0 of
        None \<Rightarrow> (args, [])
      | Some i \<Rightarrow>
          if length args \<le> i + 1 then (args, [])
          else
            (let base = pms_base os inputEnv; origURL = args ! (i + 1)
             in if base \<noteq> [] \<and> has_prefix origURL loopback
                then (args[i + 1 := with_token (replace_first origURL loopback base) inputEnv],
                      [''manifest_name:rewrite-to-relay''])
                else (removeArgs args i 2, [''drop:-manifest_name(no-pms-base-or-non-loopback)''])))"

definition segment_list_url :: "string \<Rightarrow> env \<Rightarrow> string \<Rightarrow> string \<Rightarrow> string \<Rightarrow> string" where
  "segment_list_url base inputEnv segTime variant origURL =
     (let rewritten = with_token (replace_first origURL loopback base) inputEnv
      in if variant = ''hls'' \<and> segTime \<noteq> [] then appendQuery rewritten (''scaleplex_seg_time='' @ segTime)
         else rewritten)"

function segment_list_from ::
    "string \<Rightarrow> env \<Rightarrow> string \<Rightarrow> string \<Rightarrow> nat \<Rightarrow> argv \<Rightarrow> argv \<times> changes" where
  "segment_list_from base inputEnv segTime variant from args =
     (case index_of_arg args ''-segment_list'' from of
        None \<Rightarrow> (args, [])
      | Some i \<Rightarrow>
          if length args \<le> i + 1 then (args, [])
          else
            (let origURL = args ! (i + 1); isSubChannel = str_contains origURL ''stream=subtitles''
             in if \<not> has_prefix origURL loopback
                  \<or> variant = ''hls'' \<and> isSubChannel
                  \<or> variant = ''side-channel'' \<and> \<not> isSubChannel
                then segment_list_from base inputEnv segTime variant (i + 2) args
                else (case segment_list_from base inputEnv segTime variant (i + 2)
                        (args[i + 1 := segment_list_url base inputEnv segTime variant origURL]) of
                        (r, ch) \<Rightarrow>
                          (r, (if variant = ''side-channel'' then ''subs:side-channel-segment_list:rewrite-to-relay''
                               else ''hls:segment_list:rewrite-to-relay'') # ch))))"
  by pat_completeness auto
termination
  by (relation "measure (\<lambda>(base, inputEnv, segTime, variant, from, args). length args - from)")
    (auto dest!: index_of_arg_Some)

declare segment_list_from.simps [simp del]

definition rewriteSegmentList :: "env \<Rightarrow> argv \<Rightarrow> env \<Rightarrow> string \<Rightarrow> string \<Rightarrow> argv \<times> changes" where
  "rewriteSegmentList os args inputEnv segTime variant =
     (let base = pms_base os inputEnv
      in if base = [] then (args, []) else segment_list_from base inputEnv segTime variant 0 args)"

definition capturePMSProgressURL :: "env \<Rightarrow> argv \<Rightarrow> env \<Rightarrow> argv \<times> string \<times> changes" where
  "capturePMSProgressURL os args inputEnv =
     (case index_of_arg args ''-progressurl'' 0 of
        None \<Rightarrow> (args, [], [])
      | Some i \<Rightarrow>
          if length args \<le> i + 1 then (args, [], [])
          else
            (let base = pms_base os inputEnv; origURL = args ! (i + 1); args1 = removeArgs args i 2
             in if base = [] then (args1, [], [''drop:-progressurl(no-pms-base)''])
                else
                  (let rewritten = with_token (replace_first origURL loopback base) inputEnv;
                       ch1 = (if env_get inputEnv ''X_PLEX_TOKEN'' \<noteq> [] then [''progress:append-X-Plex-Token''] else [])
                         @ [''progressurl:captured-for-reporter'']
                   in if index_of_arg args1 ''-canthrottleurl'' 0 \<noteq> None then (args1, rewritten, ch1)
                      else if env_get os ''SCALEPLEX_DISABLE_CANTHROTTLE'' \<noteq> []
                      then (args1, rewritten, ch1 @ [''canthrottle:disabled-by-env''])
                      else (spliceArgs args1 0 [''-canthrottleurl'', rewritten], rewritten,
                            ch1 @ [''inject:-canthrottleurl(scaleplex-ffmpeg7-canThrottle)'']))))"

section \<open>Log level, statistics, environment\<close>

definition upgradeLoglevelFromQuiet :: "env \<Rightarrow> argv \<Rightarrow> argv \<times> bool" where
  "upgradeLoglevelFromQuiet os args =
     (case index_of_arg args ''-loglevel'' 0 of
        None \<Rightarrow> (args, False)
      | Some i \<Rightarrow>
          if i + 1 < length args \<and> args ! (i + 1) \<in> {''quiet'', ''panic'', ''fatal''}
          then (args[i + 1 := worker_envOr os ''SCALEPLEX_FFMPEG_LOGLEVEL'' ''info''], True)
          else (args, False))"

definition dropNostatsFlag :: "argv \<Rightarrow> argv \<times> bool" where
  "dropNostatsFlag args = (case index_of_arg args ''-nostats'' 0 of
     Some i \<Rightarrow> (removeArgs args i 1, True) | None \<Rightarrow> (args, False))"

definition strip_env :: "string \<Rightarrow> env \<times> changes \<Rightarrow> env \<times> changes" where
  "strip_env k st = (case st of (en, ch) \<Rightarrow>
     if map_of en k \<noteq> None then (AList.delete k en, ch @ [''env:strip:'' @ k]) else (en, ch))"

definition stripEAEEnvVars :: "env \<Rightarrow> env \<times> changes" where
  "stripEAEEnvVars en = fold strip_env [''EAE_ROOT'', ''FFMPEG_EXTERNAL_LIBS'', ''OCL_ICD_VENDORS''] (en, [])"

definition setWorkerHomeEnv :: "env \<Rightarrow> env \<Rightarrow> env" where
  "setWorkerHomeEnv os en = AList.update ''HOME'' (worker_envOr os ''HW_RUNTIME_HOME'' ''/home/ubuntu'') en"

definition isOptimizeRemux :: "dialect \<Rightarrow> argv \<Rightarrow> bool" where
  "isOptimizeRemux d args =
     (case index_of_arg args ''-i'' 0 of
        None \<Rightarrow> False
      | Some iIdx \<Rightarrow>
          (case streamSpecIndex args ''-codec'' 0 0 of
             None \<Rightarrow> False
           | Some dIdx \<Rightarrow>
               if iIdx \<le> dIdx \<or> length args \<le> dIdx + 1 then False
               else if args ! (dIdx + 1) \<notin> set (hwDecodeShortCodecs d) then False
               else if streamSpecIndex args ''-hwaccel'' 0 0 \<noteq> None then False
               else (case streamSpecIndex args ''-codec'' 0 (iIdx + 1) of
                       None \<Rightarrow> False
                     | Some encIdx \<Rightarrow> encIdx + 1 < length args \<and> args ! (encIdx + 1) = ''copy'')))"

definition hasOpenCLInitDevice :: "argv \<Rightarrow> bool" where
  "hasOpenCLInitDevice args \<longleftrightarrow>
     find_pair (\<lambda>a b. a = ''-init_hw_device'' \<and> has_prefix b ''opencl='') args \<noteq> None"

section \<open>Probe sizes\<close>

record probeKey =
  pk_inode :: nat
  pk_mtime :: int
  pk_dev :: nat

definition probeSizeCandidates :: "int list" where
  "probeSizeCandidates = [1048576, 4194304, 20971520]"

text \<open>\<open>keyFor\<close> is the result of \<open>os.Stat\<close>; \<open>probeOK\<close> tells whether ffprobe listed a stream.\<close>

definition adaptiveProbesize ::
    "(string \<Rightarrow> probeKey option) \<Rightarrow> (string \<Rightarrow> int \<Rightarrow> bool) \<Rightarrow> string \<Rightarrow> (probeKey \<times> int) list \<Rightarrow> int \<times> (probeKey \<times> int) list" where
  "adaptiveProbesize keyFor probeOK path cache =
     (case keyFor path of
        None \<Rightarrow> (0, cache)
      | Some key \<Rightarrow>
          (case map_of cache key of
             Some n \<Rightarrow> (n, cache)
           | None \<Rightarrow> (case find (probeOK path) probeSizeCandidates of
               Some n \<Rightarrow> (n, AList.update key n cache) | None \<Rightarrow> (0, cache))))"

definition set_value :: "nat option \<Rightarrow> string \<Rightarrow> string \<Rightarrow> argv \<times> changes \<Rightarrow> argv \<times> changes" where
  "set_value idx tag s st = (case st of (args, ch) \<Rightarrow> (case idx of
     Some i \<Rightarrow> if i + 1 < length args then (args[i + 1 := s], ch @ [tag @ s]) else st | None \<Rightarrow> st))"

definition applyAdaptiveProbesize ::
    "(string \<Rightarrow> probeKey option) \<Rightarrow> (string \<Rightarrow> int \<Rightarrow> bool) \<Rightarrow> argv \<Rightarrow> (probeKey \<times> int) list
      \<Rightarrow> (argv \<times> changes) \<times> (probeKey \<times> int) list" where
  "applyAdaptiveProbesize keyFor probeOK args cache =
     (let psIdx = index_of_arg args ''-probesize'' 0; adIdx = index_of_arg args ''-analyzeduration'' 0
      in if psIdx = None \<and> adIdx = None then ((args, []), cache)
         else (case index_of_arg args ''-i'' 0 of
           None \<Rightarrow> ((args, []), cache)
         | Some inputIdx \<Rightarrow>
             if length args \<le> inputIdx + 1 then ((args, []), cache)
             else (case adaptiveProbesize keyFor probeOK (args ! (inputIdx + 1)) cache of (picked, cache') \<Rightarrow>
               if picked = 0 then ((args, []), cache')
               else (set_value adIdx ''analyzeduration:'' (itoa picked)
                       (set_value psIdx ''probesize:'' (itoa picked) (args, [])), cache'))))"
section \<open>Change tags\<close>

text \<open>The inventory of \<open>rewriter_tags.go\<close>: the exact tags, the prefixes of the composed tags (the
  constant \<open>TagEncodeHEVCMain10\<close> stands in that block), and the reasons of a bail.\<close>

definition fullTags :: "string list" where
  "fullTags =
     [''add:-map_inlineass'', ''bail:segment_list:rewrite-to-relay'', ''canthrottle:disabled-by-env'',
      ''drop:-eae_prefix(bail)'', ''drop:inlineass-decode-sink'', ''drop:-nostats'',
      ''drop:-progressurl(bail)'', ''env:HOME'', ''env:LIBVA'',
      ''filter:inlineass:scrub-plex-font-paths'', ''bail:manifest_name:rewrite-to-relay'',
      ''bail:manifest_name:drop(no-pms-base-or-non-loopback)'', ''filter:tonemap_opencl-normalized'',
      ''filter:tonemap_opencl->tonemap_vaapi'', ''force-hw:would-honor-hwdec-swenc'',
      ''force-hw:would-honor-sw'', ''pass-gate:denied-honor-sw'', ''hls:segment_list:rewrite-to-relay'',
      ''hw-decode:filter:bitmap-inlineass-vaapi'', ''hw-decode:filter:inlineass-vaapi'',
      ''hw-decode:filter:opencl-tonemap->vaapi:inlineass-vaapi'', ''hw-decode:map-label-update'',
      ''honor:plex-hwdec-swenc'', ''honor:plex-sw'',
      ''inject:-canthrottleurl(scaleplex-ffmpeg7-canThrottle)'',
      ''inject:init_hw_device+filter_hw_device'', ''replace:foreign-init_hw_device'',
      ''strip:init_hw_device:driver'', ''to-sw:strip-hwdecode'', ''inject:sei+a53_cc'',
      ''loglevel:->info'', ''map-label-update'', ''progress:append-X-Plex-Token'',
      ''progressurl:captured-for-reporter'', ''subs:side-channel-segment_list:rewrite-to-relay'',
      ''tonemap:ocl:collapse-revmap-download'', ''tonemap:ocl:drop-lead-hwupload'',
      ''tonemap:ocl:force-output-format-vaapi'', ''tonemap:ocl:inject-opencl-device'']"

definition prefixTags :: "string list" where
  "prefixTags =
     [''audio:'', ''filter-pattern:'', ''hw-decode-sub:unmodeled-graph:'',
      ''hw-decode:unexpected-encoder:'', ''unknown-decoder:'', ''unknown-encoder:'', ''decode:'',
      ''decode:bare-hw-upgrade:'', ''decode:hw-passthrough:'', ''drop:'', ''encode:'',
      ''encode:hw-passthrough:'', ''encode:hevc:profile=main10'', ''env:strip:'', ''filter:'',
      ''force-hw:reshape-hybrid:'', ''hw-decode:filter:bitmap-inlineass-vaapi:hdr-tonemap('',
      ''hw-decode-sub:tonemap-preserved('', ''seek-offset:captured=%.3fs'', ''skip:'',
      ''skip_to_segment:passthrough='', ''subtitle:bitmap:'', ''video:hdr-source('', ''to-sw:'',
      ''to-sw:filter:'', ''to-sw:encode:'', ''to-sw:decode:'']"

definition bailReasons :: "string list" where
  "bailReasons =
     [''hw-decode-sub:bitmap-unsupported'', ''hw-decode-sub:no-inlineass-filter'', ''no-decoder'',
      ''no-encoder'', ''no-input'', ''no-video-filter'', ''subtitles-burn-in'']"

definition tag_listed :: "string \<Rightarrow> bool" where
  "tag_listed t \<longleftrightarrow> t \<in> set fullTags \<or> list_ex (has_prefix t) prefixTags"

definition relabel_pairs :: "(string \<times> string) list" where
  "relabel_pairs =
     [(''bitmap-inlineass-vaapi'', ''bitmap-inlineass-cuda''), (''opencl-tonemap->vaapi'', ''tonemap_cuda''),
      (''tonemap_opencl-normalized'', ''tonemap_cuda-normalized''), (''inlineass-vaapi'', ''inlineass-cuda'')]"

definition cross_target :: "changes \<Rightarrow> string" where
  "cross_target tags = (case find (\<lambda>t. has_prefix t ''cross-backend:'') tags of
     None \<Rightarrow> []
   | Some t \<Rightarrow> (case str_last_index t ''->'' of
       Some i \<Rightarrow> if 0 < i then drop (i + 2) t else [] | None \<Rightarrow> []))"

definition relabel_tag :: "string \<Rightarrow> string" where
  "relabel_tag t = fold (\<lambda>(a, b) t. if str_contains t a then replace_all t a b else t) relabel_pairs t"

definition relabelCrossBackendTags :: "changes \<Rightarrow> changes" where
  "relabelCrossBackendTags tags = (if cross_target tags = ''nvenc'' then map relabel_tag tags else tags)"

section \<open>Passes that report what they change\<close>

text \<open>The contract between a pass and its callers, who keep or discard the vector by looking at the
  reported changes only: a pass that reports nothing has changed nothing.\<close>

locale reporting_pass =
  fixes pass :: "'a \<Rightarrow> 'a \<times> 'c list"
  assumes silent: "snd (pass x) = [] \<Longrightarrow> fst (pass x) = x"
begin

lemma untouched: "pass x = (y, []) \<Longrightarrow> y = x"
  using silent [of x] by simp

lemma then_untouched:
  assumes "\<And>x y. pass' x = (y, []) \<Longrightarrow> y = x"
  shows "(case pass x of (y, c) \<Rightarrow> case pass' y of (z, d) \<Rightarrow> (z, c @ d)) = (z', []) \<Longrightarrow> z' = x"
  using untouched assms by (auto split: prod.splits)

end

lemma reporting_pass_alt: "(\<And>x y. pass x = (y, []) \<Longrightarrow> y = x) \<Longrightarrow> reporting_pass pass"
  by (unfold_locales) (metis prod.collapse)

lemma fold_silent:
  assumes "\<And>i x c y. f i (x, c) = (y, []) \<Longrightarrow> c = [] \<and> y = x"
  shows "fold f js (x, c) = (y, []) \<Longrightarrow> c = [] \<and> y = x"
proof (induction js arbitrary: x c)
  case (Cons i js)
  obtain x1 c1 where st: "f i (x, c) = (x1, c1)" by fastforce
  with Cons have "c1 = [] \<and> y = x1" by simp
  with st assms [of i x c x1] show ?case by auto
qed simp

interpretation framedrop: reporting_pass dropFramedropBSF
proof (rule reporting_pass_alt)
  fix x y :: argv
  show "dropFramedropBSF x = (y, []) \<Longrightarrow> y = x"
    by (subst (asm) dropFramedropBSF.simps) (auto split: option.splits prod.splits)
qed

interpretation hints: reporting_pass drop_hints
proof (rule reporting_pass_alt)
  fix x y :: argv
  show "drop_hints x = (y, []) \<Longrightarrow> y = x"
    by (subst (asm) drop_hints.simps) (auto split: option.splits prod.splits if_splits)
qed

interpretation orphans: reporting_pass drop_orphans
proof (rule reporting_pass_alt)
  fix x y :: argv
  show "drop_orphans x = (y, []) \<Longrightarrow> y = x"
    by (subst (asm) drop_orphans.simps) (auto split: option.splits prod.splits)
qed

interpretation inputhints: reporting_pass dropInputAudioDecoderHints
  by (rule reporting_pass_alt, unfold dropInputAudioDecoderHints_def)
    (rule hints.then_untouched, rule orphans.untouched)

lemma eae_at_silent: "eae_at k i (x, c) = (y, []) \<Longrightarrow> c = [] \<and> y = x"
  by (simp add: eae_at_def Let_def split: if_splits)

interpretation eae: reporting_pass swapEAEAudioDecoders
proof (rule reporting_pass_alt)
  fix x y :: argv
  show "swapEAEAudioDecoders x = (y, []) \<Longrightarrow> y = x"
    unfolding swapEAEAudioDecoders_def by (rule fold_silent [OF eae_at_silent, THEN conjunct2])
qed

interpretation manifest: reporting_pass "\<lambda>args. rewriteManifestName os args en" for os en
  by unfold_locales (auto simp: rewriteManifestName_def Let_def split: option.splits if_splits)

interpretation seglist: reporting_pass "segment_list_from base en t v from" for base en t v "from"
proof (rule reporting_pass_alt)
  fix x y :: argv
  show "segment_list_from base en t v from x = (y, []) \<Longrightarrow> y = x"
  proof (induction base en t v "from" x rule: segment_list_from.induct)
    case (1 base en t v "from" args)
    show ?case
    proof (cases "index_of_arg args ''-segment_list'' from")
      case None
      with "1.prems" show ?thesis by (simp add: segment_list_from.simps [of base en t v "from"])
    next
      case (Some i)
      define skip where "skip \<longleftrightarrow> (let origURL = args ! (i + 1); isSub = str_contains origURL ''stream=subtitles''
        in \<not> has_prefix origURL loopback \<or> v = ''hls'' \<and> isSub \<or> v = ''side-channel'' \<and> \<not> isSub)"
      have "\<not> length args \<le> i + 1 \<Longrightarrow> skip \<and> segment_list_from base en t v (i + 2) args = (y, [])"
        using "1.prems" Some unfolding skip_def
        by (subst (asm) segment_list_from.simps) (auto simp: Let_def split: if_splits prod.splits)
      moreover have "length args \<le> i + 1 \<Longrightarrow> ?thesis"
        using "1.prems" Some by (subst (asm) segment_list_from.simps) simp
      ultimately show ?thesis
        using "1.IH"(1) [OF Some _ refl refl] unfolding skip_def by (metis (no_types, lifting))
    qed
  qed
qed

section \<open>The scrub is idempotent\<close>

lemma scrub_from_hd: "s \<noteq> [] \<Longrightarrow> \<exists>r. fst (scrub_from s) = hd s # r"
  by (subst scrub_from.simps, cases s; cases "str_index s ''inlineass=''")
    (simp_all add: Let_def case_prod_unfold eval_nat_numeral)

lemma takeWhile_until:
  "\<forall>c\<in>set k. P c \<Longrightarrow> r = [] \<or> \<not> P (hd r) \<Longrightarrow> takeWhile P (k @ r) = k \<and> dropWhile P (k @ r) = r"
  by (cases r) auto

lemma scrub_from_fixed: "scrub_from (fst (scrub_from s)) = (fst (scrub_from s), False)"
proof (induction s rule: scrub_from.induct)
  case (1 s)
  show ?case
  proof (cases "str_index s ''inlineass=''")
    case None
    then show ?thesis by (subst (1 2) scrub_from.simps) (simp add: scrub_from.simps [of s])
  next
    case (Some j)
    define rest seg T where "rest = drop (j + 10) s" and "seg = takeWhile (Not \<circ> node_end) rest"
      and "T = dropWhile (Not \<circ> node_end) rest"
    define kept where "kept = filter (Not \<circ> scrub_pair) (split_on (CHR '':'') seg)"
    define K R where "K = join_with '':'' kept" and "R = fst (scrub_from T)"
    have fst: "fst (scrub_from s) = take (j + 10) s @ K @ R"
      by (subst scrub_from.simps) (simp add: Some Let_def case_prod_unfold rest_def seg_def T_def kept_def K_def R_def)
    have IH: "scrub_from R = (R, False)"
      using "1.IH" [OF Some refl refl] by (simp add: R_def T_def rest_def)
    have hdR: "R = [] \<or> \<not> (Not \<circ> node_end) (hd R)"
    proof (cases "T = []")
      case True
      then show ?thesis by (simp add: R_def scrub_from.simps [of "[]"])
    next
      case False
      then have "node_end (hd T)" using hd_dropWhile [of "Not \<circ> node_end" rest] by (simp add: T_def)
      with scrub_from_hd [OF False] show ?thesis by (auto simp: R_def)
    qed
    have "set p \<subseteq> set seg" if "p \<in> set kept" for p
      using that set_split by (fastforce simp: kept_def)
    then have "set K \<subseteq> insert (CHR '':'') (set seg)"
      using set_join [of "'':''" kept] by (auto simp: K_def)
    moreover have "\<forall>c\<in>set seg. \<not> node_end c" by (auto simp: seg_def dest: set_takeWhileD)
    ultimately have "\<forall>c\<in>set K. (Not \<circ> node_end) c" by (auto simp: node_end_def)
    note tw = takeWhile_until [OF this hdR]
    have idx: "str_index (take (j + 10) s @ K @ R) ''inlineass='' = Some j"
      using str_index_prefix [OF Some, of "K @ R"] by (simp add: eval_nat_numeral)
    have len: "length (take (j + 10) s) = j + 10" using str_index_le [OF Some] by simp
    have clean: "filter (Not \<circ> scrub_pair) (split_on (CHR '':'') K) = split_on (CHR '':'') K
      \<and> \<not> list_ex scrub_pair (split_on (CHR '':'') K)"
    proof (cases "kept = []")
      case True
      then show ?thesis by (simp add: K_def scrub_pair_def str_cut_def)
    next
      case False
      have "\<forall>p\<in>set kept. CHR '':'' \<notin> set p"
        using split_on_no_sep [of "CHR '':''" seg] by (simp add: kept_def)
      then have "split_on (CHR '':'') K = kept" unfolding K_def by (rule split_on_join [OF _ False])
      then show ?thesis by (auto simp: kept_def list_ex_iff comp_def)
    qed
    have cut: "take (j + 10) (take (j + 10) s @ K @ R) = take (j + 10) s"
      "drop (j + 10) (take (j + 10) s @ K @ R) = K @ R"
      using len by simp_all
    show ?thesis
      unfolding fst by (subst scrub_from.simps) (simp only: idx option.case Let_def cut tw IH clean prod.case
        join_split_on simp_thms)
  qed
qed

lemma scrub_idempotent:
  "scrubPlexInlineassFilesystemPaths (fst (scrubPlexInlineassFilesystemPaths s))
     = (fst (scrubPlexInlineassFilesystemPaths s), False)"
  by (simp add: scrubPlexInlineassFilesystemPaths_def scrub_from_fixed)

section \<open>What the EAE pass does at each position\<close>

definition eae_dir :: "nat option \<Rightarrow> nat \<Rightarrow> eaeDirection" where
  "eae_dir k i = (case k of Some n \<Rightarrow> if i < n then eaeDecode else eaeEncode | None \<Rightarrow> eaeEncode)"

definition eae_value :: "argv \<Rightarrow> nat option \<Rightarrow> nat \<Rightarrow> string" where
  "eae_value args k j =
     (if j = 0 \<or> \<not> audioCodecFlag (args ! (j - 1)) \<or> eaeBaseFor (args ! j) (eae_dir k (j - 1)) = [] then args ! j
      else eaeBaseFor (args ! j) (eae_dir k (j - 1)))"

lemma eae_at_fst:
  "fst (eae_at k i (args, sw)) =
     (if Suc i < length args \<and> audioCodecFlag (args ! i) \<and> eaeBaseFor (args ! Suc i) (eae_dir k i) \<noteq> []
      then args[Suc i := eaeBaseFor (args ! Suc i) (eae_dir k i)] else args)"
  by (auto simp: eae_at_def Let_def eae_dir_def)

text \<open>No argument turns into a codec flag when its suffix is taken off.\<close>

definition plain_values :: "argv \<Rightarrow> bool" where
  "plain_values args \<longleftrightarrow> (\<forall>a\<in>set args. \<forall>d. \<not> audioCodecFlag (eaeBaseFor a d))"

lemma plain_values_list:
  "plain_values args \<longleftrightarrow> list_all (\<lambda>a. \<not> audioCodecFlag (eaeBaseFor a eaeDecode) \<and> \<not> audioCodecFlag (eaeBaseFor a eaeEncode)) args"
proof -
  have "(\<forall>d. P d) \<longleftrightarrow> P eaeDecode \<and> P eaeEncode" for P
    using eaeDirection.exhaust by metis
  then show ?thesis by (simp add: plain_values_def list_all_iff)
qed

lemma parse_digits_all: "parse_digits a s = Some n \<Longrightarrow> \<forall>c\<in>set s. is_digit c"
  by (induction s arbitrary: a) (auto split: if_splits)

lemma atoi_last: "atoi s = Some n \<Longrightarrow> s \<noteq> [] \<and> is_digit (last s)"
  by (cases s) (auto simp: atoi_def parse_nat_def Let_def split: if_splits option.splits dest!: parse_digits_all)

lemma eae_not_flag: "has_suffix a ''_eae'' \<Longrightarrow> \<not> audioCodecFlag a"
proof
  assume "has_suffix a ''_eae''" and flag: "audioCodecFlag a"
  then obtain b where a: "a = b @ ''_eae''" by (auto simp: has_suffix_iff)
  have l: "s = drop k a \<Longrightarrow> atoi s \<noteq> None \<Longrightarrow> False" for s k
  proof -
    assume s: "s = drop k a" and "atoi s \<noteq> None"
    then obtain n where "atoi s = Some n" by blast
    then have "s \<noteq> []" "is_digit (last s)" using atoi_last [of s n] by simp_all
    moreover have "last s = last a" using calculation(1) s by (metis drop_eq_Nil last_drop not_less)
    ultimately have "is_digit (last a)" by simp
    then show False by (simp add: a is_digit_def)
  qed
  have "a \<noteq> ''-c:a''" using a by (cases b) (auto simp: append_eq_Cons_conv)
  with flag l show False by (auto simp: audioCodecFlag_def)
qed

lemma eaeBaseFor_suffix: "eaeBaseFor a d \<noteq> [] \<Longrightarrow> has_suffix a ''_eae''"
  by (auto simp: eaeBaseFor_def split: if_splits)

lemma eae_flag_kept:
  "plain_values args \<Longrightarrow> j < length args \<Longrightarrow> audioCodecFlag (eae_value args k j) \<longleftrightarrow> audioCodecFlag (args ! j)"
  using eae_not_flag [OF eaeBaseFor_suffix] by (auto simp: eae_value_def plain_values_def)

lemma eae_fold:
  assumes "plain_values args" "n \<le> length args"
  shows "fst (fold (eae_at k) [0..<n] (args, [])) =
    map (\<lambda>j. if j \<le> n then eae_value args k j else args ! j) [0..<length args]"
  using assms(2)
proof (induction n)
  case 0
  show ?case by (rule nth_equalityI) (auto simp: eae_value_def)
next
  case (Suc n)
  obtain a sw where st: "fold (eae_at k) [0..<n] (args, []) = (a, sw)" by fastforce
  have a: "a = map (\<lambda>j. if j \<le> n then eae_value args k j else args ! j) [0..<length args]"
    using Suc st by simp
  have flag: "audioCodecFlag (a ! n) \<longleftrightarrow> audioCodecFlag (args ! n)"
    using Suc.prems eae_flag_kept [OF assms(1)] by (simp add: a)
  have "fst (fold (eae_at k) [0..<Suc n] (args, [])) = fst (eae_at k n (a, sw))"
    by (simp add: st)
  also have "\<dots> = map (\<lambda>j. if j \<le> Suc n then eae_value args k j else args ! j) [0..<length args]"
  proof (rule nth_equalityI)
    fix j
    assume "j < length (fst (eae_at k n (a, sw)))"
    then have j: "j < length args" by (simp add: eae_at_fst a split: if_splits)
    show "fst (eae_at k n (a, sw)) ! j =
      map (\<lambda>j. if j \<le> Suc n then eae_value args k j else args ! j) [0..<length args] ! j"
    proof (cases "j = Suc n")
      case True
      with j show ?thesis unfolding eae_at_fst flag by (auto simp: a eae_value_def)
    next
      case False
      with j show ?thesis unfolding eae_at_fst by (auto simp: a)
    qed
  qed (simp add: eae_at_fst a)
  finally show ?case .
qed

lemma eae_pointwise:
  assumes "plain_values args"
  shows "fst (swapEAEAudioDecoders args) = map (eae_value args (index_of_arg args ''-i'' 0)) [0..<length args]"
  unfolding swapEAEAudioDecoders_def eae_fold [OF assms order_refl] by simp

end
