(* ===== verification/RewriteGraph.thy ===== *)
theory RewriteGraph
  imports RewriteArgs
begin

text \<open>
  The filter graphs of the rewriter (\<open>src/worker/agent/rewriter.go\<close>, \<open>rewriter_sw.go\<close>): the facts
  extracted from a graph of the media server, the canonical graphs composed from such facts, and the
  passes over the graphs of an argument vector.
\<close>

section \<open>Configuration\<close>

definition subRenderHeightDefault :: int where "subRenderHeightDefault = 1080"

definition subRenderHeightCap :: "env \<Rightarrow> int" where
  "subRenderHeightCap os =
     (let v = env_get os ''SCALEPLEX_SUB_RENDER_HEIGHT''
      in if v = [] then subRenderHeightDefault
         else (case atoi v of Some n \<Rightarrow> if n \<le> 0 then 0 else n | None \<Rightarrow> 0))"

record tonemapConfig =
  useOpenCL :: bool
  tm_algo :: string
  tm_d :: "dialect option"

definition backend :: "tonemapConfig \<Rightarrow> dialect" where
  "backend tm = (case tm_d tm of None \<Rightarrow> VaapiDialect [] | Some d \<Rightarrow> d)"

definition resolveTonemapConfig :: "env \<Rightarrow> dialect \<Rightarrow> tonemapConfig" where
  "resolveTonemapConfig os activeDialect =
     (let a = to_lower (env_get os ''SCALEPLEX_TONEMAP_ALGO'')
      in \<lparr>useOpenCL = backendName activeDialect = ''vaapi'' \<and> to_lower (env_get os ''SCALEPLEX_TONEMAP'') \<noteq> ''vaapi'',
          tm_algo = (if validTonemapAlgo a then a else ''hable''),
          tm_d = Some activeDialect\<rparr>)"

definition tm_stage :: "tonemapConfig \<Rightarrow> string \<Rightarrow> string" where
  "tm_stage tm algo =
     (if \<not> useOpenCL tm then tonemapFilter (backend tm) algo ''nv12''
      else ''hwmap=derive_device=opencl,tonemap_opencl=tonemap='' @ (if validTonemapAlgo algo then algo else tm_algo tm)
        @ '':transfer=bt709:matrix=bt709:primaries=bt709:format=nv12,hwmap=derive_device=vaapi:reverse=1'')"

definition hdrScaleAlgo :: "tonemapConfig \<Rightarrow> string \<Rightarrow> string \<Rightarrow> string \<Rightarrow> string" where
  "hdrScaleAlgo tm w h algo = scaleFilter (backend tm) w h ''p010'' @ '','' @ tm_stage tm algo"

definition hdrScale :: "tonemapConfig \<Rightarrow> string \<Rightarrow> string \<Rightarrow> string" where
  "hdrScale tm w h = hdrScaleAlgo tm w h []"

section \<open>Composing a graph\<close>

record burnSpec =
  vaResident :: bool
  bs_w :: string
  bs_h :: string
  bs_hdr :: bool
  bs_algo :: string
  tenBit :: bool
  burnSub :: bool
  bs_subParams :: string
  animatedTierDown :: bool
  bs_subKind :: string
  bs_subSpec :: string

definition bracket :: "nat \<Rightarrow> string" where
  "bracket n = ''['' @ utoa n @ '']''"

text \<open>The stages that open every hardware graph: the upload of a frame in system memory, and the
  source label after it.\<close>

definition upload_stage :: "dialect \<Rightarrow> burnSpec \<Rightarrow> string" where
  "upload_stage d s = (if vaResident s then [] else ''[0:0]'' @ hwUploadFilter d @ bracket 0 @ '';'')"

definition upload_src :: "burnSpec \<Rightarrow> string" where
  "upload_src s = (if vaResident s then ''[0:0]'' else bracket 0)"

definition first_label :: "burnSpec \<Rightarrow> nat" where
  "first_label s = (if vaResident s then 0 else 1)"

text \<open>The parameters of the subtitle stage.\<close>

definition sub_params :: "env \<Rightarrow> burnSpec \<Rightarrow> string" where
  "sub_params os s =
     (if bs_subParams s \<noteq> [] then bs_subParams s @ '':'' else []) @ ''render_height='' @ itoa (subRenderHeightCap os)
       @ (if animatedTierDown s then '':animated_tier_down=1'' else [])"

definition composeBurnAMDHDR :: "env \<Rightarrow> dialect \<Rightarrow> burnSpec \<Rightarrow> string \<times> string" where
  "composeBurnAMDHDR os d s =
     (let scaled = first_label s; o' = Suc scaled
      in (upload_stage d s @ upload_src s @ scaleFilter d (bs_w s) (bs_h s) ''p010'' @ bracket scaled
            @ '';'' @ bracket scaled @ ''inlineass=''
            @ (if burnSub s then sub_params os s @ '':hdr_to_sdr=1'' else ''tonemap_only=1:hdr_to_sdr=1'')
            @ bracket o',
          bracket o'))"

definition composeBurnSW :: "burnSpec \<Rightarrow> string \<times> string" where
  "composeBurnSW s =
     (let bitmap = burnSub s \<and> bs_subKind s = ''bitmap'';
          sub = (if bitmap
            then ''['' @ bs_subSpec s @ '']scale='' @ bs_w s @ '':'' @ bs_h s @ bracket 0 @ '';'' else []);
          scaled = (if bitmap then 1 else 0);
          main = ''[0:0]scale=w='' @ bs_w s @ '':h='' @ bs_h s @ '':force_divisible_by=4'' @ bracket scaled;
          tm = (if bs_hdr s
            then '';'' @ bracket scaled @ swTonemapNode (bs_algo s) @ bracket (Suc scaled) else []);
          cur = (if bs_hdr s then Suc scaled else scaled);
          fmt = Suc cur;
          fmtn = '';'' @ bracket cur @ ''format=pix_fmts=yuv420p|nv12'' @ bracket fmt;
          burn = (if \<not> burnSub s then []
            else if bitmap then '';'' @ bracket fmt @ bracket 0 @ ''overlay'' @ bracket (Suc fmt)
            else '';'' @ bracket fmt @ ''inlineass='' @ bs_subParams s @ bracket (Suc fmt))
      in (sub @ main @ tm @ fmtn @ burn, bracket (if burnSub s then Suc fmt else fmt)))"

definition composeBurn :: "env \<Rightarrow> tonemapConfig \<Rightarrow> burnSpec \<Rightarrow> string \<times> string" where
  "composeBurn os tm s =
     (let d = backend tm
      in if backendName d = ''sw'' then composeBurnSW s
         else if isAMD d \<and> bs_hdr s then composeBurnAMDHDR os d s
         else
           (let scaled = first_label s;
                main = upload_stage d s @ upload_src s
                  @ (if bs_hdr s then scaleFilter d (bs_w s) (bs_h s) ''p010'' @ '','' @ tm_stage tm (bs_algo s)
                     else if tenBit s then scaleFilter d (bs_w s) (bs_h s) ''p010''
                     else scaleFilter d (bs_w s) (bs_h s) ''nv12'')
                  @ bracket scaled;
                dl = subBurnDownloadFilter d;
                down = (if dl \<noteq> [] then '';'' @ bracket scaled @ dl @ bracket (Suc scaled) else []);
                inlineassSrc = (if dl \<noteq> [] then Suc scaled else scaled)
            in if burnSub s
               then (main @ down @ '';'' @ bracket inlineassSrc @ ''inlineass='' @ sub_params os s
                       @ bracket (Suc inlineassSrc),
                     bracket (Suc inlineassSrc))
               else (main, bracket scaled)))"

definition appendSelectStage :: "string \<Rightarrow> string \<Rightarrow> string \<Rightarrow> string \<times> string" where
  "appendSelectStage flt label expr =
     (if expr = [] then (flt, label)
      else (flt @ '';'' @ label @ ''select='' @ expr @ ''[vsel]'', ''[vsel]''))"

section \<open>Patterns\<close>

definition ralnum :: rx where
  "ralnum = RSet False [(CHR ''A'', CHR ''Z''), (CHR ''a'', CHR ''z''), (CHR ''0'', CHR ''9'')]"

definition rdigits :: rx where "rdigits = rplus rdigit"

text \<open>A label of digits, and the label of the video input in both forms.\<close>

definition rlabel :: rx where "rlabel = rseq [RLit (CHR ''[''), rdigits, RLit (CHR '']'')]"

definition rvideo0 :: rx where
  "rvideo0 = rseq [lit ''[0:'', ralt [lit ''0'', RSeq (lit ''#0x'') hexdigits], RLit (CHR '']'')]"

definition reBitmapSubBranch :: rx where
  "reBitmapSubBranch = rseq [RLit (CHR ''[''), RGrp 1 (RSeq (lit ''0:'') rdigits), lit '']scale='', rdigits,
     RLit (CHR '':''), rdigits, lit '',hwupload['']"

definition reBitmapMainScale :: rx where
  "reBitmapMainScale = rseq [rvideo0, lit ''hwupload'', rlabel, RLit (CHR '';''), rlabel, lit ''scale_'',
     ralt [lit ''vaapi'', lit ''cuda''], lit ''=w='', RGrp 1 rdigits, lit '':h='', RGrp 2 rdigits]"

definition reVideoInput0 :: rx where "reVideoInput0 = RSeq RBol rvideo0"

definition reTonemapOpenCLAlgo :: rx where
  "reTonemapOpenCLAlgo = RSeq (lit ''tonemap_opencl=tonemap='') (RGrp 1 (rplus ralnum))"

definition reGraphTrailingLabel :: rx where
  "reGraphTrailingLabel = rseq [RLit (CHR ''[''), RGrp 1 rdigits, RLit (CHR '']''), REol]"

definition reGraphScaleWH :: rx where
  "reGraphScaleWH = rseq [lit ''scale'', ropt (RSeq (lit ''_'') (ralt [lit ''vaapi'', lit ''cuda''])), lit ''=w='',
     RGrp 1 rdigits, lit '':h='', RGrp 2 rdigits]"

definition reGraphTonemapSW :: rx where
  "reGraphTonemapSW = rseq [ralt [RBol, rchars '',;]''], lit ''tonemap='', RGrp 1 (rplus ralnum)]"

definition reGraphTonemapCUDA :: rx where
  "reGraphTonemapCUDA = rseq [lit ''tonemap_cuda='', ropt (lit ''tonemap=''), RGrp 1 (rplus ralnum)]"

definition reGraphInlineass :: rx where
  "reGraphInlineass = RSeq (lit ''inlineass='') (RGrp 1 (RStar (rnone ''['')))"

definition reGraphSelect :: rx where
  "reGraphSelect = rseq [rchars '';]'', lit ''select='', RGrp 1 (rplus (rnone ''['')), RLit (CHR ''['')]"

definition reGraphFilterName :: rx where
  "reGraphFilterName = rseq [ralt [RBol, rchars '';,]''],
     RStar (RSet False [(CHR 0x09, CHR 0x0A), (CHR 0x0C, CHR 0x0D), (CHR 0x20, CHR 0x20)]),
     RGrp 1 (RSeq (RSet False [(CHR ''a'', CHR ''z''), (CHR ''_'', CHR ''_'')])
       (RStar (RSet False [(CHR ''a'', CHR ''z''), (CHR ''0'', CHR ''9''), (CHR ''_'', CHR ''_'')]))),
     ralt [rchars ''=[,;'', REol]]"

definition graphLeadsWithVideoInput0 :: "string \<Rightarrow> string \<Rightarrow> bool" where
  "graphLeadsWithVideoInput0 graph sfx \<longleftrightarrow>
     (case rx_find reVideoInput0 graph of None \<Rightarrow> False | Some (pre, m, rest, caps) \<Rightarrow> has_prefix rest sfx)"

section \<open>The facts of a graph\<close>

record graphFacts =
  gf_w :: string
  gf_h :: string
  gf_hdr :: bool
  gf_algo :: string
  gf_subKind :: string
  gf_subParams :: string
  gf_subSpec :: string
  selectExpr :: string
  gf_ok :: bool

definition no_facts :: graphFacts where
  "no_facts = \<lparr>gf_w = [], gf_h = [], gf_hdr = False, gf_algo = [], gf_subKind = [], gf_subParams = [],
     gf_subSpec = [], selectExpr = [], gf_ok = False\<rparr>"

definition modeledFilterNodes :: "string list" where
  "modeledFilterNodes =
     [''scale'', ''scale_vaapi'', ''scale_cuda'', ''hwupload'', ''hwdownload'', ''hwmap'', ''format'', ''setparams'',
      ''tonemap'', ''tonemap_opencl'', ''tonemap_vaapi'', ''tonemap_cuda'', ''zscale'', ''inlineass'',
      ''overlay_vaapi'', ''overlay_cuda'', ''select'']"

definition graphNodesModeled :: "string \<Rightarrow> bool" where
  "graphNodesModeled graph \<longleftrightarrow>
     list_all (\<lambda>(m, c). c 1 \<in> set modeledFilterNodes) (rx_find_all reGraphFilterName True graph)"

text \<open>The stream, the size, the algorithm and whether there is a tone mapping.\<close>

definition detectBitmapOverlayBurn :: "string \<Rightarrow> (string \<times> string \<times> string \<times> string \<times> bool) option" where
  "detectBitmapOverlayBurn graph =
     (if \<not> str_contains graph ''overlay_vaapi'' \<and> \<not> str_contains graph ''overlay_cuda'' then None
      else (case rx_submatch reBitmapSubBranch graph of
          None \<Rightarrow> None
        | Some sb \<Rightarrow> (case rx_submatch reBitmapMainScale graph of
            None \<Rightarrow> None
          | Some ms \<Rightarrow> (case rx_submatch reTonemapOpenCLAlgo graph of
              Some m \<Rightarrow> Some (sb 1, ms 1, ms 2, m 1, True)
            | None \<Rightarrow> Some (sb 1, ms 1, ms 2, [], False)))))"

definition graph_tonemap :: "string \<Rightarrow> bool \<times> string" where
  "graph_tonemap graph =
     (case rx_submatch reTonemapOpenCLAlgo graph of
        Some m \<Rightarrow> (True, m 1)
      | None \<Rightarrow> (case rx_submatch reGraphTonemapCUDA graph of
          Some m \<Rightarrow> (True, m 1)
        | None \<Rightarrow> (case rx_submatch reGraphTonemapSW graph of
            Some m \<Rightarrow> (True, m 1)
          | None \<Rightarrow> (str_contains graph ''tonemap_vaapi'', []))))"

text \<open>Kind, parameters and stream of the subtitles.\<close>

definition graph_sub :: "string \<Rightarrow> subtitleSource option \<Rightarrow> string \<times> string \<times> string" where
  "graph_sub graph subSrc =
     (case subSrc of
        Some ss \<Rightarrow>
          if Kind ss = ''bitmap'' then (''bitmap'', [], StreamSpec ss)
          else if Kind ss = ''text'' \<or> str_contains graph ''inlineass=''
          then (''text'', (case rx_submatch reGraphInlineass graph of Some im \<Rightarrow> im 1 | None \<Rightarrow> []), [])
          else ([], [], [])
      | None \<Rightarrow>
          if str_contains graph ''inlineass=''
          then (''text'', (case rx_submatch reGraphInlineass graph of Some im \<Rightarrow> im 1 | None \<Rightarrow> []), [])
          else ([], [], []))"

definition extract_rest :: "string \<Rightarrow> subtitleSource option \<Rightarrow> string \<Rightarrow> graphFacts" where
  "extract_rest graph subSrc sel =
     (let f = no_facts\<lparr>selectExpr := sel\<rparr>
      in case detectBitmapOverlayBurn graph of
           Some (spec, w, h, algo, hdr) \<Rightarrow>
             if \<not> graphNodesModeled graph then f
             else f\<lparr>gf_w := w, gf_h := h, gf_algo := algo, gf_hdr := hdr, gf_subKind := ''bitmap'',
                    gf_subSpec := spec, gf_ok := True\<rparr>
         | None \<Rightarrow> (case rx_submatch reGraphScaleWH graph of
             None \<Rightarrow> f
           | Some m \<Rightarrow>
               (case graph_tonemap graph of (hdr, algo) \<Rightarrow>
                case graph_sub graph subSrc of (kind, params, spec) \<Rightarrow>
                  f\<lparr>gf_w := m 1, gf_h := m 2, gf_hdr := hdr, gf_algo := algo, gf_subKind := kind,
                    gf_subParams := params, gf_subSpec := spec, gf_ok := graphNodesModeled graph\<rparr>)))"

definition extractGraphFacts :: "string \<Rightarrow> subtitleSource option \<Rightarrow> graphFacts" where
  "extractGraphFacts graph subSrc =
     (if str_contains graph ''select=''
      then (case rx_submatch reGraphSelect graph of
              None \<Rightarrow> no_facts
            | Some m \<Rightarrow> extract_rest graph subSrc (m 1))
      else extract_rest graph subSrc [])"

section \<open>Recomposing\<close>

record filterRewrite =
  Filter :: string
  OldLabel :: string
  NewLabel :: string
  Mode :: string

definition composeMode :: "graphFacts \<Rightarrow> string" where
  "composeMode f =
     (if gf_subKind f = ''bitmap'' then ''bitmap-inlineass-vaapi''
      else if gf_subKind f = ''text'' then ''text-inlineass-vaapi''
      else if gf_hdr f then ''hdr-tonemap-vaapi'' else ''plain'')"

definition trailing_label :: "string \<Rightarrow> string" where
  "trailing_label g = (case rx_submatch reGraphTrailingLabel g of
     Some m \<Rightarrow> ''['' @ m 1 @ '']'' | None \<Rightarrow> [])"

text \<open>\<open>readFile\<close> is \<open>os.ReadFile\<close>.\<close>

definition sub_animated :: "(string \<Rightarrow> string option) \<Rightarrow> graphFacts \<Rightarrow> subtitleSource option \<Rightarrow> bool" where
  "sub_animated readFile f subSrc = (case subSrc of
     Some ss \<Rightarrow> gf_subKind f = ''text'' \<and> subtitleIsAnimated (Codec ss) (FilePath ss) (Some readFile)
   | None \<Rightarrow> False)"

definition rewriteVideoFilter ::
    "env \<Rightarrow> (string \<Rightarrow> string option) \<Rightarrow> string \<Rightarrow> subtitleSource option \<Rightarrow> tonemapConfig \<Rightarrow> filterRewrite option" where
  "rewriteVideoFilter os readFile filterStr subSrc tm =
     (if \<not> graphLeadsWithVideoInput0 filterStr ''scale=w='' then None
      else
        (let facts = extractGraphFacts filterStr subSrc
         in if \<not> gf_ok facts then None
            else
              (let spec = \<lparr>vaResident = False, bs_w = gf_w facts, bs_h = gf_h facts, bs_hdr = gf_hdr facts,
                     bs_algo = gf_algo facts, tenBit = False, burnSub = gf_subKind facts \<noteq> [],
                     bs_subParams = gf_subParams facts, animatedTierDown = sub_animated readFile facts subSrc,
                     bs_subKind = [], bs_subSpec = []\<rparr>
               in case composeBurn os tm spec of (f, l) \<Rightarrow>
                  case appendSelectStage f l (selectExpr facts) of (f', l') \<Rightarrow>
                    Some \<lparr>Filter = f', OldLabel = trailing_label filterStr, NewLabel = l',
                          Mode = composeMode facts\<rparr>)))"

text \<open>The video \<open>-map\<close> of the old label, quoted or not: the first one is changed.\<close>

definition quoted :: "string \<Rightarrow> string" where
  "quoted s = CHR 0x22 # s @ [CHR 0x22]"

definition retargetMapLabel :: "argv \<Rightarrow> string \<Rightarrow> string \<Rightarrow> argv" where
  "retargetMapLabel args oldLabel newLabel =
     (if oldLabel = [] then args
      else (case find_pair (\<lambda>a b. a = ''-map'' \<and> (b = oldLabel \<or> b = quoted oldLabel)) args of
              None \<Rightarrow> args
            | Some j \<Rightarrow> args[j + 1 := (if args ! (j + 1) = oldLabel then newLabel else quoted newLabel)]))"

section \<open>Tone mapping through OpenCL\<close>

definition openclTonemapRE :: rx where
  "openclTonemapRE = rseq [RLit (CHR ''[''), RGrp 1 rdigits, lit '']hwmap=derive_device=opencl'', rlabel, RLit (CHR '';''),
     rlabel, lit ''tonemap_opencl='', RGrp 2 (rplus (rnone ''['')), rlabel, RLit (CHR '';''),
     rlabel, lit ''hwmap=derive_device=vaapi:reverse=1['', RGrp 3 rdigits, RLit (CHR '']'')]"

definition tonemapOptRE :: rx where
  "tonemapOptRE = rseq [ralt [RBol, RLit (CHR '':'')],
     RGrp 1 (ralt [lit ''tonemap'', lit ''format'', lit ''m'', lit ''p'', lit ''r'', lit ''t'']), RLit (CHR ''=''),
     RGrp 2 (rplus (RSet False [(CHR ''a'', CHR ''z''), (CHR ''0'', CHR ''9''), (CHR ''-'', CHR ''-'')]))]"

text \<open>The last value of an option, empty when it is not given.\<close>

definition opt_value :: "string \<Rightarrow> string \<Rightarrow> string" where
  "opt_value opts k =
     (case filter (\<lambda>(m, c). c 1 = k) (rev (rx_find_all tonemapOptRE True opts)) of
        [] \<Rightarrow> [] | (m, c) # r \<Rightarrow> c 2)"

definition or_default :: "string \<Rightarrow> string \<Rightarrow> string" where
  "or_default s d = (if s = [] then d else s)"

definition opencl_replacement :: "tonemapConfig \<Rightarrow> string \<Rightarrow> string \<Rightarrow> string \<Rightarrow> string" where
  "opencl_replacement tm startLabel opts endLabel =
     (let pixFmt = or_default (opt_value opts ''format'') ''nv12'';
          matrix = opt_value opts ''m''; primaries = opt_value opts ''p''; algo = opt_value opts ''tonemap''
      in if useOpenCL tm then
           ''['' @ startLabel @ '']hwmap=derive_device=opencl,tonemap_opencl=tonemap=''
           @ (if validTonemapAlgo algo then algo else tm_algo tm)
           @ '':transfer=bt709:matrix='' @ or_default matrix ''bt709'' @ '':primaries='' @ or_default primaries ''bt709''
           @ '':format='' @ pixFmt @ '',hwmap=derive_device=vaapi:reverse=1['' @ endLabel @ '']''
         else
           ''['' @ startLabel @ '']tonemap_vaapi=transfer=bt709''
           @ (if matrix \<noteq> [] then '':matrix='' @ matrix else [])
           @ (if primaries \<noteq> [] then '':primaries='' @ primaries else [])
           @ '':format='' @ pixFmt @ ''['' @ endLabel @ '']'')"

definition substitute_graph :: "tonemapConfig \<Rightarrow> string \<Rightarrow> string option" where
  "substitute_graph tm orig =
     (if \<not> str_contains orig ''tonemap_opencl'' then None
      else (case rx_find openclTonemapRE orig of
              None \<Rightarrow> None
            | Some (pre, m, rest, caps) \<Rightarrow>
                Some (pre @ opencl_replacement tm (cap caps 1) (cap caps 2) (cap caps 3) @ rest)))"

definition substituteOpenCLTonemap :: "argv \<Rightarrow> tonemapConfig \<Rightarrow> argv \<times> bool" where
  "substituteOpenCLTonemap args tm =
     (if backendName (backend tm) \<noteq> ''vaapi'' then (args, False)
      else (case find_pair (\<lambda>a b. a = ''-filter_complex'' \<and> substitute_graph tm b \<noteq> None) args of
              None \<Rightarrow> (args, False)
            | Some i \<Rightarrow> (case substitute_graph tm (args ! (i + 1)) of
                Some g \<Rightarrow> (args[i + 1 := g], True) | None \<Rightarrow> (args, False))))"

definition reLeadHwuploadOCL :: rx where
  "reLeadHwuploadOCL = rseq [RBol, rvideo0, lit ''hwupload'', rlabel, RLit (CHR '';''), rlabel]"

definition reRevmapBeforeDownloadOCL :: rx where
  "reRevmapBeforeDownloadOCL =
     rseq [lit ''hwmap=derive_device=vaapi:reverse=1'', rlabel, RLit (CHR '';''), rlabel, lit ''hwdownload'']"

definition reInitHwDeviceVaapiName :: rx where
  "reInitHwDeviceVaapiName = rseq [RBol, lit ''vaapi='',
     RGrp 1 (rplus (RSet False [(CHR ''A'', CHR ''Z''), (CHR ''a'', CHR ''z''), (CHR ''0'', CHR ''9''), (CHR ''_'', CHR ''_'')])),
     RLit (CHR '':'')]"

definition resident_graph :: "string \<Rightarrow> string \<times> changes" where
  "resident_graph g =
     (let (g1, ch1) = (if rx_matches reLeadHwuploadOCL g
            then (rx_replace_all reLeadHwuploadOCL g ''[0:0]'', [''tonemap:ocl:drop-lead-hwupload'']) else (g, []));
          (g2, ch2) = (if rx_matches reRevmapBeforeDownloadOCL g1
            then (rx_replace_all reRevmapBeforeDownloadOCL g1 ''hwdownload'', [''tonemap:ocl:collapse-revmap-download''])
            else (g1, []))
      in (g2, ch1 @ ch2))"

definition inject_opencl :: "argv \<Rightarrow> argv \<times> changes" where
  "inject_opencl args =
     (if hasOpenCLInitDevice args then (args, [])
      else (case find_pair (\<lambda>a b. a = ''-init_hw_device'' \<and> rx_matches reInitHwDeviceVaapiName b) args of
              None \<Rightarrow> (args, [])
            | Some vaIdx \<Rightarrow> (case rx_submatch reInitHwDeviceVaapiName (args ! (vaIdx + 1)) of
                None \<Rightarrow> (args, [])
              | Some m \<Rightarrow> (spliceArgs args (vaIdx + 2) [''-init_hw_device'', ''opencl=ocl@'' @ m 1],
                           [''tonemap:ocl:inject-opencl-device'']))))"

text \<open>The insertion after the value of \<open>-hwaccel\<close>; a slice past the end panics.\<close>

definition force_output_format :: "argv \<Rightarrow> (argv \<times> changes) option" where
  "force_output_format args =
     (case streamSpecIndex args ''-hwaccel'' 0 0 of
        None \<Rightarrow> Some (args, [])
      | Some hwIdx \<Rightarrow>
          if streamSpecIndex args ''-hwaccel_output_format'' 0 0 \<noteq> None then Some (args, [])
          else if length args < hwIdx + 2 then None
          else Some (spliceArgs args (hwIdx + 2) [''-hwaccel_output_format:0'', ''vaapi''],
                     [''tonemap:ocl:force-output-format-vaapi'']))"

definition gpuResidentOpenCLTonemap :: "dialect \<Rightarrow> argv \<Rightarrow> (argv \<times> changes) option" where
  "gpuResidentOpenCLTonemap activeDialect args =
     (if backendName activeDialect \<noteq> ''vaapi'' then Some (args, [])
      else if streamSpecIndex args ''-hwaccel'' 0 0 = None then Some (args, [])
      else (case find_pair (\<lambda>a b. a = ''-filter_complex'' \<and> str_contains b ''tonemap_opencl'') args of
              None \<Rightarrow> Some (args, [])
            | Some k \<Rightarrow>
                (case resident_graph (args ! (k + 1)) of (g, ch1) \<Rightarrow>
                 case inject_opencl (args[k + 1 := g]) of (args2, ch2) \<Rightarrow>
                 case force_output_format args2 of
                   None \<Rightarrow> None
                 | Some (args3, ch3) \<Rightarrow> Some (args3, ch1 @ ch2 @ ch3))))"

end
