(* ===== verification/RewriteShape.thy ===== *)
theory RewriteShape
  imports RewriteGraph
begin

text \<open>
  The shape of an argument vector (\<open>src/worker/agent/source_backend.go\<close>, \<open>rewriter_sw.go\<close>,
  \<open>rewriter.go\<close>): which backend it was made for, the two reshapes that move it to the backend of the
  worker, and the pin of the HEVC profile.
\<close>

section \<open>Ten-bit output\<close>

definition is_ident :: "char \<Rightarrow> bool" where
  "is_ident c \<longleftrightarrow>
     in_class False [(CHR ''a'', CHR ''z''), (CHR ''A'', CHR ''Z''), (CHR ''0'', CHR ''9''), (CHR ''_'', CHR ''_'')] c"

text \<open>The loop of \<open>lastFormatToken\<close>: \<open>off\<close> is where the rest \<open>s\<close> begins.\<close>

function last_token_from :: "string \<Rightarrow> nat \<Rightarrow> string \<Rightarrow> nat option \<Rightarrow> nat option" where
  "last_token_from needle off s found =
     (case str_index s needle of
        None \<Rightarrow> found
      | Some k \<Rightarrow>
          (let n = k + length needle; rest = drop n s
           in if needle = [] then found
              else if rest \<noteq> [] \<and> is_ident (hd rest) then last_token_from needle (off + n) rest found
              else last_token_from needle (off + n) rest (Some (off + k))))"
  by pat_completeness auto
termination
  by (relation "measure (\<lambda>(needle, off, s, found). length s)") (auto dest!: str_index_le simp flip: length_greater_0_conv)

declare last_token_from.simps [simp del]

definition lastFormatToken :: "string \<Rightarrow> string \<Rightarrow> nat option" where
  "lastFormatToken graph pixfmt = last_token_from (''format='' @ pixfmt) 0 graph None"

text \<open>Whether the graph hands out ten bits, and whether it names a pixel format at all.\<close>

definition graphFeedsTenBit :: "string \<Rightarrow> bool \<times> bool" where
  "graphFeedsTenBit graph =
     (case (lastFormatToken graph ''p010'', lastFormatToken graph ''nv12'') of
        (None, None) \<Rightarrow> (False, False)
      | (Some p, None) \<Rightarrow> (True, True)
      | (None, Some n) \<Rightarrow> (False, True)
      | (Some p, Some n) \<Rightarrow> (n < p, True))"

definition tenBitOutput :: "argv \<Rightarrow> bool" where
  "tenBitOutput args =
     (case find_pair (\<lambda>a b. a = ''-filter_complex'' \<and> snd (graphFeedsTenBit b)) args of
        Some i \<Rightarrow> fst (graphFeedsTenBit (args ! (i + 1))) | None \<Rightarrow> False)"

text \<open>The slot of the output encoder, and the encoder in it.\<close>

definition encoder_slot :: "argv \<Rightarrow> nat option" where
  "encoder_slot args = (case index_of_arg args ''-i'' 0 of
     None \<Rightarrow> None
   | Some inp \<Rightarrow> (case streamSpecIndex args ''-codec'' 0 (inp + 1) of
       None \<Rightarrow> None | Some e \<Rightarrow> if e + 1 < length args then Some e else None))"

definition encoderIsHEVC :: "argv \<Rightarrow> bool" where
  "encoderIsHEVC args = (case encoder_slot args of
     Some e \<Rightarrow> map_of hwEncoderCodec (args ! (e + 1)) = Some ''hevc'' | None \<Rightarrow> False)"

definition ensureHEVCMain10 :: "argv \<Rightarrow> changes \<Rightarrow> argv \<times> changes" where
  "ensureHEVCMain10 args ch =
     (case encoder_slot args of
        None \<Rightarrow> (args, ch)
      | Some enc \<Rightarrow>
          if map_of hwEncoderCodec (args ! (enc + 1)) \<noteq> Some ''hevc'' then (args, ch)
          else if \<not> tenBitOutput args then (args, ch)
          else
            (let profileFlag = ''-profile'' @ trim_prefix (args ! enc) ''-codec''
             in if index_of_arg args profileFlag 0 \<noteq> None \<or> index_of_arg args ''-profile:v'' 0 \<noteq> None
                then (args, ch)
                else (spliceArgs args (enc + 2) [profileFlag, ''main10''], ch @ [''encode:hevc:profile=main10''])))"

section \<open>The source backend\<close>

datatype sourceBackend = srcNone | srcSW | srcVAAPI | srcNVENC

definition sourceBackend_string :: "sourceBackend \<Rightarrow> string" where
  "sourceBackend_string b = (case b of
     srcNone \<Rightarrow> ''none'' | srcSW \<Rightarrow> ''sw'' | srcVAAPI \<Rightarrow> ''vaapi'' | srcNVENC \<Rightarrow> ''nvenc'')"

definition vaapiFilterTokens :: "string list" where
  "vaapiFilterTokens = [''scale_vaapi'', ''tonemap_vaapi'', ''overlay_vaapi'', ''tonemap_opencl'']"

definition nvencFilterTokens :: "string list" where
  "nvencFilterTokens = [''scale_cuda'', ''tonemap_cuda'', ''overlay_cuda'']"

definition filterComplexIndex :: "argv \<Rightarrow> nat option" where
  "filterComplexIndex args = map_option Suc (find_pair (\<lambda>a b. a = ''-filter_complex'') args)"

definition filterComplexValue :: "argv \<Rightarrow> string" where
  "filterComplexValue args = (case find_pair (\<lambda>a b. a = ''-filter_complex'') args of
     Some i \<Rightarrow> args ! (i + 1) | None \<Rightarrow> [])"

definition hasVideoEncoder :: "argv \<Rightarrow> bool" where
  "hasVideoEncoder args = (case encoder_slot args of
     Some e \<Rightarrow> args ! (e + 1) \<noteq> ''copy'' \<and> args ! (e + 1) \<noteq> [] | None \<Rightarrow> False)"

definition hwaccel_value :: "argv \<Rightarrow> string option" where
  "hwaccel_value args = (case streamSpecIndex args ''-hwaccel'' 0 0 of
     Some i \<Rightarrow> if i + 1 < length args then Some (args ! (i + 1)) else None | None \<Rightarrow> None)"

definition detectSourceBackend :: "argv \<Rightarrow> sourceBackend" where
  "detectSourceBackend args =
     (let enc = (case encoder_slot args of Some e \<Rightarrow> args ! (e + 1) | None \<Rightarrow> []);
          fc = filterComplexValue args;
          hasVAAPI = (hwaccel_value args = Some ''vaapi'' \<or> has_suffix enc ''_vaapi''
             \<or> list_ex (str_contains fc) vaapiFilterTokens);
          hasNVENC = ((case hwaccel_value args of Some v \<Rightarrow> v \<in> {''nvdec'', ''cuda'', ''cuvid''} | None \<Rightarrow> False)
             \<or> has_suffix enc ''_nvenc'' \<or> list_ex (str_contains fc) nvencFilterTokens)
      in if hasVAAPI then srcVAAPI else if hasNVENC then srcNVENC
         else if hasVideoEncoder args then srcSW else srcNone)"

definition isSWFilterGraph :: "string \<Rightarrow> bool" where
  "isSWFilterGraph fc \<longleftrightarrow> has_prefix fc ''[0:0]scale=w=''"

definition hwDeviceBackend :: "string \<Rightarrow> string" where
  "hwDeviceBackend v = takeWhile (\<lambda>c. c \<noteq> CHR ''='' \<and> c \<noteq> CHR '':'') (trim_space v)"

definition setArgValue :: "string \<Rightarrow> string \<Rightarrow> argv \<Rightarrow> argv" where
  "setArgValue flag v args = (case index_of_arg args flag 0 of
     Some i \<Rightarrow> if i + 1 < length args then args[i + 1 := v] else args | None \<Rightarrow> args)"

section \<open>From another hardware backend\<close>

text \<open>The graph at \<open>vfIdx\<close> recomposed, and the video \<open>-map\<close> moved to its new label.\<close>

definition put_graph :: "nat \<Rightarrow> string \<Rightarrow> string \<times> string \<Rightarrow> argv \<Rightarrow> argv" where
  "put_graph vfIdx old fl args = (case fl of (f, l) \<Rightarrow>
     retargetMapLabel (args[vfIdx := f]) (trailing_label old) l)"

definition foreign_graph :: "env \<Rightarrow> tonemapConfig \<Rightarrow> argv \<Rightarrow> argv" where
  "foreign_graph os tm args =
     (case filterComplexIndex args of
        None \<Rightarrow> args
      | Some vfIdx \<Rightarrow>
          (let g = args ! vfIdx; facts = extractGraphFacts g None
           in if isSWFilterGraph g \<or> \<not> gf_ok facts \<or> gf_subKind facts = ''bitmap'' then args
              else
                (let spec = \<lparr>vaResident = True, bs_w = gf_w facts, bs_h = gf_h facts, bs_hdr = gf_hdr facts,
                       bs_algo = gf_algo facts,
                       tenBit = fst (graphFeedsTenBit g) \<and> \<not> gf_hdr facts \<and> encoderIsHEVC args,
                       burnSub = gf_subKind facts = ''text'', bs_subParams = gf_subParams facts,
                       animatedTierDown = False, bs_subKind = [], bs_subSpec = []\<rparr>
                 in case composeBurn os tm spec of (f, l) \<Rightarrow>
                    put_graph vfIdx g (appendSelectStage f l (selectExpr facts)) args)))"

definition foreign_encoder :: "dialect \<Rightarrow> argv \<Rightarrow> argv" where
  "foreign_encoder d args =
     (case encoder_slot args of
        None \<Rightarrow> args
      | Some e \<Rightarrow> (case map_of hwEncoderCodec (args ! (e + 1)) of
          None \<Rightarrow> args
        | Some codec \<Rightarrow> (case map_of codecCanonicalSWEncoder codec of
            None \<Rightarrow> args
          | Some lib \<Rightarrow> (case map_of (encoderMap d) lib of
              None \<Rightarrow> args
            | Some hwEnc \<Rightarrow> args[e + 1 := hwEnc]))))"

definition reshapeForeignHWArgv :: "env \<Rightarrow> dialect \<Rightarrow> tonemapConfig \<Rightarrow> argv \<Rightarrow> argv \<times> changes" where
  "reshapeForeignHWArgv os activeDialect tm args =
     (let src = detectSourceBackend args; d = activeDialect
      in if src \<noteq> srcVAAPI \<and> src \<noteq> srcNVENC then (args, [])
         else if sourceBackend_string src = backendName d then (args, [])
         else
           (let args1 = setArgValue ''-filter_hw_device'' (filterHWDeviceName d)
                  (setArgValue ''-init_hw_device'' (initHWDeviceArg d 0)
                    (setArgValue ''-hwaccel_device:0'' (filterHWDeviceName d)
                      (setArgValue ''-hwaccel_output_format:0'' (hwaccelOutputFormat d)
                        (setArgValue ''-hwaccel:0'' (hwaccelName d) args))))
            in (foreign_encoder d (foreign_graph os tm args1),
                [''cross-backend:'' @ sourceBackend_string src @ ''->'' @ backendName d])))"

section \<open>To software\<close>

text \<open>The loops that remove a flag with its value while it is found.\<close>

function strip_spec :: "string \<Rightarrow> argv \<Rightarrow> argv \<times> bool" where
  "strip_spec flagBase args =
     (case streamSpecIndex args flagBase 0 0 of
        None \<Rightarrow> (args, False)
      | Some i \<Rightarrow> if length args \<le> i + 1 then (args, False)
          else (case strip_spec flagBase (removeArgs args i 2) of (r, did) \<Rightarrow> (r, True)))"
  by pat_completeness auto
termination
  by (relation "measure (length \<circ> snd)") (auto simp: removeArgs_def)

function strip_flag :: "string \<Rightarrow> argv \<Rightarrow> argv \<times> bool" where
  "strip_flag flag args =
     (case index_of_arg args flag 0 of
        None \<Rightarrow> (args, False)
      | Some i \<Rightarrow> if length args \<le> i + 1 then (args, False)
          else (case strip_flag flag (removeArgs args i 2) of (r, did) \<Rightarrow> (r, True)))"
  by pat_completeness auto
termination
  by (relation "measure (length \<circ> snd)") (auto simp: removeArgs_def)

declare strip_spec.simps [simp del] strip_flag.simps [simp del]

definition also_strip :: "(argv \<Rightarrow> argv \<times> bool) \<Rightarrow> argv \<times> bool \<Rightarrow> argv \<times> bool" where
  "also_strip f st = (case st of (args, stripped) \<Rightarrow> case f args of (r, did) \<Rightarrow> (r, stripped \<or> did))"

definition strip_hw :: "argv \<Rightarrow> argv \<times> bool" where
  "strip_hw args =
     also_strip (strip_flag ''-filter_hw_device'') (also_strip (strip_flag ''-init_hw_device'')
       (also_strip (strip_spec ''-hwaccel_device'') (also_strip (strip_spec ''-hwaccel_output_format'')
         (strip_spec ''-hwaccel'' args))))"

definition sw_decoder :: "argv \<Rightarrow> argv \<times> changes" where
  "sw_decoder args =
     (case streamSpecIndex args ''-codec'' 0 0 of
        None \<Rightarrow> (args, [])
      | Some dc \<Rightarrow>
          if length args \<le> dc + 1 then (args, [])
          else if (case index_of_arg args ''-i'' 0 of None \<Rightarrow> False | Some inp \<Rightarrow> inp \<le> dc) then (args, [])
          else (case map_of swDecoderForShort (args ! (dc + 1)) of
                  None \<Rightarrow> (args, [])
                | Some sw \<Rightarrow> (args[dc + 1 := sw], [''to-sw:decode:'' @ args ! (dc + 1) @ ''->'' @ sw])))"

definition sw_graph :: "argv \<Rightarrow> argv \<times> changes" where
  "sw_graph args =
     (case filterComplexIndex args of
        None \<Rightarrow> (args, [])
      | Some vfIdx \<Rightarrow>
          (let g = args ! vfIdx; facts = extractGraphFacts g None
           in if isSWFilterGraph g \<or> \<not> gf_ok facts then (args, [])
              else
                (let spec = \<lparr>vaResident = False, bs_w = gf_w facts, bs_h = gf_h facts, bs_hdr = gf_hdr facts,
                       bs_algo = gf_algo facts, tenBit = False, burnSub = gf_subKind facts \<noteq> [],
                       bs_subParams = gf_subParams facts, animatedTierDown = False,
                       bs_subKind = gf_subKind facts, bs_subSpec = gf_subSpec facts\<rparr>
                 in case composeBurnSW spec of (f, l) \<Rightarrow>
                    (put_graph vfIdx g (appendSelectStage f l (selectExpr facts)) args,
                     [''to-sw:filter:'' @ composeMode facts]))))"

definition sw_encoder :: "argv \<Rightarrow> argv \<times> changes" where
  "sw_encoder args =
     (case encoder_slot args of
        None \<Rightarrow> (args, [])
      | Some e \<Rightarrow> (case map_of hwEncoderCodec (args ! (e + 1)) of
          None \<Rightarrow> (args, [])
        | Some codec \<Rightarrow> (case map_of codecCanonicalSWEncoder codec of
            None \<Rightarrow> (args, [])
          | Some lib \<Rightarrow> (args[e + 1 := lib], [''to-sw:encode:'' @ args ! (e + 1) @ ''->'' @ lib]))))"

definition reshapeToSoftware :: "argv \<Rightarrow> argv \<times> changes" where
  "reshapeToSoftware args =
     (let src = detectSourceBackend args
      in case strip_hw args of (args1, stripped) \<Rightarrow>
         case sw_decoder args1 of (args2, ch2) \<Rightarrow>
         case sw_graph args2 of (args3, ch3) \<Rightarrow>
         case sw_encoder args3 of (args4, ch4) \<Rightarrow>
           (let ch = (if stripped then [''to-sw:strip-hwdecode''] else []) @ ch2 @ ch3 @ ch4
            in (args4, if ch \<noteq> [] then (''to-sw:'' @ sourceBackend_string src) # ch else [])))"

section \<open>Flags that are stripped\<close>

definition ordinal_flag :: "string \<Rightarrow> string \<Rightarrow> bool" where
  "ordinal_flag base a \<longleftrightarrow> has_prefix a (base @ '':'') \<and> streamSpecSelectsOrdinal (drop (length base + 1) a) 0 []"

definition hw_flag :: "string \<Rightarrow> bool" where
  "hw_flag a \<longleftrightarrow> a = ''-init_hw_device'' \<or> a = ''-filter_hw_device''
     \<or> list_ex (\<lambda>base. ordinal_flag base a) [''-hwaccel'', ''-hwaccel_output_format'', ''-hwaccel_device'']"

text \<open>No argument with a value after it satisfies the predicate.\<close>

definition none_valued :: "(string \<Rightarrow> bool) \<Rightarrow> argv \<Rightarrow> bool" where
  "none_valued p args \<longleftrightarrow> (\<forall>a\<in>set (butlast args). \<not> p a)"

lemma butlast_removeArgs:
  assumes "i + 1 < length s"
  shows "set (butlast (removeArgs s i 2)) \<subseteq> set (butlast s)"
proof -
  have "set (butlast (take i s @ drop (i + 2) s)) \<subseteq> set (take i s) \<union> set (butlast (drop (i + 2) s))"
    by (auto simp: butlast_append dest: in_set_butlastD)
  moreover have "set (take i s) \<subseteq> set (butlast s)"
    using assms set_take_subset_set_take [of i "length s - 1" s] by (simp add: butlast_conv_take)
  moreover have "set (butlast (drop (i + 2) s)) \<subseteq> set (butlast s)"
    by (metis append_take_drop_id butlast_append butlast.simps(1) drop_butlast set_drop_subset)
  ultimately show ?thesis by (auto simp: removeArgs_def)
qed

lemma butlast_update: "set (butlast (s[k := v])) \<subseteq> insert v (set (butlast s))"
  using set_update_subset_insert [of "butlast s" k v] by (auto simp: butlast_list_update)

lemma selects_mono: "streamSpecSelectsOrdinal spec 0 [] \<Longrightarrow> streamSpecSelectsOrdinal spec 0 m"
  by (auto simp: streamSpecSelectsOrdinal_def split: option.splits if_splits)

lemma find_from_first:
  "find_from p s = Some i \<Longrightarrow> \<forall>a\<in>set (take i s). \<not> p a"
  using find_from_split by blast

lemma streamSpecIndex_before:
  assumes "case streamSpecIndex args base 0 0 of None \<Rightarrow> True | Some i \<Rightarrow> length args \<le> i + 1"
  shows "none_valued (ordinal_flag base) args"
proof -
  define p where "p a \<longleftrightarrow> has_prefix a (base @ '':'') \<and>
    streamSpecSelectsOrdinal (drop (length (base @ '':'')) a) 0 (streamIDOrdinalMap args)" for a
  have idx: "streamSpecIndex args base 0 0 = find_from p args"
    by (cases "find_from p args") (simp_all add: streamSpecIndex_def Let_def p_def [abs_def] del: find_from_None)
  have "\<forall>a\<in>set (butlast args). \<not> p a"
  proof (cases "find_from p args")
    case None
    then show ?thesis by (auto dest: in_set_butlastD)
  next
    case (Some i)
    then have "length args \<le> i + 1" using assms idx by simp
    then have "set (butlast args) \<subseteq> set (take i args)"
      by (simp add: butlast_conv_take set_take_subset_set_take)
    then show ?thesis using find_from_first [OF Some] by blast
  qed
  then show ?thesis using selects_mono by (auto simp: none_valued_def ordinal_flag_def p_def)
qed

lemma strip_spec_sub: "set (butlast (fst (strip_spec base args))) \<subseteq> set (butlast args)"
proof (induction base args rule: strip_spec.induct)
  case (1 base args)
  show ?case
  proof (cases "streamSpecIndex args base 0 0")
    case None
    then show ?thesis by (subst strip_spec.simps) simp
  next
    case (Some i)
    show ?thesis
    proof (cases "length args \<le> i + 1")
      case False
      then show ?thesis using "1.IH" [OF Some False] butlast_removeArgs [of i args] Some
        by (subst strip_spec.simps) (auto simp: case_prod_unfold)
    qed (subst strip_spec.simps, simp add: Some)
  qed
qed

lemma strip_spec_none: "none_valued (ordinal_flag base) (fst (strip_spec base args))"
proof (induction base args rule: strip_spec.induct)
  case (1 base args)
  show ?case
  proof (cases "streamSpecIndex args base 0 0")
    case None
    then show ?thesis using streamSpecIndex_before [of args base] by (subst strip_spec.simps) simp
  next
    case (Some i)
    then show ?thesis using "1.IH" [OF Some] streamSpecIndex_before [of args base]
      by (subst strip_spec.simps) (auto split: prod.split)
  qed
qed

lemma strip_flag_sub: "set (butlast (fst (strip_flag flag args))) \<subseteq> set (butlast args)"
proof (induction flag args rule: strip_flag.induct)
  case (1 flag args)
  show ?case
  proof (cases "index_of_arg args flag 0")
    case None
    then show ?thesis by (subst strip_flag.simps) simp
  next
    case (Some i)
    show ?thesis
    proof (cases "length args \<le> i + 1")
      case False
      then show ?thesis using "1.IH" [OF Some False] butlast_removeArgs [of i args] Some
        by (subst strip_flag.simps) (auto simp: case_prod_unfold)
    qed (subst strip_flag.simps, simp add: Some)
  qed
qed

lemma index_of_arg_before:
  assumes "case index_of_arg args flag 0 of None \<Rightarrow> True | Some i \<Rightarrow> length args \<le> i + 1"
  shows "none_valued ((=) flag) args"
proof (cases "find_from (\<lambda>a. a = flag) args")
  case None
  then show ?thesis by (auto simp: none_valued_def dest: in_set_butlastD)
next
  case (Some i)
  then have "length args \<le> i + 1" using assms by (simp add: index_of_arg_def)
  then have "set (butlast args) \<subseteq> set (take i args)"
    by (simp add: butlast_conv_take set_take_subset_set_take)
  then show ?thesis using find_from_first [OF Some] by (auto simp: none_valued_def)
qed

lemma strip_flag_none: "none_valued ((=) flag) (fst (strip_flag flag args))"
proof (induction flag args rule: strip_flag.induct)
  case (1 flag args)
  show ?case
  proof (cases "index_of_arg args flag 0")
    case None
    then show ?thesis using index_of_arg_before [of args flag] by (subst strip_flag.simps) simp
  next
    case (Some i)
    then show ?thesis using "1.IH" [OF Some] index_of_arg_before [of args flag]
      by (subst strip_flag.simps) (auto split: prod.split)
  qed
qed

lemma none_valued_mono: "none_valued p args \<Longrightarrow> set (butlast r) \<subseteq> set (butlast args) \<Longrightarrow> none_valued p r"
  by (auto simp: none_valued_def)

section \<open>The result of the software reshape\<close>

lemma strip_hw_none: "none_valued hw_flag (fst (strip_hw args))"
proof -
  define a1 a2 a3 a4 a5 where "a1 = fst (strip_spec ''-hwaccel'' args)"
    and "a2 = fst (strip_spec ''-hwaccel_output_format'' a1)" and "a3 = fst (strip_spec ''-hwaccel_device'' a2)"
    and "a4 = fst (strip_flag ''-init_hw_device'' a3)" and "a5 = fst (strip_flag ''-filter_hw_device'' a4)"
  note defs = a1_def a2_def a3_def a4_def a5_def
  have res: "fst (strip_hw args) = a5"
    by (simp add: strip_hw_def also_strip_def case_prod_unfold defs)
  have sub: "set (butlast a5) \<subseteq> set (butlast a4)" "set (butlast a4) \<subseteq> set (butlast a3)"
    "set (butlast a3) \<subseteq> set (butlast a2)" "set (butlast a2) \<subseteq> set (butlast a1)"
    by (simp_all only: defs strip_spec_sub strip_flag_sub)
  have le: "set (butlast a5) \<subseteq> set (butlast a3)" "set (butlast a5) \<subseteq> set (butlast a2)"
    "set (butlast a5) \<subseteq> set (butlast a1)"
    using sub by (meson subset_trans)+
  have "none_valued (ordinal_flag ''-hwaccel'') a5" "none_valued (ordinal_flag ''-hwaccel_output_format'') a5"
    "none_valued (ordinal_flag ''-hwaccel_device'') a5" "none_valued ((=) ''-init_hw_device'') a5"
    "none_valued ((=) ''-filter_hw_device'') a5"
    using none_valued_mono [OF strip_spec_none [of "''-hwaccel''" args, folded defs] le(3)]
      none_valued_mono [OF strip_spec_none [of "''-hwaccel_output_format''" a1, folded defs] le(2)]
      none_valued_mono [OF strip_spec_none [of "''-hwaccel_device''" a2, folded defs] le(1)]
      none_valued_mono [OF strip_flag_none [of "''-init_hw_device''" a3, folded defs] sub(1)]
      strip_flag_none [of "''-filter_hw_device''" a4, folded defs] by simp_all
  then show ?thesis
    unfolding res none_valued_def hw_flag_def list_ex_iff by auto
qed

lemma hw_flag_dash: "hw_flag a \<Longrightarrow> \<exists>b. a = CHR ''-'' # b"
  by (auto simp: hw_flag_def ordinal_flag_def has_prefix_iff)

lemma none_valued_update: "none_valued p s \<Longrightarrow> \<not> p v \<Longrightarrow> none_valued p (s[k := v])"
  using butlast_update [of s k v] by (auto simp: none_valued_def)

lemma sw_decoder_values: "map_of swDecoderForShort c = Some v \<Longrightarrow> \<not> hw_flag v"
  by (auto simp: swDecoderForShort_def dest!: hw_flag_dash split: if_splits)

lemma sw_encoder_values: "map_of codecCanonicalSWEncoder c = Some v \<Longrightarrow> \<not> hw_flag v"
  by (auto simp: codecCanonicalSWEncoder_def dest!: hw_flag_dash split: if_splits)

lemma put_graph_none:
  assumes "none_valued hw_flag args" "\<not> hw_flag (fst fl)" "\<not> hw_flag (snd fl)"
  shows "none_valued hw_flag (put_graph k old fl args)"
proof -
  have "\<not> hw_flag (quoted (snd fl))" by (auto simp: quoted_def dest!: hw_flag_dash)
  with assms show ?thesis
    by (auto simp: put_graph_def retargetMapLabel_def case_prod_unfold intro!: none_valued_update split: option.split)
qed

lemma composeBurnSW_bracket: "\<exists>r. fst (composeBurnSW s) = CHR ''['' # r" "\<exists>r. snd (composeBurnSW s) = CHR ''['' # r"
  by (auto simp: composeBurnSW_def Let_def bracket_def)

lemma select_bracket:
  assumes "\<exists>r. f = CHR ''['' # r" "\<exists>r. l = CHR ''['' # r"
  shows "\<not> hw_flag (fst (appendSelectStage f l e)) \<and> \<not> hw_flag (snd (appendSelectStage f l e))"
  using assms by (auto simp: appendSelectStage_def dest!: hw_flag_dash)

lemma sw_graph_none: "none_valued hw_flag args \<Longrightarrow> none_valued hw_flag (fst (sw_graph args))"
  using select_bracket [OF composeBurnSW_bracket]
  by (auto simp: sw_graph_def Let_def case_prod_unfold intro!: put_graph_none split: option.split)

lemma software_reshape_none: "none_valued hw_flag (fst (reshapeToSoftware args))"
proof -
  define a1 a2 a3 where "a1 = fst (strip_hw args)" and "a2 = fst (sw_decoder a1)" and "a3 = fst (sw_graph a2)"
  have "none_valued hw_flag a1" by (simp add: a1_def strip_hw_none)
  then have "none_valued hw_flag a2"
    by (auto simp: a2_def sw_decoder_def intro!: none_valued_update dest: sw_decoder_values split: option.split)
  then have "none_valued hw_flag a3" by (simp add: a3_def sw_graph_none)
  then have "none_valued hw_flag (fst (sw_encoder a3))"
    by (auto simp: sw_encoder_def intro!: none_valued_update dest: sw_encoder_values split: option.split)
  then show ?thesis
    by (simp add: reshapeToSoftware_def case_prod_unfold Let_def a1_def a2_def a3_def)
qed

section \<open>The pin of the profile\<close>

text \<open>An insertion of two arguments that no pair needs.\<close>

lemma find_pair_insert:
  assumes "xs \<noteq> []" "\<forall>b. \<not> q (last xs) b" "\<forall>b. \<not> q x b" "\<forall>b. \<not> q y b"
  shows "find_pair q (xs @ [x, y] @ ys) =
    map_option (\<lambda>i. if i < length xs then i else i + 2) (find_pair q (xs @ ys))"
  using assms(1,2)
proof (induction xs rule: induct_list012)
  case (2 a)
  show ?case using 2 assms(3,4) by (cases ys; cases "find_pair q ys") auto
next
  case (3 a b r)
  then show ?case by (cases "find_pair q (b # r @ ys)") auto
qed simp

lemma find_pair_inserted:
  assumes "xs \<noteq> []" "\<forall>b. \<not> q (last xs) b" "\<forall>b. \<not> q x b" "\<forall>b. \<not> q y b"
  shows "(case find_pair q (xs @ [x, y] @ ys) of Some i \<Rightarrow> f ((xs @ [x, y] @ ys) ! (i + 1)) | None \<Rightarrow> d)
    = (case find_pair q (xs @ ys) of Some i \<Rightarrow> f ((xs @ ys) ! (i + 1)) | None \<Rightarrow> d)"
proof (cases "find_pair q (xs @ ys)")
  case (Some i)
  have q: "q ((xs @ ys) ! i) ((xs @ ys) ! Suc i)" using find_pair_Some [OF Some] by simp
  have "Suc i \<noteq> length xs"
  proof
    assume i: "Suc i = length xs"
    then have "(xs @ ys) ! i = last xs" using assms(1) by (simp add: last_conv_nth nth_append flip: i)
    with q assms(2) show False by simp
  qed
  then show ?thesis
    unfolding find_pair_insert [OF assms] Some by (auto simp: nth_append numeral_2_eq_2)
next
  case None
  then show ?thesis unfolding find_pair_insert [OF assms] by simp
qed

lemma tenBitOutput_insert:
  assumes "xs \<noteq> []" "last xs \<noteq> ''-filter_complex''" "x \<noteq> ''-filter_complex''" "y \<noteq> ''-filter_complex''"
  shows "tenBitOutput (xs @ [x, y] @ ys) \<longleftrightarrow> tenBitOutput (xs @ ys)"
  unfolding tenBitOutput_def using assms by (intro find_pair_inserted) simp_all

lemma hevc_not_graph: "map_of hwEncoderCodec c = Some ''hevc'' \<Longrightarrow> c \<noteq> ''-filter_complex''"
  by (auto simp: hwEncoderCodec_def)

lemma main10_pinned:
  assumes "ensureHEVCMain10 args ch = (r, ch')" "r \<noteq> args"
  obtains e where "encoder_slot args = Some e" "map_of hwEncoderCodec (args ! (e + 1)) = Some ''hevc''"
    "r = take (e + 2) args @ [''-profile'' @ trim_prefix (args ! e) ''-codec'', ''main10''] @ drop (e + 2) args"
    "tenBitOutput args" "tenBitOutput r" "ch' = ch @ [''encode:hevc:profile=main10'']"
proof -
  obtain e where e: "encoder_slot args = Some e" using assms by (auto simp: ensureHEVCMain10_def split: option.splits)
  let ?flag = "''-profile'' @ trim_prefix (args ! e) ''-codec''"
  have c: "map_of hwEncoderCodec (args ! (e + 1)) = Some ''hevc''" "tenBitOutput args"
    "r = take (e + 2) args @ [?flag, ''main10''] @ drop (e + 2) args" "ch' = ch @ [''encode:hevc:profile=main10'']"
    using assms e by (auto simp: ensureHEVCMain10_def Let_def spliceArgs_def split: if_splits)
  have len: "e + 1 < length args" using e by (auto simp: encoder_slot_def split: option.splits if_splits)
  then have "last (take (e + 2) args) = args ! (e + 1)" by (subst last_conv_nth) auto
  then have "tenBitOutput r"
    unfolding c(3) using c(1,2) len hevc_not_graph by (subst tenBitOutput_insert) auto
  with that e c show ?thesis by blast
qed

lemma main10_kept: "ensureHEVCMain10 args ch = (args, ch') \<Longrightarrow> ch' = ch"
  by (auto simp: ensureHEVCMain10_def Let_def spliceArgs_def split: option.splits if_splits dest: arg_cong [of _ _ length])

end
