(* ===== verification/RewriteMain.thy ===== *)
theory RewriteMain
  imports RewriteShape
begin

text \<open>
  \<open>Rewrite\<close> (\<open>src/worker/agent/rewriter.go\<close>): the phases that turn an argument vector of the media
  server into the one the worker runs, in the order of the code. A phase ends in a run-time panic, in a
  bail (the untransformed vector with the flags nobody understands removed), or goes on. What the code
  gets from outside is in the context: the process environment, the backend, the two ffprobe functions
  of the options, the file system, and the answer of the Plex Pass gate.
\<close>

section \<open>Results and bails\<close>

record RewriteResult =
  rr_Args :: argv
  rr_Env :: env
  Applied :: bool
  Changes :: changes
  ProgressURL :: string
  SeekOffsetSeconds :: go_float
  IsMatroskaSegment :: bool

datatype 'a rw = RwPanic | RwBail RewriteResult | RwGo 'a

primrec rw_bind :: "'a rw \<Rightarrow> ('a \<Rightarrow> 'b rw) \<Rightarrow> 'b rw" where
  "rw_bind RwPanic f = RwPanic"
| "rw_bind (RwBail r) f = RwBail r"
| "rw_bind (RwGo x) f = f x"

definition rw_of :: "'a option \<Rightarrow> 'a rw" where
  "rw_of x = (case x of None \<Rightarrow> RwPanic | Some y \<Rightarrow> RwGo y)"

text \<open>\<open>cx_input\<close> is \<open>inputArgs\<close> after the scrub of the font paths, \<open>cx_scrubbed\<close> tells whether the
  scrub changed it; \<open>cx_allowed\<close> is the answer of \<open>hwAccelAllowed\<close>.\<close>

record rwctx =
  cx_os :: env
  cx_dialect :: dialect
  cx_input :: argv
  cx_scrubbed :: bool
  cx_env :: env
  cx_tm :: tonemapConfig
  cx_driver :: string
  cx_readFile :: "string \<Rightarrow> string option"
  cx_probeSub :: "(string \<Rightarrow> string \<Rightarrow> string) option"
  cx_probeColor :: "(string \<Rightarrow> string \<times> string \<times> string) option"
  cx_allowed :: bool

function drop_progressurls :: "argv \<Rightarrow> argv \<times> changes" where
  "drop_progressurls args =
     (case index_of_arg args ''-progressurl'' 0 of
        None \<Rightarrow> (args, [])
      | Some i \<Rightarrow> if length args \<le> i + 1 then (args, [])
          else (case drop_progressurls (removeArgs args i 2) of (r, ch) \<Rightarrow> (r, ''drop:-progressurl(bail)'' # ch)))"
  by pat_completeness auto
termination
  by (relation "measure length") (auto simp: removeArgs_def)

declare drop_progressurls.simps [simp del]

definition bail_segment_list :: "rwctx \<Rightarrow> argv \<Rightarrow> argv \<times> changes" where
  "bail_segment_list cx args =
     (let base = pms_base (cx_os cx) (cx_env cx)
      in if base = [] then (args, [])
         else (case segment_list_from base (cx_env cx) [] ''bail'' 0 args of
                 (r, ch) \<Rightarrow> (r, map (\<lambda>t. ''bail:segment_list:rewrite-to-relay'') ch)))"

definition bail_manifest_tag :: "string \<Rightarrow> string" where
  "bail_manifest_tag t =
     (if t = ''manifest_name:rewrite-to-relay'' then ''bail:manifest_name:rewrite-to-relay''
      else if t = ''drop:-manifest_name(no-pms-base-or-non-loopback)''
      then ''bail:manifest_name:drop(no-pms-base-or-non-loopback)'' else t @ ''(bail)'')"

definition scrubPlexFlagsOnBail :: "rwctx \<Rightarrow> argv \<Rightarrow> argv \<times> changes" where
  "scrubPlexFlagsOnBail cx args =
     (case drop_progressurls args of (a1, ch1) \<Rightarrow>
      case bail_segment_list cx a1 of (a2, ch2) \<Rightarrow>
      case rewriteManifestName (cx_os cx) a2 (cx_env cx) of (a3, ch3) \<Rightarrow>
        (a3, ch1 @ ch2 @ map bail_manifest_tag ch3))"

definition audio_tag :: "string \<Rightarrow> string \<times> string \<Rightarrow> string" where
  "audio_tag sfx p = ''audio:'' @ fst p @ ''->'' @ snd p @ sfx"

definition bail_hints :: "string \<Rightarrow> argv \<Rightarrow> argv \<times> changes" where
  "bail_hints reason args = (if reason = ''no-decoder'' then dropInputAudioDecoderHints args else (args, []))"

definition bail :: "rwctx \<Rightarrow> changes \<Rightarrow> string \<Rightarrow> 'a rw" where
  "bail cx ch reason =
     (case scrubPlexFlagsOnBail cx (cx_input cx) of (a1, scrub) \<Rightarrow>
      case bail_hints reason a1 of (a2, hints) \<Rightarrow>
      case swapEAEAudioDecoders a2 of (a3, swapped) \<Rightarrow>
      case dropEAEPrefixFlags a3 of
        None \<Rightarrow> RwPanic
      | Some (a4, eae) \<Rightarrow>
          (case dropFramedropBSF a4 of (a5, fd) \<Rightarrow>
             RwBail \<lparr>rr_Args = a5, rr_Env = cx_env cx,
               Applied = (cx_scrubbed cx \<or> scrub \<noteq> [] \<or> hints \<noteq> [] \<or> swapped \<noteq> [] \<or> eae \<noteq> [] \<or> fd \<noteq> []),
               Changes = ch @ scrub @ hints @ map (audio_tag ''(bail)'') swapped
                 @ map (\<lambda>d. ''drop:'' @ d @ ''(bail)'') eae
                 @ map (\<lambda>d. ''drop:'' @ d @ ''(framedrop)(bail)'') fd @ [''skip:'' @ reason],
               ProgressURL = [], SeekOffsetSeconds = 0, IsMatroskaSegment = False\<rparr>))"

section \<open>Positions\<close>

definition after_input :: "argv \<Rightarrow> nat" where
  "after_input args = (case index_of_arg args ''-i'' 0 of None \<Rightarrow> 0 | Some i \<Rightarrow> i + 1)"

definition enc_index :: "argv \<Rightarrow> nat option" where
  "enc_index args = streamSpecIndex args ''-codec'' 0 (after_input args)"

definition output_format :: "argv \<Rightarrow> string" where
  "output_format args = (case find_pair (\<lambda>a b. a = ''-f'') args of Some i \<Rightarrow> args ! (i + 1) | None \<Rightarrow> [])"

section \<open>Gate and backend\<close>

text \<open>The vector, the changes and \<open>hwReaccelOK\<close>.\<close>

definition rw_gate :: "rwctx \<Rightarrow> argv \<Rightarrow> changes \<Rightarrow> (argv \<times> changes \<times> bool) rw" where
  "rw_gate cx args ch =
     (if find_pair (\<lambda>a b. a = ''-filter_complex'' \<and> str_contains b ''subtitles='') args \<noteq> None
      then bail cx ch ''subtitles-burn-in''
      else if index_of_arg args ''-i'' 0 = None then bail cx ch ''no-input''
      else
        (let gated = (envBool (cx_os cx) ''SCALEPLEX_FORCE_HW'' \<and> detectSourceBackend args = srcSW);
             hwReaccelOK = (gated \<longrightarrow> cx_allowed cx);
             ch1 = (if hwReaccelOK then ch else ch @ [''pass-gate:denied-honor-sw'']);
             (a2, ch2) = (if backendName (cx_dialect cx) = ''sw'' then reshapeToSoftware args
               else if hwReaccelOK then reshapeForeignHWArgv (cx_os cx) (cx_dialect cx) (cx_tm cx) args
               else (args, []));
             a3 = (if ch2 \<noteq> [] then a2 else args)
         in if index_of_arg a3 ''-i'' 0 = None then bail cx (ch1 @ ch2) ''no-input''
            else RwGo (a3, ch1 @ ch2, hwReaccelOK)))"

section \<open>Decoder\<close>

record rwst =
  st_args :: argv
  st_ch :: changes
  swDecoder :: string
  honorSW :: bool
  honorHybrid :: bool
  isHWDecode :: bool
  hybridForceHW :: bool
  earlySubSrc :: "subtitleSource option"
  st_enc :: "nat option"
  sourceIsHDR :: bool

definition hwaccel_flags :: "dialect \<Rightarrow> argv" where
  "hwaccel_flags d = [''-hwaccel:0'', hwaccelName d, ''-hwaccel_output_format:0'', hwaccelOutputFormat d,
     ''-hwaccel_device:0'', filterHWDeviceName d]"

text \<open>The encoder in the output slot, when it has a value; is it a software encoder the backend maps?\<close>

definition is_sw_encoder :: "dialect \<Rightarrow> argv \<Rightarrow> bool" where
  "is_sw_encoder d args = (case enc_index args of
     Some peer \<Rightarrow> peer + 1 < length args \<and> map_of (encoderMap d) (args ! (peer + 1)) \<noteq> None | None \<Rightarrow> False)"

text \<open>The vector, the changes and \<open>isHWDecode\<close>.\<close>

definition decoder_swap ::
    "rwctx \<Rightarrow> argv \<Rightarrow> changes \<Rightarrow> nat \<Rightarrow> bool \<Rightarrow> (argv \<times> changes \<times> bool) rw" where
  "decoder_swap cx args ch dec hSW =
     (let d = cx_dialect cx; swDec = args ! (dec + 1)
      in if hSW then RwGo (args, ch, False)
         else if swDec \<in> set (hwDecodeShortCodecs d) then
           (if streamSpecIndex args ''-hwaccel'' 0 0 \<noteq> None
            then RwGo (args, ch @ [''decode:hw-passthrough:'' @ swDec], True)
            else if \<not> is_sw_encoder d args then bail cx ch (''unknown-decoder:'' @ swDec)
            else RwGo (spliceArgs args (dec + 2) (hwaccel_flags d),
                       ch @ [''decode:bare-hw-upgrade:'' @ swDec], False))
         else (case map_of (decoderMap d) swDec of
                 Some hwDec \<Rightarrow> RwGo (spliceArgs (args[dec + 1 := hwDec]) (dec + 2) (hwaccel_flags d),
                                     ch @ [''decode:'' @ swDec @ ''->'' @ hwDec], False)
               | None \<Rightarrow> bail cx ch (''unknown-decoder:'' @ swDec)))"

definition rw_decoder :: "rwctx \<Rightarrow> argv \<Rightarrow> changes \<Rightarrow> bool \<Rightarrow> rwst rw" where
  "rw_decoder cx args ch hwReaccelOK =
     (case streamSpecIndex args ''-codec'' 0 0 of
        None \<Rightarrow> bail cx ch ''no-decoder''
      | Some dec \<Rightarrow>
          if after_input args \<le> dec + 1 then bail cx ch ''no-decoder''
          else
            (let d = cx_dialect cx;
                 forceHW = (envBool (cx_os cx) ''SCALEPLEX_FORCE_HW'' \<and> hwReaccelOK \<and> backendName d \<noteq> ''sw'');
                 plexSWEncoder = is_sw_encoder d args;
                 noHwaccel = (streamSpecIndex args ''-hwaccel'' 0 0 = None);
                 hSW = (plexSWEncoder \<and> noHwaccel \<and> \<not> forceHW);
                 ch1 = (if forceHW \<and> plexSWEncoder
                   then ch @ [if noHwaccel then ''force-hw:would-honor-sw'' else ''force-hw:would-honor-hwdec-swenc'']
                   else ch)
             in rw_bind (decoder_swap cx args ch1 dec hSW) (\<lambda>(args2, ch2, hw).
                  (let hyb = (hw \<and> forceHW \<and> plexSWEncoder)
                   in rw_bind (if (\<not> hw \<or> hyb) \<and> \<not> hSW then rw_of (detectSubtitleSource args2 (cx_probeSub cx))
                               else RwGo None) (\<lambda>early.
                        RwGo \<lparr>st_args = args2, st_ch = ch2, swDecoder = args ! (dec + 1), honorSW = hSW,
                          honorHybrid = (plexSWEncoder \<and> \<not> noHwaccel \<and> \<not> forceHW), isHWDecode = hw,
                          hybridForceHW = hyb, earlySubSrc = early, st_enc = None, sourceIsHDR = False\<rparr>)))))"

section \<open>Hardware device\<close>

text \<open>The pair of a flag and its value, if the flag is there and has one.\<close>

definition drop_pair :: "string \<Rightarrow> argv \<Rightarrow> argv" where
  "drop_pair flag args = (case index_of_arg args flag 0 of
     Some i \<Rightarrow> if i + 1 < length args then removeArgs args i 2 else args | None \<Rightarrow> args)"

definition drop_device :: "argv \<Rightarrow> argv" where
  "drop_device args = drop_pair ''-filter_hw_device'' (drop_pair ''-init_hw_device'' args)"

definition replace_foreign_device :: "dialect \<Rightarrow> argv \<times> changes \<Rightarrow> argv \<times> changes" where
  "replace_foreign_device d st = (case st of (args, ch) \<Rightarrow>
     (case index_of_arg args ''-init_hw_device'' 0 of
        Some i \<Rightarrow>
          if i + 1 < length args \<and> hwDeviceBackend (args ! (i + 1)) \<noteq> hwDeviceBackend (initHWDeviceArg d 0)
          then (drop_device args, ch @ [''replace:foreign-init_hw_device'']) else (args, ch)
      | None \<Rightarrow> (args, ch)))"

definition strip_driver_param :: "dialect \<Rightarrow> argv \<times> changes \<Rightarrow> argv \<times> changes" where
  "strip_driver_param d st = (case st of (args, ch) \<Rightarrow>
     if backendName d \<noteq> ''vaapi'' then (args, ch)
     else (case index_of_arg args ''-init_hw_device'' 0 of
        Some i \<Rightarrow>
          if i + 1 < length args \<and> stripVAAPIDriverParam (args ! (i + 1)) \<noteq> args ! (i + 1)
          then (args[i + 1 := stripVAAPIDriverParam (args ! (i + 1))], ch @ [''strip:init_hw_device:driver''])
          else (args, ch)
      | None \<Rightarrow> (args, ch)))"

text \<open>The insertion before \<open>-i\<close>; an insertion at \<open>-1\<close> panics.\<close>

definition inject_device :: "dialect \<Rightarrow> argv \<times> changes \<Rightarrow> (argv \<times> changes) rw" where
  "inject_device d st = (case st of (args, ch) \<Rightarrow>
     if index_of_arg args ''-init_hw_device'' 0 \<noteq> None then RwGo (args, ch)
     else (case index_of_arg args ''-i'' 0 of
        None \<Rightarrow> RwPanic
      | Some i \<Rightarrow> RwGo (spliceArgs args i [''-init_hw_device'', initHWDeviceArg d 0, ''-filter_hw_device'', filterHWDeviceName d],
                       ch @ [''inject:init_hw_device+filter_hw_device''])))"

definition media_path :: "argv \<Rightarrow> string" where
  "media_path args = (case index_of_arg args ''-i'' 0 of
     Some i \<Rightarrow> if i + 1 < length args then args ! (i + 1) else [] | None \<Rightarrow> [])"

definition hdr_probe :: "rwctx \<Rightarrow> argv \<Rightarrow> bool \<times> changes" where
  "hdr_probe cx args = (case cx_probeColor cx of
     None \<Rightarrow> (False, [])
   | Some pc \<Rightarrow>
       if media_path args = [] then (False, [])
       else (case pc (media_path args) of (transfer, rest) \<Rightarrow>
         if isHDRTransfer transfer then (True, [''video:hdr-source('' @ to_lower transfer @ '')'']) else (False, [])))"

definition rw_device :: "rwctx \<Rightarrow> rwst \<Rightarrow> rwst rw" where
  "rw_device cx st =
     (let d = cx_dialect cx
      in rw_bind (if honorSW st then RwGo (st_args st, st_ch st)
                  else inject_device d (strip_driver_param d (replace_foreign_device d (st_args st, st_ch st))))
           (\<lambda>(args, ch).
              case enc_index args of
                None \<Rightarrow> bail cx ch ''no-encoder''
              | Some e \<Rightarrow> (case hdr_probe cx args of (hdr, ch1) \<Rightarrow>
                  RwGo (st\<lparr>st_args := args, st_ch := ch @ ch1, st_enc := Some e, sourceIsHDR := hdr\<rparr>))))"

section \<open>Video graph and encoder\<close>

definition honor_sw :: "rwst \<Rightarrow> rwst" where
  "honor_sw st = st\<lparr>st_args := drop_device (st_args st), st_ch := st_ch st @ [''honor:plex-sw'']\<rparr>"

definition bitmap_tag :: "subtitleSource option \<Rightarrow> changes" where
  "bitmap_tag subSrc = (case subSrc of
     Some ss \<Rightarrow> if Kind ss = ''bitmap''
       then [''subtitle:bitmap:'' @ StreamSpec ss @ (if Codec ss \<noteq> [] then ''('' @ Codec ss @ '')'' else [])] else []
   | None \<Rightarrow> [])"

text \<open>The search for the \<open>-map\<close> of the old label from a position on; \<open>-map\<close> at the very end panics.\<close>

fun update_map :: "string \<Rightarrow> string \<Rightarrow> argv \<Rightarrow> (argv \<times> bool) option" where
  "update_map old new [] = Some ([], False)"
| "update_map old new (a # r) =
     (if a \<noteq> ''-map'' then
        (case update_map old new r of None \<Rightarrow> None | Some (r', did) \<Rightarrow> Some (a # r', did))
      else (case r of
          [] \<Rightarrow> None
        | v # r2 \<Rightarrow>
            if v = old \<or> v = quoted old
            then Some (a # (if has_prefix v [CHR 0x22] then quoted new else new) # r2, True)
            else (case update_map old new r of None \<Rightarrow> None | Some (r', did) \<Rightarrow> Some (a # r', did))))"

text \<open>The binding of a bitmap subtitle, before the first graph.\<close>

definition add_map_inlineass :: "string \<Rightarrow> argv \<Rightarrow> argv" where
  "add_map_inlineass spec args = (case index_of_arg args ''-filter_complex'' 0 of
     Some i \<Rightarrow> spliceArgs args i [''-map_inlineass'', spec] | None \<Rightarrow> args)"

definition bind_bitmap :: "string \<Rightarrow> subtitleSource option \<Rightarrow> argv \<Rightarrow> argv \<times> changes" where
  "bind_bitmap md subSrc args = (case subSrc of
     Some ss \<Rightarrow>
       if md = ''bitmap-inlineass-vaapi'' \<and> StreamSpec ss \<noteq> [] \<and> index_of_arg args ''-map_inlineass'' 0 = None
       then (add_map_inlineass (StreamSpec ss) args, [''add:-map_inlineass'']) else (args, [])
   | None \<Rightarrow> (args, []))"

definition swap_encoder :: "rwctx \<Rightarrow> rwst \<Rightarrow> rwst rw" where
  "swap_encoder cx st =
     (let args = st_args st
      in case enc_index args of
           None \<Rightarrow> bail cx (st_ch st) ''no-encoder''
         | Some e \<Rightarrow>
             if length args \<le> e + 1 then RwPanic
             else (case map_of (encoderMap (cx_dialect cx)) (args ! (e + 1)) of
                 None \<Rightarrow> bail cx (st_ch st) (''unknown-encoder:'' @ args ! (e + 1))
               | Some hw \<Rightarrow> RwGo (st\<lparr>st_args := args[e + 1 := hw], st_enc := Some e,
                   st_ch := st_ch st @ [''encode:'' @ args ! (e + 1) @ ''->'' @ hw]\<rparr>)))"

definition video_graph_index :: "argv \<Rightarrow> nat option" where
  "video_graph_index args = map_option Suc
     (find_pair (\<lambda>a b. a = ''-filter_complex'' \<and> rx_matches reVideoInput0 b) args)"

definition rw_reshape_sw :: "rwctx \<Rightarrow> rwst \<Rightarrow> rwst rw" where
  "rw_reshape_sw cx st =
     (let args = st_args st;
          ch0 = st_ch st @ (if hybridForceHW st then [''force-hw:reshape-hybrid:'' @ swDecoder st] else [])
      in case video_graph_index args of
           None \<Rightarrow> bail cx ch0 ''no-video-filter''
         | Some vf \<Rightarrow>
             rw_bind (case earlySubSrc st of
                 Some ss \<Rightarrow> RwGo (Some ss) | None \<Rightarrow> rw_of (detectSubtitleSource args (cx_probeSub cx)))
               (\<lambda>subSrc.
                 (let ch1 = ch0 @ bitmap_tag subSrc
                  in case rewriteVideoFilter (cx_os cx) (cx_readFile cx) (args ! vf) subSrc (cx_tm cx) of
                       None \<Rightarrow> bail cx ch1 (''filter-pattern:'' @ args ! vf)
                     | Some f \<Rightarrow>
                         rw_bind (rw_of (update_map (OldLabel f) (NewLabel f) (drop (vf + 1) args)))
                           (\<lambda>(r, did).
                             case bind_bitmap (Mode f) subSrc (take vf args @ Filter f # r) of
                               (args2, ch2) \<Rightarrow>
                                 swap_encoder cx (st\<lparr>st_args := args2,
                                   st_ch := ch1 @ [''filter:'' @ Mode f]
                                     @ (if did then [''map-label-update''] else []) @ ch2\<rparr>)))))"

text \<open>\<open>-hwaccel_output_format\<close> set to the format of the backend, or inserted after \<open>-hwaccel\<close>; the
  flag tells whether something was inserted.\<close>

definition own_output_format :: "dialect \<Rightarrow> argv \<Rightarrow> (argv \<times> bool) option" where
  "own_output_format d args =
     (case streamSpecIndex args ''-hwaccel_output_format'' 0 0 of
        Some j \<Rightarrow> if j + 1 < length args then Some (args[j + 1 := hwaccelOutputFormat d], False) else None
      | None \<Rightarrow> (case streamSpecIndex args ''-hwaccel'' 0 0 of
          Some h \<Rightarrow> if h + 2 \<le> length args
            then Some (spliceArgs args (h + 2) [''-hwaccel_output_format:0'', hwaccelOutputFormat d], True) else None
        | None \<Rightarrow> Some (args, False)))"

definition hw_text_index :: "argv \<Rightarrow> nat option" where
  "hw_text_index args = map_option Suc (find_pair (\<lambda>a b.
     a = ''-filter_complex'' \<and> str_contains b ''inlineass='' \<and> rx_matches reVideoInput0 b) args)"

text \<open>After an insertion the graph is looked up again, as the first of the vector.\<close>

definition graph_index_again :: "nat \<Rightarrow> bool \<Rightarrow> argv \<Rightarrow> nat" where
  "graph_index_again vf inserted args =
     (if inserted then (case index_of_arg args ''-filter_complex'' 0 of Some i \<Rightarrow> i + 1 | None \<Rightarrow> 0) else vf)"

definition hw_text_burn :: "rwctx \<Rightarrow> subtitleSource \<Rightarrow> rwst \<Rightarrow> rwst rw" where
  "hw_text_burn cx ss st =
     (let args = st_args st; d = cx_dialect cx
      in case hw_text_index args of
           None \<Rightarrow> bail cx (st_ch st) ''hw-decode-sub:no-inlineass-filter''
         | Some vf \<Rightarrow>
             (let g = args ! vf; facts = extractGraphFacts g (Some ss)
              in if \<not> gf_ok facts \<or> gf_subKind facts \<noteq> ''text''
                 then bail cx (st_ch st) (''hw-decode-sub:unmodeled-graph:'' @ g)
                 else
                   (let hdr = (sourceIsHDR st \<or> gf_hdr facts);
                        ten = ((hdr \<or> fst (graphFeedsTenBit g)) \<and> \<not> gf_hdr facts \<and> encoderIsHEVC args);
                        spec = \<lparr>vaResident = True, bs_w = gf_w facts, bs_h = gf_h facts, bs_hdr = gf_hdr facts,
                          bs_algo = gf_algo facts, tenBit = ten, burnSub = True, bs_subParams = gf_subParams facts,
                          animatedTierDown = subtitleIsAnimated (Codec ss) (FilePath ss) (Some (cx_readFile cx)),
                          bs_subKind = [], bs_subSpec = []\<rparr>
                    in case own_output_format d args of
                         None \<Rightarrow> RwPanic
                       | Some (args1, inserted) \<Rightarrow>
                           (case composeBurn (cx_os cx) (cx_tm cx) spec of (f0, l0) \<Rightarrow>
                            case appendSelectStage f0 l0 (selectExpr facts) of (f, l) \<Rightarrow>
                              (let old = trailing_label g;
                                   args2 = retargetMapLabel (args1[graph_index_again vf inserted args1 := f]) old l
                               in RwGo (st\<lparr>st_args := args2, sourceIsHDR := hdr, st_enc := enc_index args2,
                                    st_ch := st_ch st
                                      @ (if gf_hdr facts
                                         then [''hw-decode-sub:tonemap-preserved('' @ gf_algo facts @ '')'',
                                               ''hw-decode:filter:opencl-tonemap->vaapi:inlineass-vaapi'']
                                         else [''hw-decode:filter:inlineass-vaapi''])
                                      @ (if old \<noteq> [] \<and> old \<noteq> l then [''hw-decode:map-label-update''] else [])\<rparr>))))))"

definition hw_bitmap_burn :: "rwctx \<Rightarrow> rwst \<Rightarrow> rwst rw" where
  "hw_bitmap_burn cx st =
     (let args = st_args st; d = cx_dialect cx
      in case find_pair (\<lambda>a b. a = ''-filter_complex'') args of
           None \<Rightarrow> RwGo st
         | Some i \<Rightarrow> (case detectBitmapOverlayBurn (args ! (i + 1)) of
             None \<Rightarrow> RwGo st
           | Some (spec, w, h, algo, hdr) \<Rightarrow>
               (let g = args ! (i + 1);
                    res = (streamSpecIndex args ''-hwaccel'' 0 0 \<noteq> None);
                    ten = ((sourceIsHDR st \<or> fst (graphFeedsTenBit g)) \<and> \<not> hdr \<and> encoderIsHEVC args);
                    bs = \<lparr>vaResident = res, bs_w = w, bs_h = h, bs_hdr = hdr, bs_algo = algo, tenBit = ten,
                      burnSub = True, bs_subParams = [], animatedTierDown = False, bs_subKind = [], bs_subSpec = []\<rparr>
                in case composeBurn (cx_os cx) (cx_tm cx) bs of (f, l) \<Rightarrow>
                   (case (if res then own_output_format d (args[i + 1 := f]) else Some (args[i + 1 := f], False)) of
                      None \<Rightarrow> RwPanic
                    | Some (args1, inserted) \<Rightarrow>
                        (let args2 = add_map_inlineass spec (retargetMapLabel args1 (trailing_label g) l)
                         in RwGo (st\<lparr>st_args := args2, st_enc := enc_index args2,
                              st_ch := st_ch st @ [if hdr
                                then ''hw-decode:filter:bitmap-inlineass-vaapi:hdr-tonemap('' @ algo @ '')''
                                else ''hw-decode:filter:bitmap-inlineass-vaapi'']\<rparr>)))))) "

definition rw_passthrough :: "rwctx \<Rightarrow> rwst \<Rightarrow> rwst rw" where
  "rw_passthrough cx st =
     (let args = st_args st
      in case st_enc st of
           None \<Rightarrow> RwPanic
         | Some e \<Rightarrow>
             if length args \<le> e + 1 then RwPanic
             else if args ! (e + 1) \<notin> snd ` set (encoderMap (cx_dialect cx))
             then bail cx (st_ch st) (''hw-decode:unexpected-encoder:'' @ args ! (e + 1))
             else
               (let st1 = st\<lparr>st_ch := st_ch st @ [''encode:hw-passthrough:'' @ args ! (e + 1)]\<rparr>
                in rw_bind (rw_of (detectSubtitleSource args (cx_probeSub cx))) (\<lambda>subSrc.
                     rw_bind (case subSrc of
                         None \<Rightarrow> RwGo st1
                       | Some ss \<Rightarrow>
                           if Kind ss = ''text'' then hw_text_burn cx ss st1
                           else bail cx (st_ch st1) ''hw-decode-sub:bitmap-unsupported'')
                       (hw_bitmap_burn cx))))"

definition rw_video :: "rwctx \<Rightarrow> rwst \<Rightarrow> rwst rw" where
  "rw_video cx st =
     (if honorSW st then RwGo (honor_sw st)
      else if \<not> isHWDecode st \<or> hybridForceHW st then rw_reshape_sw cx st
      else if honorHybrid st then RwGo (st\<lparr>st_ch := st_ch st @ [''honor:plex-hwdec-swenc'']\<rparr>)
      else rw_passthrough cx st)"

section \<open>Final graph\<close>

definition inject_sei :: "rwst \<Rightarrow> argv \<Rightarrow> argv \<times> changes" where
  "inject_sei st args =
     (if honorSW st \<or> honorHybrid st \<or> streamSpecIndex args ''-sei'' 0 0 \<noteq> None then (args, [])
      else (case streamSpecIndex args ''-force_key_frames'' 0 (case st_enc st of None \<Rightarrow> 0 | Some e \<Rightarrow> e + 1) of
              Some i \<Rightarrow> (spliceArgs args i [''-sei:0'', ''-a53_cc''], [''inject:sei+a53_cc''])
            | None \<Rightarrow> (args, [])))"

definition rw_fixups :: "rwctx \<Rightarrow> rwst \<Rightarrow> rwst rw" where
  "rw_fixups cx st =
     rw_bind (rw_of (gpuResidentOpenCLTonemap (cx_dialect cx) (st_args st))) (\<lambda>(args1, ch1).
       (let st1 = st\<lparr>st_enc := enc_index args1\<rparr>
        in case ensureHEVCMain10 args1 (st_ch st @ ch1) of (args2, ch2) \<Rightarrow>
           case inject_sei st1 args2 of (args3, ch3) \<Rightarrow>
             RwGo (st1\<lparr>st_args := args3, st_ch := ch2 @ ch3\<rparr>)))"

text \<open>The whole block that the remux path skips.\<close>

definition rw_transcode :: "rwctx \<Rightarrow> argv \<Rightarrow> changes \<Rightarrow> (argv \<times> changes) rw" where
  "rw_transcode cx args ch =
     rw_bind (rw_gate cx args ch) (\<lambda>(args1, ch1, hwOK).
     rw_bind (rw_decoder cx args1 ch1 hwOK) (\<lambda>st.
     rw_bind (rw_device cx st) (\<lambda>st.
     rw_bind (rw_video cx st) (\<lambda>st.
     rw_bind (rw_fixups cx st) (\<lambda>st. RwGo (st_args st, st_ch st))))))"

section \<open>Tail\<close>

definition audio_pass :: "argv \<times> changes \<Rightarrow> (argv \<times> changes) option" where
  "audio_pass st = (case st of (args, ch) \<Rightarrow>
     case swapEAEAudioDecoders args of (a1, swapped) \<Rightarrow>
     case dropEAEPrefixFlags a1 of
       None \<Rightarrow> None
     | Some (a2, eae) \<Rightarrow>
         (case dropFramedropBSF a2 of (a3, fd) \<Rightarrow>
            Some (a3, ch @ map (audio_tag []) swapped @ map (\<lambda>d. ''drop:'' @ d) eae
              @ map (\<lambda>d. ''drop:'' @ d @ ''(framedrop)'') fd)))"

definition skip_tag :: "argv \<Rightarrow> changes" where
  "skip_tag args = (case index_of_arg args ''-skip_to_segment'' 0 of
     Some i \<Rightarrow> if i + 1 < length args \<and> (case atoi (args ! (i + 1)) of Some n \<Rightarrow> 0 < n | None \<Rightarrow> False)
       then [''skip_to_segment:passthrough='' @ args ! (i + 1)] else []
   | None \<Rightarrow> [])"

definition segment_time :: "argv \<Rightarrow> string" where
  "segment_time args = (case index_of_arg args ''-segment_time'' 0 of
     Some i \<Rightarrow> if i + 1 < length args then args ! (i + 1) else [] | None \<Rightarrow> [])"

definition list_pass :: "rwctx \<Rightarrow> bool \<Rightarrow> argv \<times> changes \<Rightarrow> argv \<times> changes" where
  "list_pass cx isHLS st = (case st of (args, ch) \<Rightarrow>
     case (if isHLS then rewriteSegmentList (cx_os cx) args (cx_env cx) (segment_time args) ''hls'' else (args, [])) of
       (a1, ch1) \<Rightarrow>
     case rewriteSegmentList (cx_os cx) a1 (cx_env cx) [] ''side-channel'' of
       (a2, ch2) \<Rightarrow> (a2, ch @ ch1 @ ch2))"

definition seek_offset :: "argv \<Rightarrow> go_float" where
  "seek_offset args = (case index_of_arg args ''-ss'' 0 of
     Some i \<Rightarrow> if i + 1 < length args
       then (case parse_float (args ! (i + 1)) of Some v \<Rightarrow> if 0 < v then v else 0 | None \<Rightarrow> 0) else 0
   | None \<Rightarrow> 0)"

definition seek_tag :: "argv \<Rightarrow> changes" where
  "seek_tag args = (if 0 < seek_offset args
     then [''seek-offset:captured='' @ format_fixed 3 (seek_offset args) @ ''s''] else [])"

definition log_pass :: "env \<Rightarrow> argv \<times> changes \<Rightarrow> argv \<times> changes" where
  "log_pass os st = (case st of (args, ch) \<Rightarrow>
     case upgradeLoglevelFromQuiet os args of (a1, did1) \<Rightarrow>
     case dropNostatsFlag a1 of (a2, did2) \<Rightarrow>
       (a2, ch @ (if did1 then [''loglevel:->info''] else []) @ (if did2 then [''drop:-nostats''] else [])))"

definition child_env :: "rwctx \<Rightarrow> bool \<Rightarrow> env \<times> changes" where
  "child_env cx isRemux =
     (case stripEAEEnvVars (cx_env cx) of (e1, ch1) \<Rightarrow>
        (let path = env_get (cx_os cx) ''HW_LIBVA_DRIVERS_PATH'';
             e2 = (if isRemux then e1 else AList.update ''LIBVA_DRIVER_NAME'' (cx_driver cx) e1);
             e3 = (if isRemux \<or> path = [] then e2 else AList.update ''LIBVA_DRIVERS_PATH'' path e2)
         in (setWorkerHomeEnv (cx_os cx) e3, ch1 @ (if isRemux then [] else [''env:LIBVA'']) @ [''env:HOME''])))"

definition sink_pass :: "bool \<Rightarrow> argv \<times> changes \<Rightarrow> argv \<times> changes" where
  "sink_pass isRemux st = (case st of (args, ch) \<Rightarrow>
     if isRemux then (args, ch)
     else (case stripInlineassDecodeSink args of (r, did) \<Rightarrow>
             (r, if did then ch @ [''drop:inlineass-decode-sink''] else ch)))"

definition matroska_segment :: "string \<Rightarrow> argv \<Rightarrow> bool" where
  "matroska_segment fmt args \<longleftrightarrow> fmt = ''segment'' \<and> (case index_of_arg args ''-segment_format'' 0 of
     Some i \<Rightarrow> i + 1 < length args \<and> args ! (i + 1) = ''matroska'' | None \<Rightarrow> False)"

definition rw_tail :: "rwctx \<Rightarrow> bool \<Rightarrow> string \<Rightarrow> argv \<times> changes \<Rightarrow> RewriteResult rw" where
  "rw_tail cx isRemux fmt st =
     rw_bind (rw_of (audio_pass st)) (\<lambda>(a1, ch1).
       case list_pass cx (fmt = ''ssegment'' \<or> fmt = ''segment'') (a1, ch1 @ skip_tag a1) of (a2, ch2) \<Rightarrow>
       case rewriteManifestName (cx_os cx) a2 (cx_env cx) of (a3, ch3) \<Rightarrow>
       case capturePMSProgressURL (cx_os cx) a3 (cx_env cx) of (a4, url, ch4) \<Rightarrow>
       case log_pass (cx_os cx) (a4, ch2 @ seek_tag a2 @ ch3 @ ch4) of (a5, ch5) \<Rightarrow>
       case child_env cx isRemux of (e, ch6) \<Rightarrow>
       case sink_pass isRemux (a5, ch5 @ ch6) of (a6, ch7) \<Rightarrow>
         RwGo \<lparr>rr_Args = a6, rr_Env = e, Applied = True, Changes = ch7, ProgressURL = url,
           SeekOffsetSeconds = seek_offset a2, IsMatroskaSegment = matroska_segment fmt a6\<rparr>)"

section \<open>Rewrite\<close>

text \<open>The options, and what the process finds: the environment, the backend, the driver that
  \<open>detectVAAPIDriver\<close> finds, \<open>os.ReadFile\<close>, and the answer of the gate.\<close>

record rwworld =
  w_os :: env
  w_dialect :: dialect
  w_detected :: string
  w_readFile :: "string \<Rightarrow> string option"
  w_probeSub :: "(string \<Rightarrow> string \<Rightarrow> string) option"
  w_probeColor :: "(string \<Rightarrow> string \<times> string \<times> string) option"
  w_allowed :: bool

definition rw_context :: "rwworld \<Rightarrow> argv \<Rightarrow> env \<Rightarrow> rwctx" where
  "rw_context w inputArgs inputEnv =
     (case scrubPlexInlineassFilesystemPathsInArgs inputArgs of (scrubbed, did) \<Rightarrow>
        \<lparr>cx_os = w_os w, cx_dialect = w_dialect w, cx_input = scrubbed, cx_scrubbed = did, cx_env = inputEnv,
          cx_tm = resolveTonemapConfig (w_os w) (w_dialect w),
          cx_driver = worker_envOr (w_os w) ''HW_VAAPI_DRIVER'' (w_detected w),
          cx_readFile = w_readFile w, cx_probeSub = w_probeSub w, cx_probeColor = w_probeColor w,
          cx_allowed = w_allowed w\<rparr>)"

definition rw_start :: "rwctx \<Rightarrow> argv \<times> changes" where
  "rw_start cx =
     (case substituteOpenCLTonemap (cx_input cx) (cx_tm cx) of (args, did) \<Rightarrow>
        (args, (if cx_scrubbed cx then [''filter:inlineass:scrub-plex-font-paths''] else [])
           @ (if \<not> did then [] else if useOpenCL (cx_tm cx) then [''filter:tonemap_opencl-normalized'']
              else [''filter:tonemap_opencl->tonemap_vaapi''])))"

definition Rewrite_in :: "rwctx \<Rightarrow> RewriteResult rw" where
  "Rewrite_in cx =
     (case rw_start cx of (args, ch) \<Rightarrow>
        (let isRemux = isOptimizeRemux (cx_dialect cx) args; fmt = output_format args
         in rw_bind (if isRemux then RwGo (args, ch) else rw_transcode cx args ch) (rw_tail cx isRemux fmt)))"

text \<open>\<open>None\<close> is a run-time panic.\<close>

definition Rewrite :: "rwworld \<Rightarrow> argv \<Rightarrow> env \<Rightarrow> RewriteResult option" where
  "Rewrite w inputArgs inputEnv = (case Rewrite_in (rw_context w inputArgs inputEnv) of
     RwPanic \<Rightarrow> None | RwBail r \<Rightarrow> Some r | RwGo r \<Rightarrow> Some r)"

end
