(* ===== verification/RewriteContract.thy ===== *)
theory RewriteContract
  imports RewriteMain
begin

text \<open>
  What holds for every phase of \<open>Rewrite\<close>: its tags are known, and a bail that is not marked as applied
  left the vector alone. \<open>rw_inv cx P m\<close> reads: a bail of \<open>m\<close> is a good one, and a result satisfies \<open>P\<close>;
  the rules take a phase apart along its binds, bails and branches.
\<close>

named_theorems rw_rules \<open>one rule per phase\<close>

section \<open>Known tags\<close>

text \<open>The tags outside of the inventory that the code emits all the same.\<close>

definition unlisted :: "string \<Rightarrow> bool" where
  "unlisted t \<longleftrightarrow> t = ''manifest_name:rewrite-to-relay'' \<or> has_prefix t ''cross-backend:''
     \<or> has_prefix t ''seek-offset:captured=''"

definition tag_known :: "string \<Rightarrow> bool" where
  "tag_known t \<longleftrightarrow> tag_listed t \<or> unlisted t"

abbreviation known :: "changes \<Rightarrow> bool" where
  "known ch \<equiv> list_all tag_known ch"

lemma has_prefix_lit: "has_prefix (p @ x) p"
  by simp

lemma prefix_known:
  "p \<in> set prefixTags \<Longrightarrow> tag_known (p @ x)"
  unfolding tag_known_def tag_listed_def list_ex_iff using has_prefix_lit [of p x] by blast

lemma listed_known: "list_all (\<lambda>t. t \<in> set fullTags) ts \<Longrightarrow> known ts"
  by (auto simp: tag_known_def tag_listed_def list_all_iff)

lemma full_tags:
  "known [''drop:-progressurl(bail)'', ''drop:-eae_prefix(bail)'', ''bail:segment_list:rewrite-to-relay'',
     ''bail:manifest_name:rewrite-to-relay'', ''bail:manifest_name:drop(no-pms-base-or-non-loopback)'',
     ''filter:inlineass:scrub-plex-font-paths'', ''filter:tonemap_opencl-normalized'',
     ''filter:tonemap_opencl->tonemap_vaapi'', ''pass-gate:denied-honor-sw'', ''force-hw:would-honor-sw'',
     ''force-hw:would-honor-hwdec-swenc'', ''replace:foreign-init_hw_device'', ''strip:init_hw_device:driver'',
     ''inject:init_hw_device+filter_hw_device'', ''honor:plex-sw'', ''honor:plex-hwdec-swenc'',
     ''map-label-update'', ''add:-map_inlineass'', ''hw-decode:filter:inlineass-vaapi'',
     ''hw-decode:filter:opencl-tonemap->vaapi:inlineass-vaapi'', ''hw-decode:map-label-update'',
     ''hw-decode:filter:bitmap-inlineass-vaapi'', ''tonemap:ocl:drop-lead-hwupload'',
     ''tonemap:ocl:collapse-revmap-download'', ''tonemap:ocl:inject-opencl-device'',
     ''tonemap:ocl:force-output-format-vaapi'', ''inject:sei+a53_cc'', ''to-sw:strip-hwdecode'']"
  by (rule listed_known) code_simp

lemma full_tags2:
  "known [''progress:append-X-Plex-Token'', ''progressurl:captured-for-reporter'', ''canthrottle:disabled-by-env'',
     ''inject:-canthrottleurl(scaleplex-ffmpeg7-canThrottle)'', ''loglevel:->info'', ''drop:-nostats'',
     ''env:LIBVA'', ''env:HOME'', ''drop:inlineass-decode-sink'', ''hls:segment_list:rewrite-to-relay'',
     ''subs:side-channel-segment_list:rewrite-to-relay'']"
  by (rule listed_known) code_simp

lemmas full_known = full_tags [unfolded list.pred_inject] full_tags2 [unfolded list.pred_inject]

lemma prefix_tags:
  "tag_known (''audio:'' @ x)" "tag_known (''filter-pattern:'' @ x)" "tag_known (''unknown-decoder:'' @ x)"
  "tag_known (''decode:'' @ x)" "tag_known (''decode:bare-hw-upgrade:'' @ x)"
  "tag_known (''decode:hw-passthrough:'' @ x)" "tag_known (''drop:'' @ x)" "tag_known (''encode:'' @ x)"
  "tag_known (''encode:hw-passthrough:'' @ x)" "tag_known (''env:strip:'' @ x)" "tag_known (''filter:'' @ x)"
  "tag_known (''force-hw:reshape-hybrid:'' @ x)"
  "tag_known (''hw-decode:filter:bitmap-inlineass-vaapi:hdr-tonemap('' @ x)"
  "tag_known (''hw-decode-sub:tonemap-preserved('' @ x)" "tag_known (''skip:'' @ x)"
  "tag_known (''skip_to_segment:passthrough='' @ x)" "tag_known (''subtitle:bitmap:'' @ x)"
  "tag_known (''video:hdr-source('' @ x)" "tag_known (''to-sw:'' @ x)" "tag_known (''to-sw:filter:'' @ x)"
  "tag_known (''to-sw:encode:'' @ x)" "tag_known (''to-sw:decode:'' @ x)"
  by (intro prefix_known, simp add: prefixTags_def)+

lemma drop_constants: "tag_known ''drop:-manifest_name(no-pms-base-or-non-loopback)''"
  "tag_known ''drop:-progressurl(no-pms-base)''" "tag_known ''encode:hevc:profile=main10''"
  "tag_known ''manifest_name:rewrite-to-relay''"
  by (simp_all add: tag_known_def tag_listed_def unlisted_def prefixTags_def has_prefix_def)

lemma cross_known: "tag_known (''cross-backend:'' @ x)" and seek_known: "tag_known (''seek-offset:captured='' @ x)"
  by (simp_all add: tag_known_def unlisted_def has_prefix_def)

lemmas tags_known = full_known prefix_tags drop_constants cross_known seek_known

section \<open>The tags of the passes\<close>

lemma eae_prefix_silent: "dropEAEPrefixFlags x = Some (y, []) \<Longrightarrow> y = x"
  by (subst (asm) dropEAEPrefixFlags.simps) (auto split: option.splits prod.splits if_splits)

interpretation progressurls: reporting_pass drop_progressurls
proof (rule reporting_pass_alt)
  fix x y :: argv
  show "drop_progressurls x = (y, []) \<Longrightarrow> y = x"
    by (subst (asm) drop_progressurls.simps) (auto split: option.splits prod.splits if_splits)
qed

interpretation bail_lists: reporting_pass "bail_segment_list cx" for cx
proof (rule reporting_pass_alt)
  fix x y :: argv
  show "bail_segment_list cx x = (y, []) \<Longrightarrow> y = x"
    using seglist.untouched by (fastforce simp: bail_segment_list_def Let_def split: prod.splits if_splits)
qed

interpretation bail_scrub: reporting_pass "scrubPlexFlagsOnBail cx" for cx
proof (rule reporting_pass_alt)
  fix x y :: argv
  assume *: "scrubPlexFlagsOnBail cx x = (y, [])"
  obtain a1 c1 a2 c2 a3 c3 where st: "drop_progressurls x = (a1, c1)" "bail_segment_list cx a1 = (a2, c2)"
    "rewriteManifestName (cx_os cx) a2 (cx_env cx) = (a3, c3)" by (meson surj_pair)
  with * have "c1 = []" "c2 = []" "c3 = []" "y = a3" by (simp_all add: scrubPlexFlagsOnBail_def)
  with st progressurls.untouched bail_lists.untouched manifest.untouched show "y = x" by metis
qed

lemma drop_progressurls_known: "known (snd (drop_progressurls args))"
proof (induction args rule: drop_progressurls.induct)
  case (1 args)
  then show ?case
    by (subst drop_progressurls.simps) (auto simp: tags_known split: option.splits prod.splits)
qed

lemma segment_list_known: "known (snd (segment_list_from base en t v from args))"
proof (induction base en t v "from" args rule: segment_list_from.induct)
  case (1 base en t v "from" args)
  show ?case
  proof (cases "index_of_arg args ''-segment_list'' from")
    case None
    then show ?thesis by (subst segment_list_from.simps) simp
  next
    case (Some i)
    note IH = "1.IH" [OF Some _ refl refl]
    show ?thesis using Some IH
      by (subst segment_list_from.simps) (auto simp: Let_def tags_known split: prod.splits)
  qed
qed

lemma rewriteSegmentList_known: "known (snd (rewriteSegmentList os args en t v))"
  by (simp add: rewriteSegmentList_def Let_def segment_list_known)

lemma rewriteManifestName_known: "known (snd (rewriteManifestName os args en))"
  by (auto simp: rewriteManifestName_def Let_def tags_known split: option.split)

lemma manifest_tags: "rewriteManifestName os args en = (r, ch) \<Longrightarrow>
  set ch \<subseteq> {''manifest_name:rewrite-to-relay'', ''drop:-manifest_name(no-pms-base-or-non-loopback)''}"
  by (auto simp: rewriteManifestName_def Let_def split: option.splits if_splits)

lemma bail_manifest_known:
  "rewriteManifestName os args en = (r, ch) \<Longrightarrow> known (map bail_manifest_tag ch)"
  using manifest_tags [of os args en r ch] full_known
  by (auto simp: list_all_iff bail_manifest_tag_def)

lemma scrub_bail_known: "scrubPlexFlagsOnBail cx args = (r, ch) \<Longrightarrow> known ch"
proof -
  assume *: "scrubPlexFlagsOnBail cx args = (r, ch)"
  obtain a1 c1 a2 c2 a3 c3 where st: "drop_progressurls args = (a1, c1)" "bail_segment_list cx a1 = (a2, c2)"
    "rewriteManifestName (cx_os cx) a2 (cx_env cx) = (a3, c3)" by (meson surj_pair)
  have "known c1" using drop_progressurls_known [of args] st by simp
  moreover have "known c2" using st(2) full_known
    by (auto simp: bail_segment_list_def Let_def list_all_iff split: if_splits prod.splits)
  moreover have "known (map bail_manifest_tag c3)" by (rule bail_manifest_known [OF st(3)])
  ultimately show ?thesis using * st by (auto simp: scrubPlexFlagsOnBail_def)
qed

lemma drop_hints_known: "known (snd (drop_hints args))"
proof (induction args rule: drop_hints.induct)
  case (1 args)
  show ?case
  proof (cases "index_of_arg args ''-i'' 0")
    case None
    then show ?thesis by (subst drop_hints.simps) simp
  next
    case (Some k)
    then show ?thesis using "1.IH" [OF Some]
      by (subst drop_hints.simps)
        (auto simp: tags_known simp del: append_Cons split: option.splits prod.splits)
  qed
qed

lemma drop_orphans_known: "known (snd (drop_orphans args))"
proof (induction args rule: drop_orphans.induct)
  case (1 args)
  then show ?case
    by (subst drop_orphans.simps) (auto simp: tags_known split: option.splits prod.splits)
qed

lemma bail_hints_known: "bail_hints reason args = (r, ch) \<Longrightarrow> known ch"
  using drop_hints_known [of args] drop_orphans_known [of "fst (drop_hints args)"]
  by (auto simp: bail_hints_def dropInputAudioDecoderHints_def split: if_splits prod.splits)

lemma bail_hints_silent: "bail_hints reason x = (y, []) \<Longrightarrow> y = x"
  using inputhints.untouched by (auto simp: bail_hints_def split: if_splits)

lemma audio_known: "known (map (audio_tag s) ps)"
  by (simp add: audio_tag_def list_all_iff tags_known del: append_Cons)

lemma drop_known: "known (map (\<lambda>d. ''drop:'' @ d) ds)" "known (map (\<lambda>d. ''drop:'' @ d @ s) ds)"
  by (simp_all add: list_all_iff tags_known del: append_Cons)

section \<open>The contract of a phase\<close>

definition good_bail :: "rwctx \<Rightarrow> RewriteResult \<Rightarrow> bool" where
  "good_bail cx r \<longleftrightarrow> known (Changes r) \<and> rr_Env r = cx_env cx
     \<and> (\<not> Applied r \<longrightarrow> rr_Args r = cx_input cx \<and> \<not> cx_scrubbed cx)"

definition rw_inv :: "rwctx \<Rightarrow> ('a \<Rightarrow> bool) \<Rightarrow> 'a rw \<Rightarrow> bool" where
  "rw_inv cx P m \<longleftrightarrow> (case m of RwPanic \<Rightarrow> True | RwBail r \<Rightarrow> good_bail cx r | RwGo x \<Rightarrow> P x)"

lemma rw_inv_simps [simp]:
  "rw_inv cx P RwPanic" "rw_inv cx P (RwBail r) \<longleftrightarrow> good_bail cx r" "rw_inv cx P (RwGo x) \<longleftrightarrow> P x"
  by (simp_all add: rw_inv_def)

lemma rw_inv_bind:
  "rw_inv cx P m \<Longrightarrow> (\<And>x. P x \<Longrightarrow> rw_inv cx Q (f x)) \<Longrightarrow> rw_inv cx Q (rw_bind m f)"
  by (cases m) simp_all

lemma rw_inv_of: "(\<And>x. m = Some x \<Longrightarrow> P x) \<Longrightarrow> rw_inv cx P (rw_of m)"
  by (cases m) (simp_all add: rw_of_def)

lemma rw_inv_mono: "rw_inv cx P m \<Longrightarrow> (\<And>x. P x \<Longrightarrow> Q x) \<Longrightarrow> rw_inv cx Q m"
  by (cases m) simp_all

lemma rw_inv_bail:
  assumes "known ch"
  shows "rw_inv cx P (bail cx ch reason)"
proof -
  obtain a1 scrub a2 hints a3 swapped where st: "scrubPlexFlagsOnBail cx (cx_input cx) = (a1, scrub)"
    "bail_hints reason a1 = (a2, hints)" "swapEAEAudioDecoders a2 = (a3, swapped)" by (meson surj_pair)
  show ?thesis
  proof (cases "dropEAEPrefixFlags a3")
    case None
    with st show ?thesis by (simp add: bail_def)
  next
    case (Some p)
    obtain a4 eae where eae: "dropEAEPrefixFlags a3 = Some (a4, eae)" using Some by (cases p) auto
    obtain a5 fd where fd: "dropFramedropBSF a4 = (a5, fd)" by fastforce
    have "scrub = [] \<Longrightarrow> hints = [] \<Longrightarrow> swapped = [] \<Longrightarrow> eae = [] \<Longrightarrow> fd = [] \<Longrightarrow> a5 = cx_input cx"
      using st eae fd bail_scrub.untouched bail_hints_silent eae.untouched eae_prefix_silent framedrop.untouched
      by metis
    then show ?thesis
      using assms scrub_bail_known [OF st(1)] bail_hints_known [OF st(2)]
      by (auto simp: bail_def st eae fd good_bail_def audio_known drop_known tags_known simp del: append_Cons)
  qed
qed

section \<open>The phases keep it\<close>

text \<open>The state in the middle: the tags so far are known.\<close>

abbreviation known_pair :: "argv \<times> changes \<Rightarrow> bool" where
  "known_pair p \<equiv> known (snd p)"

lemma sw_decoder_known: "known (snd (sw_decoder args))"
  by (simp add: sw_decoder_def tags_known del: append_Cons split: option.split)

lemma sw_graph_known: "known (snd (sw_graph args))"
  by (simp add: sw_graph_def Let_def tags_known del: append_Cons split: option.split prod.split)

lemma sw_encoder_known: "known (snd (sw_encoder args))"
  by (simp add: sw_encoder_def tags_known del: append_Cons split: option.split)

lemma software_known: "known (snd (reshapeToSoftware args))"
proof -
  obtain a1 s where 1: "strip_hw args = (a1, s)" by fastforce
  obtain a2 c2 where 2: "sw_decoder a1 = (a2, c2)" by fastforce
  obtain a3 c3 where 3: "sw_graph a2 = (a3, c3)" by fastforce
  obtain a4 c4 where 4: "sw_encoder a3 = (a4, c4)" by fastforce
  have "known c2" "known c3" "known c4"
    using sw_decoder_known [of a1] sw_graph_known [of a2] sw_encoder_known [of a3] 2 3 4 by simp_all
  then show ?thesis
    by (simp add: reshapeToSoftware_def Let_def 1 2 3 4 tags_known del: append_Cons)
qed

lemma foreign_known: "known (snd (reshapeForeignHWArgv os d tm args))"
  by (simp add: reshapeForeignHWArgv_def Let_def tags_known del: append_Cons)

abbreviation known_st :: "rwst \<Rightarrow> bool" where
  "known_st st \<equiv> known (st_ch st)"

lemma known_append: "known (xs @ ys) \<longleftrightarrow> known xs \<and> known ys"
  by (rule list_all_append)

lemma rw_inv_if: "(b \<Longrightarrow> rw_inv cx P m) \<Longrightarrow> (\<not> b \<Longrightarrow> rw_inv cx P n) \<Longrightarrow> rw_inv cx P (if b then m else n)"
  by simp

lemma rw_gate_inv: "known ch \<Longrightarrow> rw_inv cx (\<lambda>(a, c, h). known c) (rw_gate cx args ch)"
proof -
  assume ch: "known ch"
  define gated ch1 p where "gated \<longleftrightarrow> envBool (cx_os cx) ''SCALEPLEX_FORCE_HW'' \<and> detectSourceBackend args = srcSW"
    and "ch1 = (if gated \<longrightarrow> cx_allowed cx then ch else ch @ [''pass-gate:denied-honor-sw''])"
    and "p = (if backendName (cx_dialect cx) = ''sw'' then reshapeToSoftware args
               else if gated \<longrightarrow> cx_allowed cx then reshapeForeignHWArgv (cx_os cx) (cx_dialect cx) (cx_tm cx) args
               else (args, []))"
  have "known ch1" using ch by (simp add: ch1_def tags_known del: append_Cons)
  moreover have "known (snd p)" by (simp add: p_def software_known foreign_known)
  ultimately have k: "known (ch1 @ snd p)" by simp
  obtain a2 ch2 where p: "p = (a2, ch2)" by fastforce
  show ?thesis
    unfolding rw_gate_def Let_def gated_def [symmetric] ch1_def [symmetric] p_def [symmetric] p
    using k ch by (auto intro!: rw_inv_bail simp: p)
qed

lemma decoder_swap_inv:
  "known ch \<Longrightarrow> rw_inv cx (\<lambda>(a, c, h). known c) (decoder_swap cx args ch dec hSW)"
  unfolding decoder_swap_def Let_def
  by (intro rw_inv_if) (auto intro!: rw_inv_bail simp: tags_known simp del: append_Cons split: option.split)

lemma rw_decoder_inv: "known ch \<Longrightarrow> rw_inv cx known_st (rw_decoder cx args ch ok)"
proof -
  assume ch: "known ch"
  define d forceHW where "d = cx_dialect cx"
    and "forceHW \<longleftrightarrow> envBool (cx_os cx) ''SCALEPLEX_FORCE_HW'' \<and> ok \<and> backendName d \<noteq> ''sw''"
  define ch1 where "ch1 = (if forceHW \<and> is_sw_encoder d args
    then ch @ [if streamSpecIndex args ''-hwaccel'' 0 0 = None then ''force-hw:would-honor-sw''
               else ''force-hw:would-honor-hwdec-swenc''] else ch)"
  have k: "known ch1" using ch by (simp add: ch1_def tags_known del: append_Cons)
  show ?thesis
    unfolding rw_decoder_def Let_def d_def [symmetric] forceHW_def [symmetric] ch1_def [symmetric]
    by (cases "streamSpecIndex args ''-codec'' 0 0")
      (auto intro!: rw_inv_bail ch rw_inv_bind [OF decoder_swap_inv [OF k]]
        rw_inv_bind [where P = "\<lambda>_. True"] rw_inv_of simp del: append_Cons)
qed

lemma hdr_probe_known: "known (snd (hdr_probe cx args))"
  by (simp add: hdr_probe_def tags_known del: append_Cons split: option.split prod.split)

lemma inject_device_inv: "known_pair st \<Longrightarrow> rw_inv cx known_pair (inject_device d st)"
  by (cases st) (simp add: inject_device_def tags_known del: append_Cons split: option.split)

lemma strip_driver_known: "known_pair st \<Longrightarrow> known_pair (strip_driver_param d st)"
  by (cases st) (simp add: strip_driver_param_def tags_known del: append_Cons split: option.split)

lemma replace_device_known: "known_pair st \<Longrightarrow> known_pair (replace_foreign_device d st)"
  by (cases st) (simp add: replace_foreign_device_def tags_known del: append_Cons split: option.split)

lemma rw_device_inv: "known_st st \<Longrightarrow> rw_inv cx known_st (rw_device cx st)"
proof -
  assume st: "known_st st"
  have 1: "rw_inv cx known_pair (if honorSW st then RwGo (st_args st, st_ch st)
     else inject_device (cx_dialect cx) (strip_driver_param (cx_dialect cx)
       (replace_foreign_device (cx_dialect cx) (st_args st, st_ch st))))"
    using st by (auto intro!: inject_device_inv strip_driver_known replace_device_known)
  show ?thesis
    unfolding rw_device_def Let_def
  proof (rule rw_inv_bind [OF 1])
    fix p :: "argv \<times> changes"
    assume "known_pair p"
    then show "rw_inv cx known_st (case p of (args, ch) \<Rightarrow> (case enc_index args of
       None \<Rightarrow> bail cx ch ''no-encoder''
     | Some e \<Rightarrow> (case hdr_probe cx args of (hdr, ch1) \<Rightarrow>
         RwGo (st\<lparr>st_args := args, st_ch := ch @ ch1, st_enc := Some e, sourceIsHDR := hdr\<rparr>))))"
      using hdr_probe_known [of cx "fst p"]
      by (cases p) (auto intro!: rw_inv_bail split: option.split prod.split)
  qed
qed

text \<open>The syntax-directed rules: a branch, a bind whose value does not matter, and a call that may panic.\<close>

lemma rw_inv_option [rw_rules]:
  "(m = None \<Longrightarrow> rw_inv cx P a) \<Longrightarrow> (\<And>x. m = Some x \<Longrightarrow> rw_inv cx P (f x))
    \<Longrightarrow> rw_inv cx P (case m of None \<Rightarrow> a | Some x \<Rightarrow> f x)"
  by (cases m) simp_all

lemma rw_inv_prod [rw_rules]:
  "(\<And>x y. p = (x, y) \<Longrightarrow> rw_inv cx P (f x y)) \<Longrightarrow> rw_inv cx P (case p of (x, y) \<Rightarrow> f x y)"
  by (cases p) simp

lemma rw_inv_let [rw_rules]: "(\<And>y. y = x \<Longrightarrow> rw_inv cx P (f y)) \<Longrightarrow> rw_inv cx P (let y = x in f y)"
  by simp

lemma rw_inv_go: "P x \<Longrightarrow> rw_inv cx P (RwGo x)" and rw_inv_panic: "rw_inv cx P RwPanic"
  by simp_all

lemma rw_inv_any [rw_rules]: "rw_inv cx (\<lambda>_. True) (rw_of m)"
  by (simp add: rw_inv_of)

lemma rw_inv_skip: "rw_inv cx (\<lambda>_. True) m \<Longrightarrow> (\<And>x. rw_inv cx Q (f x)) \<Longrightarrow> rw_inv cx Q (rw_bind m f)"
  by (rule rw_inv_bind)

lemmas [rw_rules] = rw_inv_if rw_inv_bail rw_inv_skip rw_inv_go rw_inv_panic

lemma swap_encoder_inv: "known_st st \<Longrightarrow> rw_inv cx known_st (swap_encoder cx st)"
  by (auto intro!: rw_inv_bail simp: swap_encoder_def Let_def tags_known simp del: append_Cons split: option.split)

lemma bitmap_tag_known: "known (bitmap_tag s)"
  by (simp add: bitmap_tag_def tags_known del: append_Cons split: option.split)

lemma bind_bitmap_known: "bind_bitmap md s args = (r, ch) \<Longrightarrow> known ch"
  by (auto simp: bind_bitmap_def tags_known simp del: append_Cons split: option.splits if_splits)

lemma rw_reshape_sw_inv: "known_st st \<Longrightarrow> rw_inv cx known_st (rw_reshape_sw cx st)"
  unfolding rw_reshape_sw_def
  by (intro rw_rules swap_encoder_inv)
    (simp_all add: tags_known bitmap_tag_known bind_bitmap_known del: append_Cons)

lemma hw_text_burn_inv: "known_st st \<Longrightarrow> rw_inv cx known_st (hw_text_burn cx ss st)"
  unfolding hw_text_burn_def
  by (intro rw_rules) (simp_all add: tags_known del: append_Cons)

lemma hw_bitmap_burn_inv: "known_st st \<Longrightarrow> rw_inv cx known_st (hw_bitmap_burn cx st)"
  unfolding hw_bitmap_burn_def
  by (intro rw_rules) (simp_all add: tags_known del: append_Cons)

lemma rw_passthrough_inv: "known_st st \<Longrightarrow> rw_inv cx known_st (rw_passthrough cx st)"
  unfolding rw_passthrough_def
  by (intro rw_inv_let rw_inv_option rw_inv_panic rw_inv_if rw_inv_bail rw_inv_skip [OF rw_inv_any]
      rw_inv_bind [OF _ hw_bitmap_burn_inv] rw_inv_go)
    (simp_all add: tags_known hw_text_burn_inv del: append_Cons)

lemma rw_video_inv: "known_st st \<Longrightarrow> rw_inv cx known_st (rw_video cx st)"
  unfolding rw_video_def
  by (intro rw_inv_if rw_inv_go rw_reshape_sw_inv rw_passthrough_inv)
    (simp_all add: honor_sw_def tags_known del: append_Cons)

lemma resident_known: "resident_graph g = (g', ch) \<Longrightarrow> known ch"
  by (auto simp: resident_graph_def Let_def tags_known split: if_splits)

lemma inject_opencl_known: "inject_opencl args = (a, ch) \<Longrightarrow> known ch"
  by (auto simp: inject_opencl_def tags_known split: if_splits option.splits)

lemma force_format_known: "force_output_format args = Some (a, ch) \<Longrightarrow> known ch"
  by (auto simp: force_output_format_def tags_known split: if_splits option.splits)

lemma gpu_resident_known: "gpuResidentOpenCLTonemap d args = Some (a, ch) \<Longrightarrow> known ch"
  by (auto simp: gpuResidentOpenCLTonemap_def resident_known inject_opencl_known force_format_known
      split: if_splits option.splits prod.splits)

lemma main10_known: "known ch \<Longrightarrow> known (snd (ensureHEVCMain10 args ch))"
  by (simp add: ensureHEVCMain10_def Let_def tags_known del: append_Cons split: option.split)

lemma inject_sei_known: "known (snd (inject_sei st args))"
  by (simp add: inject_sei_def tags_known del: append_Cons split: option.split)

lemma rw_fixups_inv: "known_st st \<Longrightarrow> rw_inv cx known_st (rw_fixups cx st)"
  unfolding rw_fixups_def
proof (rule rw_inv_bind [where P = "\<lambda>(a, ch). known ch"])
  show "rw_inv cx (\<lambda>(a, ch). known ch) (rw_of (gpuResidentOpenCLTonemap (cx_dialect cx) (st_args st)))"
    by (rule rw_inv_of) (auto dest: gpu_resident_known)
qed (simp add: Let_def case_prod_unfold main10_known inject_sei_known)

lemma rw_transcode_inv: "known ch \<Longrightarrow> rw_inv cx known_pair (rw_transcode cx args ch)"
  unfolding rw_transcode_def
  by (rule rw_inv_bind [OF rw_gate_inv], assumption, clarify,
      intro rw_inv_bind [OF rw_decoder_inv] rw_inv_bind [OF rw_device_inv] rw_inv_bind [OF rw_video_inv]
        rw_inv_bind [OF rw_fixups_inv] rw_inv_go) simp_all

section \<open>The tail and the whole\<close>

lemma audio_pass_known: "known ch \<Longrightarrow> audio_pass (args, ch) = Some (a, ch') \<Longrightarrow> known ch'"
  by (auto simp: audio_pass_def audio_known drop_known simp del: append_Cons split: option.splits prod.splits)

lemma skip_tag_known: "known (skip_tag args)"
  by (simp add: skip_tag_def tags_known del: append_Cons split: option.split)

lemma seek_tag_known: "known (seek_tag args)"
  by (simp add: seek_tag_def tags_known del: append_Cons)

lemma list_pass_known: "known ch \<Longrightarrow> list_pass cx b (args, ch) = (a, ch') \<Longrightarrow> known ch'"
  using rewriteSegmentList_known
  by (fastforce simp: list_pass_def split: prod.splits if_splits dest: arg_cong [of _ _ snd])

lemma progress_known: "capturePMSProgressURL os args en = (a, u, ch) \<Longrightarrow> known ch"
  by (auto simp: capturePMSProgressURL_def Let_def tags_known split: option.splits if_splits)

lemma log_pass_known: "known ch \<Longrightarrow> log_pass os (args, ch) = (a, ch') \<Longrightarrow> known ch'"
  by (auto simp: log_pass_def tags_known split: prod.splits)

lemma env_known: "stripEAEEnvVars en = (e, ch) \<Longrightarrow> known ch"
  by (auto simp: stripEAEEnvVars_def strip_env_def tags_known simp del: append_Cons split: prod.splits if_splits)

lemma child_env_known: "child_env cx b = (e, ch) \<Longrightarrow> known ch"
  using env_known by (fastforce simp: child_env_def Let_def tags_known split: prod.splits)

lemma sink_pass_known: "known ch \<Longrightarrow> sink_pass b (args, ch) = (a, ch') \<Longrightarrow> known ch'"
  by (auto simp: sink_pass_def tags_known split: prod.splits if_splits)

lemma audio_pass_inv: "known_pair st \<Longrightarrow> rw_inv cx known_pair (rw_of (audio_pass st))"
proof (rule rw_inv_of)
  fix x
  assume "known_pair st" "audio_pass st = Some x"
  then show "known_pair x" by (cases st; cases x) (simp add: audio_pass_known)
qed

lemma rw_tail_inv:
  "known_pair st \<Longrightarrow> rw_inv cx (\<lambda>r. known (Changes r) \<and> Applied r) (rw_tail cx isRemux fmt st)"
  unfolding rw_tail_def
proof (intro rw_inv_bind [OF audio_pass_inv] rw_inv_prod rw_inv_go, assumption)
  fix x a1 ch1 a2 ch2 a3 ch3 a4 p url ch4 a5 ch5 e ch6 a6 ch7
  assume st: "known_pair x" "x = (a1, ch1)" "list_pass cx (fmt = ''ssegment'' \<or> fmt = ''segment'') (a1, ch1 @ skip_tag a1) = (a2, ch2)"
    "rewriteManifestName (cx_os cx) a2 (cx_env cx) = (a3, ch3)"
    "capturePMSProgressURL (cx_os cx) a3 (cx_env cx) = (a4, p)" "p = (url, ch4)"
    "log_pass (cx_os cx) (a4, ch2 @ seek_tag a2 @ ch3 @ ch4) = (a5, ch5)" "child_env cx isRemux = (e, ch6)"
    "sink_pass isRemux (a5, ch5 @ ch6) = (a6, ch7)"
  have "known (ch1 @ skip_tag a1)" using st by (simp add: skip_tag_known)
  then have "known ch2" by (rule list_pass_known [OF _ st(3)])
  moreover have "known ch3" using rewriteManifestName_known [of "cx_os cx" a2 "cx_env cx"] st by simp
  moreover have "known ch4" using progress_known st by blast
  ultimately have "known (ch2 @ seek_tag a2 @ ch3 @ ch4)" by (simp add: seek_tag_known)
  then have "known ch5" by (rule log_pass_known [OF _ st(7)])
  then have "known (ch5 @ ch6)" using child_env_known [OF st(8)] by simp
  then have "known ch7" by (rule sink_pass_known [OF _ st(9)])
  then show "known (Changes \<lparr>rr_Args = a6, rr_Env = e, Applied = True, Changes = ch7, ProgressURL = url,
           SeekOffsetSeconds = seek_offset a2, IsMatroskaSegment = matroska_segment fmt a6\<rparr>)
    \<and> Applied \<lparr>rr_Args = a6, rr_Env = e, Applied = True, Changes = ch7, ProgressURL = url,
           SeekOffsetSeconds = seek_offset a2, IsMatroskaSegment = matroska_segment fmt a6\<rparr>"
    by simp
qed

lemma rw_start_known: "rw_start cx = (args, ch) \<Longrightarrow> known ch"
  by (auto simp: rw_start_def tags_known split: prod.splits if_splits)

lemma Rewrite_in_inv: "rw_inv cx (\<lambda>r. known (Changes r) \<and> Applied r) (Rewrite_in cx)"
  unfolding Rewrite_in_def
  by (intro rw_inv_prod rw_inv_let rw_inv_bind [where P = known_pair] rw_tail_inv rw_inv_if rw_transcode_inv)
    (simp_all add: rw_start_known)

section \<open>The scrub of the font paths\<close>

lemma scrub_arg_silent: "scrub_arg i (x, c) = (y, False) \<Longrightarrow> \<not> c \<and> y = x"
  by (auto simp: scrub_arg_def split: if_splits prod.splits)

lemma scrub_fold_silent: "fold scrub_arg js (x, c) = (y, False) \<Longrightarrow> \<not> c \<and> y = x"
proof (induction js arbitrary: x c)
  case (Cons i js)
  obtain x1 c1 where st: "scrub_arg i (x, c) = (x1, c1)" by fastforce
  with Cons.prems have "fold scrub_arg js (x1, c1) = (y, False)" by simp
  from Cons.IH [OF this] st scrub_arg_silent [of i x c x1] show ?case by simp
qed simp

lemma context_unscrubbed: "\<not> cx_scrubbed (rw_context w args en) \<Longrightarrow> cx_input (rw_context w args en) = args"
  using scrub_fold_silent [of "[0..<length args - 1]" args False]
  by (auto simp: rw_context_def scrubPlexInlineassFilesystemPathsInArgs_def split: prod.splits)

lemma context_env: "cx_env (rw_context w args en) = en"
  by (simp add: rw_context_def split: prod.split)

end
