(* ===== verification/RewriteSoftware.thy ===== *)
theory RewriteSoftware
  imports RewriteMain
begin

text \<open>
  The path of a session that the media server made for software, through all phases of \<open>Rewrite\<close>.
\<close>

section \<open>Software sessions\<close>

text \<open>A vector that the media server made for software: the decoder slot before the input, a software
  encoder behind it, no hardware decoding, and no graph with a \<open>subtitles\<close> filter. The encoder is found
  behind the input also without the pairs of the device.\<close>

definition software_session :: "dialect \<Rightarrow> argv \<Rightarrow> bool" where
  "software_session d args \<longleftrightarrow>
     detectSourceBackend args = srcSW
     \<and> find_pair (\<lambda>a b. a = ''-filter_complex'' \<and> str_contains b ''subtitles='') args = None
     \<and> (case streamSpecIndex args ''-codec'' 0 0 of Some dec \<Rightarrow> dec + 1 < after_input args | None \<Rightarrow> False)
     \<and> list_all (\<lambda>a. \<not> has_prefix a ''-hwaccel:'') args
     \<and> is_sw_encoder d args \<and> is_sw_encoder d (drop_device args)"

text \<open>Whether the worker may force hardware on it.\<close>

definition forced :: "rwctx \<Rightarrow> bool" where
  "forced cx \<longleftrightarrow> envBool (cx_os cx) ''SCALEPLEX_FORCE_HW'' \<and> cx_allowed cx"

definition denied_tag :: "rwctx \<Rightarrow> changes" where
  "denied_tag cx = (if envBool (cx_os cx) ''SCALEPLEX_FORCE_HW'' then [''pass-gate:denied-honor-sw''] else [])"

lemma no_hwaccel: "list_all (\<lambda>a. \<not> has_prefix a ''-hwaccel:'') args \<Longrightarrow> streamSpecIndex args ''-hwaccel'' 0 0 = None"
  by (simp add: streamSpecIndex_def Let_def list_all_iff)

lemma drop_pair_subset: "set (drop_pair f args) \<subseteq> set args"
  by (auto simp: drop_pair_def removeArgs_def split: option.split dest: in_set_takeD in_set_dropD)

lemma drop_device_subset: "set (drop_device args) \<subseteq> set args"
  unfolding drop_device_def using drop_pair_subset by blast

lemma gate_software:
  assumes "software_session (cx_dialect cx) args" "\<not> forced cx" "backendName (cx_dialect cx) \<noteq> ''sw''"
  shows "\<exists>ok. rw_gate cx args ch = RwGo (args, ch @ denied_tag cx, ok)
     \<and> \<not> (envBool (cx_os cx) ''SCALEPLEX_FORCE_HW'' \<and> ok)"
proof -
  obtain dec where "streamSpecIndex args ''-codec'' 0 0 = Some dec" "dec + 1 < after_input args"
    using assms(1) by (auto simp: software_session_def split: option.splits)
  then have "index_of_arg args ''-i'' 0 \<noteq> None" by (auto simp: after_input_def split: option.splits)
  moreover have "reshapeForeignHWArgv os d tm args = (args, [])" for os d tm
    using assms(1) by (simp add: software_session_def reshapeForeignHWArgv_def)
  ultimately show ?thesis
    using assms by (auto simp: rw_gate_def software_session_def forced_def denied_tag_def Let_def)
qed

lemma decoder_software:
  assumes "software_session (cx_dialect cx) args" "\<not> (envBool (cx_os cx) ''SCALEPLEX_FORCE_HW'' \<and> ok)"
  shows "\<exists>sw. rw_decoder cx args ch ok = RwGo \<lparr>st_args = args, st_ch = ch, swDecoder = sw, honorSW = True,
     honorHybrid = False, isHWDecode = False, hybridForceHW = False, earlySubSrc = None, st_enc = None,
     sourceIsHDR = False\<rparr>"
proof -
  obtain dec where dec: "streamSpecIndex args ''-codec'' 0 0 = Some dec" "dec + 1 < after_input args"
    using assms(1) by (auto simp: software_session_def split: option.splits)
  have "streamSpecIndex args ''-hwaccel'' 0 0 = None" "is_sw_encoder (cx_dialect cx) args"
    using assms(1) no_hwaccel by (simp_all add: software_session_def)
  then show ?thesis
    using dec assms(2) by (auto simp: rw_decoder_def decoder_swap_def Let_def)
qed

lemma device_software:
  assumes "is_sw_encoder d args" "honorSW st" "st_args st = args"
  shows "\<exists>e. rw_device cx st = RwGo (st\<lparr>st_ch := st_ch st @ snd (hdr_probe cx args), st_enc := Some e,
     sourceIsHDR := fst (hdr_probe cx args)\<rparr>)"
  using assms by (auto simp: rw_device_def Let_def is_sw_encoder_def case_prod_unfold split: option.splits)

lemma sw_not_hw_encoder: "map_of (encoderMap d) c \<noteq> None \<Longrightarrow> map_of hwEncoderCodec c = None"
  by (cases d) (auto simp: encoderMap_def vaapiEncoderMap_def nvencEncoderMap_def swEncoderMap_def hwEncoderCodec_def
      split: if_splits)

lemma main10_software: "is_sw_encoder d args \<Longrightarrow> ensureHEVCMain10 args ch = (args, ch)"
  using sw_not_hw_encoder
  by (fastforce simp: ensureHEVCMain10_def is_sw_encoder_def enc_index_def encoder_slot_def after_input_def
      split: option.splits if_splits)

lemma fixups_software:
  assumes "is_sw_encoder d (st_args st)" "list_all (\<lambda>a. \<not> has_prefix a ''-hwaccel:'') (st_args st)" "honorSW st"
  shows "\<exists>st'. rw_fixups cx st = RwGo st' \<and> st_args st' = st_args st \<and> st_ch st' = st_ch st"
  using assms main10_software [OF assms(1)]
  by (simp add: rw_fixups_def gpuResidentOpenCLTonemap_def no_hwaccel rw_of_def inject_sei_def Let_def)

lemma transcode_software:
  assumes "software_session (cx_dialect cx) args" "\<not> forced cx" "backendName (cx_dialect cx) \<noteq> ''sw''"
  shows "rw_transcode cx args ch = RwGo (drop_device args,
    ch @ denied_tag cx @ snd (hdr_probe cx args) @ [''honor:plex-sw''])"
proof -
  obtain ok where g: "rw_gate cx args ch = RwGo (args, ch @ denied_tag cx, ok)"
      "\<not> (envBool (cx_os cx) ''SCALEPLEX_FORCE_HW'' \<and> ok)"
    using gate_software [OF assms] by blast
  obtain sw where d: "rw_decoder cx args (ch @ denied_tag cx) ok = RwGo \<lparr>st_args = args, st_ch = ch @ denied_tag cx,
     swDecoder = sw, honorSW = True, honorHybrid = False, isHWDecode = False, hybridForceHW = False,
     earlySubSrc = None, st_enc = None, sourceIsHDR = False\<rparr>" (is "_ = RwGo ?st")
    using decoder_software [OF assms(1) g(2)] by blast
  obtain e where v: "rw_device cx ?st = RwGo (?st\<lparr>st_ch := st_ch ?st @ snd (hdr_probe cx args), st_enc := Some e,
     sourceIsHDR := fst (hdr_probe cx args)\<rparr>)" (is "_ = RwGo ?st2")
    using device_software [of "cx_dialect cx" args ?st cx] assms(1) by (auto simp: software_session_def)
  have "list_all (\<lambda>a. \<not> has_prefix a ''-hwaccel:'') (drop_device args)"
    using assms(1) drop_device_subset [of args] by (auto simp: software_session_def list_all_iff)
  then obtain st3 where f: "rw_fixups cx (honor_sw ?st2) = RwGo st3" "st_args st3 = st_args (honor_sw ?st2)"
      "st_ch st3 = st_ch (honor_sw ?st2)"
    using fixups_software [of "cx_dialect cx" "honor_sw ?st2" cx] assms(1)
    by (auto simp: software_session_def honor_sw_def)
  show ?thesis
    using f by (simp add: rw_transcode_def g(1) d v rw_video_def) (simp add: honor_sw_def)
qed

lemma software_not_remux:
  assumes "is_sw_encoder d args"
  shows "\<not> isOptimizeRemux d args"
proof -
  have "map_of (encoderMap d) ''copy'' = None"
    by (cases d) (simp_all add: encoderMap_def vaapiEncoderMap_def nvencEncoderMap_def swEncoderMap_def)
  then show ?thesis
    using assms by (auto simp: isOptimizeRemux_def is_sw_encoder_def enc_index_def after_input_def split: option.splits if_splits)
qed

end
