(* ===== verification/RewriteProps.thy ===== *)
theory RewriteProps
  imports RewriteContract RewriteSoftware
begin

text \<open>
  The properties of the rewriter, with their witnesses, and the lemmas that show where the code departs
  from its comments.
\<close>

section \<open>A concrete worker\<close>

definition demo_world :: "dialect \<Rightarrow> rwworld" where
  "demo_world d = \<lparr>w_os = [], w_dialect = d, w_detected = ''iHD'', w_readFile = (\<lambda>p. None), w_probeSub = None,
     w_probeColor = None, w_allowed = True\<rparr>"

abbreviation intel :: rwworld where
  "intel \<equiv> demo_world (VaapiDialect ''intel'')"

section \<open>Departures\<close>

text \<open>A node without arguments hides the node after it: its comma is part of the match. The graph is then
  recomposed without the hidden node.\<close>

lemma hidden_filter_node:
  "graphNodesModeled ''[0:0]hwupload,crop=10:10[0]'' \<and> \<not> graphNodesModeled ''[0:0]crop=10:10[0]''"
  by code_simp

text \<open>The two anchors do not partition the graphs: one with a stream-by-id label is accepted by the
  software path and is not a software graph for the cross-backend path.\<close>

lemma anchors_overlap:
  "graphLeadsWithVideoInput0 ''[0:#0x1]scale=w=4'' ''scale=w='' \<and> \<not> isSWFilterGraph ''[0:#0x1]scale=w=4''"
  by code_simp

text \<open>The cross-backend reshape replaces the decode flags in the ordinal form only: with a stream-by-id
  flag the vector asks for VAAPI decoding on an NVIDIA worker.\<close>

lemma hex_hwaccel_survives:
  "fst (reshapeForeignHWArgv [] NvencDialect (resolveTonemapConfig [] NvencDialect)
     [''-hwaccel:#0x1'', ''vaapi'', ''-i'', ''m'', ''-codec:#0x1'', ''h264_vaapi'']) =
     [''-hwaccel:#0x1'', ''vaapi'', ''-i'', ''m'', ''-codec:#0x1'', ''h264_nvenc'']"
  by code_simp

text \<open>The remux path asks the backend for its hardware codecs, and the software backend has none: a
  remux goes through on a GPU worker and bails on one without.\<close>

lemma remux_bails_on_software_worker:
  "(case Rewrite (demo_world SwDialect) [''-codec:0'', ''h264'', ''-i'', ''m'', ''-codec:0'', ''copy''] [] of
      Some r \<Rightarrow> Changes r = [''skip:unknown-decoder:h264''] | None \<Rightarrow> False)
   \<and> (case Rewrite intel [''-codec:0'', ''h264'', ''-i'', ''m'', ''-codec:0'', ''copy''] [] of
      Some r \<Rightarrow> Changes r = [''env:HOME''] | None \<Rightarrow> False)"
  by (rule conjI; code_simp)

text \<open>A flag of EAE at the very end of the vector crashes the handler.\<close>

lemma eae_prefix_at_end_panics: "Rewrite intel [''-i'', ''m'', ''-eae_prefix:1''] [] = None"
  by code_simp

text \<open>An EAE codec behind a stream-by-id flag is not replaced.\<close>

lemma hex_eae_survives:
  "swapEAEAudioDecoders [''-codec:#0x2'', ''eac3_eae''] = ([''-codec:#0x2'', ''eac3_eae''], [])"
  by code_simp

text \<open>After the insertion of the output format the graph is looked up as the first of the vector: an
  audio graph that stands before the video graph is overwritten.\<close>

lemma text_burn_overwrites_audio_graph:
  "(case Rewrite intel [''-codec:0'', ''h264'', ''-hwaccel:0'', ''vaapi'', ''-i'', ''m'', ''-map_inlineass'', ''0:3'',
        ''-filter_complex'', ''[0:1]aresample[9]'',
        ''-filter_complex'', ''[0:0]scale_vaapi=w=8:h=4[0];[0]inlineass=a=b[1]'', ''-map'', ''[1]'',
        ''-codec:0'', ''h264_vaapi''] [] of
      None \<Rightarrow> False
    | Some r \<Rightarrow> filter (\<lambda>a. has_prefix a ''[0'') (rr_Args r) =
        [''[0:0]scale_vaapi=w=8:h=4:format=nv12[0];[0]inlineass=a=b:render_height=1080[1]'',
         ''[0:0]scale_vaapi=w=8:h=4[0];[0]inlineass=a=b[1]''])"
  by code_simp

text \<open>The bitmap burn of a hardware session drops the seek gate of the graph.\<close>

lemma bitmap_burn_drops_select:
  "(case Rewrite intel [''-codec:0'', ''h264'', ''-hwaccel:0'', ''vaapi'', ''-i'', ''m'', ''-filter_complex'',
        ''[0:3]scale=8:4,hwupload[0];[0:0]hwupload[1];[1]scale_vaapi=w=8:h=4[2];[2][0]overlay_vaapi[3];[3]select=gt(t)[4]'',
        ''-map'', ''[4]'', ''-codec:0'', ''h264_vaapi''] [] of
      None \<Rightarrow> False
    | Some r \<Rightarrow> filter (\<lambda>a. has_prefix a ''[0'') (rr_Args r) =
        [''[0:0]scale_vaapi=w=8:h=4:format=nv12[0];[0]inlineass=render_height=1080[1]''])"
  by code_simp

text \<open>Three tags are not in the inventory.\<close>

lemma unlisted_tags:
  "\<not> tag_listed ''manifest_name:rewrite-to-relay'' \<and> \<not> tag_listed ''cross-backend:vaapi->nvenc''
   \<and> \<not> tag_listed ''seek-offset:captured=1.000s''"
  by code_simp

text \<open>Recomposing a graph that \<open>composeBurn\<close> has composed adds the height of the subtitles again.\<close>

lemma recompose_adds_height:
  "gf_subParams (extractGraphFacts ''[0:0]scale_cuda=w=8:h=4:format=nv12[0];[0]inlineass=a=b:render_height=1080[1]'' None)
     = ''a=b:render_height=1080''"
  by code_simp

section \<open>Properties\<close>

text \<open>C14. The Plex Pass gate lets a session through only for one of four reasons: the shim forwarded an
  active Pass with this very session; the worker is not connected to a media server; the server confirmed
  the Pass to this query; or an earlier query of any session got that confirmation under the same key
  (server and token) less than five minutes before. The cache starts empty, and the queries before are
  arbitrary: their environments, times and answers.\<close>

theorem pass_gate_confirmed:
  fixes os :: env and q :: pass_query
  defines "base \<equiv> envFrom os (pq_env q) ''SCALEPLEX_PMS_BASE_URL''"
    and "tok \<equiv> envFrom os (pq_env q) ''X_PLEX_TOKEN''"
  assumes "fst (hwAccelAllowed os (pq_env q) (pq_now q) (pq_later q) (pq_probe q) (fold (pass_ask os) qs []))"
  shows "env_get (pq_env q) ''SCALEPLEX_PASS_ACTIVE'' = ''1''
    \<or> env_get (pq_env q) ''SCALEPLEX_PASS_ACTIVE'' = []
      \<and> (base = [] \<or> tok = [] \<or> pq_probe q base tok = Some True
         \<or> (\<exists>t. answered qs (pass_key base tok) True t \<and> pq_now q - t < passCacheTTL))"
  using allowed_cases [OF assms(3)] pass_asks_ok [of qs os]
  by (auto simp: base_def tok_def cache_ok_def) (metis (full_types))

definition demo_query :: "bool option \<Rightarrow> int \<Rightarrow> pass_query" where
  "demo_query a t = \<lparr>pq_env = [(''SCALEPLEX_PMS_BASE_URL'', ''http://p''), (''X_PLEX_TOKEN'', ''t'')],
     pq_now = t, pq_later = t, pq_probe = (\<lambda>b k. a)\<rparr>"

theorem pass_gate_confirmed_witness:
  "\<exists>t. answered [demo_query (Some True) 0] (pass_key ''http://p'' ''t'') True t \<and> 5 - t < passCacheTTL"
proof -
  have *: "fst (hwAccelAllowed [] (pq_env (demo_query None 5)) (pq_now (demo_query None 5)) (pq_later (demo_query None 5))
     (pq_probe (demo_query None 5)) (fold (pass_ask []) [demo_query (Some True) 0] []))"
    by code_simp
  show ?thesis
    using pass_gate_confirmed [OF *]
    by (simp add: demo_query_def envFrom_def env_get_def)
qed

text \<open>C3. A result that is not marked as applied is the request: the agent spawns ffmpeg with the original
  vector when \<open>Applied\<close> is false, so a pass that changed something without marking it (the scrub of the
  font paths, the URLs, the EAE codecs, the dropped flags) would be lost. It holds for every vector,
  environment and worker, on every one of the bails.\<close>

theorem not_applied_is_untouched:
  assumes "Rewrite w args en = Some r" and "\<not> Applied r"
  shows "rr_Args r = args \<and> rr_Env r = en"
proof (cases "Rewrite_in (rw_context w args en)")
  case (RwBail r')
  then have "good_bail (rw_context w args en) r"
    using assms(1) Rewrite_in_inv [of "rw_context w args en"] by (simp add: Rewrite_def)
  with assms(2) show ?thesis
    by (simp add: good_bail_def context_env context_unscrubbed)
next
  case (RwGo r')
  with assms Rewrite_in_inv [of "rw_context w args en"] show ?thesis by (simp add: Rewrite_def)
qed (use assms in \<open>simp add: Rewrite_def\<close>)

theorem not_applied_is_untouched_witness:
  "(case Rewrite intel [''-f'', ''null''] [(''A'', ''b'')] of
      Some r \<Rightarrow> rr_Args r = [''-f'', ''null''] \<and> rr_Env r = [(''A'', ''b'')] | None \<Rightarrow> False)"
proof -
  have *: "(case Rewrite intel [''-f'', ''null''] [(''A'', ''b'')] of Some r \<Rightarrow> \<not> Applied r | None \<Rightarrow> False)"
    by code_simp
  then obtain r where r: "Rewrite intel [''-f'', ''null''] [(''A'', ''b'')] = Some r" "\<not> Applied r"
    by (auto split: option.splits)
  then show ?thesis using not_applied_is_untouched [OF r] by simp
qed



text \<open>C4. A session that the media server made for software reaches ffmpeg as it was made, on every worker
  with a GPU that does not force hardware, or that would force it but is denied by the Pass gate: decoder,
  graph and encoder are kept, only the pairs that open a device are taken out, and the tail every vector
  takes follows. The denial is reported.\<close>

theorem software_session_untouched:
  assumes "rw_start (rw_context w args en) = (a, ch)"
    and "software_session (w_dialect w) a"
    and "w_dialect w \<noteq> SwDialect"
    and "\<not> (envBool (w_os w) ''SCALEPLEX_FORCE_HW'' \<and> w_allowed w)"
  shows "Rewrite_in (rw_context w args en) = rw_tail (rw_context w args en) False (output_format a)
    (drop_device a, ch @ denied_tag (rw_context w args en) @ snd (hdr_probe (rw_context w args en) a)
      @ [''honor:plex-sw''])"
proof -
  have cx: "cx_dialect (rw_context w args en) = w_dialect w" "cx_os (rw_context w args en) = w_os w"
    "cx_allowed (rw_context w args en) = w_allowed w"
    by (simp_all add: rw_context_def split: prod.split)
  have "backendName (w_dialect w) \<noteq> ''sw''"
    using assms(3) by (cases "w_dialect w") (simp_all add: backendName_def)
  with assms cx have t: "rw_transcode (rw_context w args en) a ch = RwGo (drop_device a,
      ch @ denied_tag (rw_context w args en) @ snd (hdr_probe (rw_context w args en) a) @ [''honor:plex-sw''])"
    by (intro transcode_software) (simp_all add: forced_def)
  have "\<not> isOptimizeRemux (w_dialect w) a"
    using assms(2) by (intro software_not_remux) (simp add: software_session_def)
  then show ?thesis by (simp add: Rewrite_in_def assms(1) t cx)
qed

definition denied_world :: rwworld where
  "denied_world = (demo_world NvencDialect)\<lparr>w_os := [(''SCALEPLEX_FORCE_HW'', ''1'')], w_allowed := False\<rparr>"

definition software_vector :: argv where
  "software_vector = [''-codec:0'', ''hevc'', ''-init_hw_device'', ''vaapi=v:'', ''-i'', ''m'', ''-codec:0'', ''libx264'']"

theorem software_session_untouched_witness:
  "Rewrite_in (rw_context denied_world software_vector []) =
     rw_tail (rw_context denied_world software_vector []) False []
       ([''-codec:0'', ''hevc'', ''-i'', ''m'', ''-codec:0'', ''libx264''],
        [''pass-gate:denied-honor-sw'', ''honor:plex-sw''])"
proof -
  have s: "rw_start (rw_context denied_world software_vector []) = (software_vector, [])" by code_simp
  have "software_session (w_dialect denied_world) software_vector" by code_simp
  moreover have "w_dialect denied_world \<noteq> SwDialect" "\<not> w_allowed denied_world"
    by (simp_all add: denied_world_def demo_world_def)
  moreover have "drop_device software_vector = [''-codec:0'', ''hevc'', ''-i'', ''m'', ''-codec:0'', ''libx264'']"
    "output_format software_vector = []"
    "denied_tag (rw_context denied_world software_vector []) = [''pass-gate:denied-honor-sw'']"
    "snd (hdr_probe (rw_context denied_world software_vector []) software_vector) = []"
    by code_simp+
  ultimately show ?thesis using software_session_untouched [OF s] by simp
qed


text \<open>C20. The profile Main10 is pinned only on a hardware HEVC encoder that is fed ten bits: then the flag
  stands right behind the encoder with the stream of the encoder, the rest of the vector is kept, and the
  resulting vector still feeds ten bits, so the encoder accepts the profile. Otherwise vector and changes
  are the old ones.\<close>

theorem main10_means_ten_bits:
  assumes "ensureHEVCMain10 args ch = (r, ch')"
  shows "(r, ch') = (args, ch)
    \<or> (\<exists>e. encoder_slot args = Some e \<and> map_of hwEncoderCodec (args ! (e + 1)) = Some ''hevc''
        \<and> r = take (e + 2) args @ [''-profile'' @ trim_prefix (args ! e) ''-codec'', ''main10''] @ drop (e + 2) args
        \<and> tenBitOutput r \<and> ch' = ch @ [''encode:hevc:profile=main10''])"
proof (cases "r = args")
  case True
  with assms main10_kept [of args ch ch'] show ?thesis by simp
next
  case False
  then show ?thesis by (rule main10_pinned [OF assms]) blast
qed

theorem main10_means_ten_bits_witness:
  "tenBitOutput [''-i'', ''m'', ''-filter_complex'', ''format=p010'', ''-codec:0'', ''hevc_vaapi'', ''-profile:0'', ''main10'']"
proof -
  let ?a = "[''-i'', ''m'', ''-filter_complex'', ''format=p010'', ''-codec:0'', ''hevc_vaapi'']"
  have "ensureHEVCMain10 ?a [] = (?a @ [''-profile:0'', ''main10''], [''encode:hevc:profile=main10''])" by code_simp
  from main10_means_ten_bits [OF this] show ?thesis by auto
qed

text \<open>The scrub of the font paths is idempotent: a graph that it returned is not changed again, so the
  two places where a vector can pass it (the bail and the reshape) cannot disagree.\<close>

theorem font_scrub_idempotent:
  "scrubPlexInlineassFilesystemPaths (fst (scrubPlexInlineassFilesystemPaths g))
     = (fst (scrubPlexInlineassFilesystemPaths g), False)"
  by (rule scrub_idempotent)

text \<open>C31. The EAE pass replaces exactly the values that follow an audio codec flag and end in \<open>_eae\<close>: by
  their base codec before the first \<open>-i\<close>, and by \<open>eac3\<close>, \<open>ac3\<close> or the fallback \<open>eac3\<close> behind it; every other
  argument is kept. The loop updates the vector it reads, which does not matter when no value turns into
  a codec flag itself.\<close>

theorem eae_pass_pointwise:
  assumes "plain_values args"
  shows "fst (swapEAEAudioDecoders args) = map (eae_value args (index_of_arg args ''-i'' 0)) [0..<length args]"
  by (rule eae_pointwise [OF assms])

theorem eae_pass_pointwise_witness:
  "fst (swapEAEAudioDecoders [''-codec:1'', ''truehd_eae'', ''-i'', ''m'', ''-codec:1'', ''truehd_eae''])
     = [''-codec:1'', ''truehd'', ''-i'', ''m'', ''-codec:1'', ''eac3'']"
proof -
  let ?a = "[''-codec:1'', ''truehd_eae'', ''-i'', ''m'', ''-codec:1'', ''truehd_eae'']"
  have "list_all (\<lambda>a. \<not> audioCodecFlag (eaeBaseFor a eaeDecode) \<and> \<not> audioCodecFlag (eaeBaseFor a eaeEncode)) ?a"
    by code_simp
  then have "plain_values ?a" by (simp only: plain_values_list)
  moreover have "map (eae_value ?a (index_of_arg ?a ''-i'' 0)) [0..<length ?a]
     = [''-codec:1'', ''truehd'', ''-i'', ''m'', ''-codec:1'', ''eac3'']" by code_simp
  ultimately show ?thesis using eae_pass_pointwise [of ?a] by simp
qed

end
