(* ===== verification/ClientSni.thy ===== *)
theory ClientSni
  imports GoPrelude "HOL-Library.Monad_Syntax"
begin

text \<open>
  The TLS front of clientfix (\<open>src/clientfix/cmd/clientfix/sni.go\<close>): the parser of the server name in
  a ClientHello, the peeking reader, and the choice between the HTTP handler, our own TLS and the raw
  tunnel. An index or slice expression that would panic in Go is \<open>None\<close>, so the parser's bounds checks are
  part of what is proved; the empty string is the answer "no name".
\<close>

section \<open>Checked access\<close>

definition byte_at :: "byte list \<Rightarrow> nat \<Rightarrow> byte option" where
  "byte_at b i = (if i < length b then Some (b ! i) else None)"

definition slice :: "byte list \<Rightarrow> nat \<Rightarrow> nat \<Rightarrow> byte list option" where
  "slice b i j = (if i \<le> j \<and> j \<le> length b then Some (take (j - i) (drop i b)) else None)"

text \<open>\<open>int(b[i])<<8 | int(b[i+1])\<close>.\<close>

definition u16_at :: "byte list \<Rightarrow> nat \<Rightarrow> nat option" where
  "u16_at b i = do { hi \<leftarrow> byte_at b i; lo \<leftarrow> byte_at b (i + 1); Some (256 * unat hi + unat lo) }"

definition text_of :: "byte list \<Rightarrow> string" where
  "text_of b = map (\<lambda>x. char_of (unat x)) b"

section \<open>The parser\<close>

text \<open>The inner loop of \<open>parseSNI\<close> over the entries of a server name list.\<close>

function sni_entries :: "byte list \<Rightarrow> nat \<Rightarrow> string option" where
  "sni_entries ext j =
     (if j + 3 \<le> length ext then
        do {
          nt \<leftarrow> byte_at ext j;
          nl \<leftarrow> u16_at ext (j + 1);
          if length ext < j + 3 + nl then Some []
          else if nt = 0 then map_option text_of (slice ext (j + 3) (j + 3 + nl))
          else sni_entries ext (j + 3 + nl)
        }
      else Some [])"
  by pat_completeness auto
termination
  by (relation "measure (\<lambda>(ext, j). length ext - j)") auto

text \<open>The loop over the extensions, up to \<open>end\<close>.\<close>

function sni_extensions :: "byte list \<Rightarrow> nat \<Rightarrow> nat \<Rightarrow> string option" where
  "sni_extensions hs fin i =
     (if i + 4 \<le> fin then
        do {
          etype \<leftarrow> u16_at hs i;
          elen \<leftarrow> u16_at hs (i + 2);
          if fin < i + 4 + elen then Some []
          else if etype = 0 then do { ext \<leftarrow> slice hs (i + 4) (i + 4 + elen); sni_entries ext 2 }
          else sni_extensions hs fin (i + 4 + elen)
        }
      else Some [])"
  by pat_completeness auto
termination
  by (relation "measure (\<lambda>(hs, fin, i). fin - i)") auto

declare sni_entries.simps [simp del] sni_extensions.simps [simp del]

definition parseSNI :: "byte list \<Rightarrow> string option" where
  "parseSNI hs =
     (if length hs < 38 \<or> hs ! 0 \<noteq> 1 then Some []
      else if length hs \<le> 38 then Some []
      else do {
        sid \<leftarrow> byte_at hs 38;
        let i = 38 + 1 + unat sid;
        if length hs < i + 2 then Some []
        else do {
          suites \<leftarrow> u16_at hs i;
          let i = i + 2 + suites;
          if length hs < i + 1 then Some []
          else do {
            comp \<leftarrow> byte_at hs i;
            let i = i + 1 + unat comp;
            if length hs < i + 2 then Some []
            else do {
              exts \<leftarrow> u16_at hs i;
              sni_extensions hs (min (i + 2 + exts) (length hs)) (i + 2)
            }
          }
        }
      })"

section \<open>No access out of bounds\<close>

lemma byte_at_Some [simp]: "i < length b \<Longrightarrow> byte_at b i = Some (b ! i)"
  by (simp add: byte_at_def)

lemma u16_at_Some: "i + 2 \<le> length b \<Longrightarrow> u16_at b i = Some (256 * unat (b ! i) + unat (b ! (i + 1)))"
  by (simp add: u16_at_def)

lemma slice_Some: "i \<le> j \<Longrightarrow> j \<le> length b \<Longrightarrow> slice b i j = Some (take (j - i) (drop i b))"
  by (simp add: slice_def)

lemmas checked = u16_at_Some slice_Some Let_def

lemma sni_entries_total: "sni_entries ext j \<noteq> None"
proof (induction ext j rule: sni_entries.induct)
  case (1 ext j)
  then show ?case by (subst sni_entries.simps) (simp add: checked del: not_None_eq)
qed

lemma sni_extensions_total: "fin \<le> length hs \<Longrightarrow> sni_extensions hs fin i \<noteq> None"
proof (induction hs fin i rule: sni_extensions.induct)
  case (1 hs fin i)
  then show ?case by (subst sni_extensions.simps) (simp add: checked sni_entries_total del: not_None_eq)
qed

lemma parseSNI_total: "parseSNI hs \<noteq> None"
  by (simp add: parseSNI_def checked sni_extensions_total del: not_None_eq)

section \<open>What a client sends\<close>

text \<open>A ClientHello as RFC 8446 lays it out, with the bytes of the length, the version and the random in
  \<open>hd\<close>, and the server name extension with the name \<open>n\<close> as its first entry.\<close>

definition u16_bytes :: "nat \<Rightarrow> byte list" where
  "u16_bytes n = [of_nat (n div 256), of_nat (n mod 256)]"

definition ext_bytes :: "nat \<times> byte list \<Rightarrow> byte list" where
  "ext_bytes e = u16_bytes (fst e) @ u16_bytes (length (snd e)) @ snd e"

definition name_body :: "nat \<Rightarrow> byte list \<Rightarrow> byte list \<Rightarrow> byte list" where
  "name_body l n more = u16_bytes l @ 0 # u16_bytes (length n) @ n @ more"

abbreviation exts_bytes :: "(nat \<times> byte list) list \<Rightarrow> byte list" where
  "exts_bytes es \<equiv> concat (map ext_bytes es)"

definition hello :: "byte list \<Rightarrow> byte list \<Rightarrow> byte list \<Rightarrow> byte list \<Rightarrow> (nat \<times> byte list) list \<Rightarrow> byte list" where
  "hello fixed sid suites comps es =
     1 # fixed @ of_nat (length sid) # sid @ u16_bytes (length suites) @ suites
       @ of_nat (length comps) # comps @ u16_bytes (length (exts_bytes es)) @ exts_bytes es"

definition hello_ok :: "byte list \<Rightarrow> byte list \<Rightarrow> byte list \<Rightarrow> byte list \<Rightarrow> (nat \<times> byte list) list \<Rightarrow> bool" where
  "hello_ok fixed sid suites comps es \<longleftrightarrow>
     length fixed = 37 \<and> length sid < 256 \<and> length suites < 65536 \<and> length comps < 256
     \<and> length (exts_bytes es) < 65536 \<and> list_all (\<lambda>e. fst e < 65536) es"

text \<open>Access by the position at which a field begins.\<close>

lemma unat_of_nat_byte: "n < 256 \<Longrightarrow> unat (of_nat n :: byte) = n"
  by (simp add: unat_of_nat take_bit_eq_mod)

lemma u16_at_field: "i = length a \<Longrightarrow> n < 65536 \<Longrightarrow> u16_at (a @ u16_bytes n @ b) i = Some n"
  by (simp add: u16_at_def byte_at_def u16_bytes_def nth_append unat_of_nat_byte)

lemma slice_field: "i = length a \<Longrightarrow> j = length a + length x \<Longrightarrow> slice (a @ x @ b) i j = Some x"
  by (simp add: slice_def)

lemma byte_at_field: "i = length a \<Longrightarrow> byte_at (a @ x # b) i = Some x"
  by (simp add: byte_at_def)

lemma length_u16_bytes [simp]: "length (u16_bytes n) = 2"
  by (simp add: u16_bytes_def)

lemma length_ext_bytes [simp]: "length (ext_bytes e) = 4 + length (snd e)"
  by (simp add: ext_bytes_def)

lemma sni_entries_name:
  assumes "length n < 65536"
  shows "sni_entries (name_body l n more) 2 = Some (text_of n)"
proof -
  have b: "byte_at (name_body l n more) 2 = Some 0"
    unfolding name_body_def by (rule byte_at_field) simp
  have "name_body l n more = (u16_bytes l @ [0]) @ u16_bytes (length n) @ n @ more"
    by (simp add: name_body_def)
  then have u: "u16_at (name_body l n more) (2 + 1) = Some (length n)"
    using assms by (simp only:) (rule u16_at_field; simp)
  have "name_body l n more = (u16_bytes l @ [0] @ u16_bytes (length n)) @ n @ more"
    by (simp add: name_body_def)
  then have s: "slice (name_body l n more) (2 + 3) (2 + 3 + length n) = Some n"
    by (simp only:) (rule slice_field; simp)
  have "length (name_body l n more) = 5 + length n + length more" by (simp add: name_body_def)
  with b u s show ?thesis by (subst sni_entries.simps) simp
qed

lemma ext_step:
  assumes "fst e < 65536" "length (snd e) < 65536" "length a + 4 + length (snd e) \<le> fin"
  shows "sni_extensions (a @ ext_bytes e @ b) fin (length a) =
    (if fst e = 0 then sni_entries (snd e) 2
     else sni_extensions (a @ ext_bytes e @ b) fin (length a + 4 + length (snd e)))"
proof -
  let ?h = "a @ ext_bytes e @ b"
  have t: "u16_at ?h (length a) = Some (fst e)"
    unfolding ext_bytes_def append_assoc by (rule u16_at_field [OF refl assms(1)])
  have "?h = (a @ u16_bytes (fst e)) @ u16_bytes (length (snd e)) @ snd e @ b"
    by (simp add: ext_bytes_def)
  then have l: "u16_at ?h (length a + 2) = Some (length (snd e))"
    using assms(2) by (simp only:) (rule u16_at_field; simp)
  have "?h = (a @ u16_bytes (fst e) @ u16_bytes (length (snd e))) @ snd e @ b"
    by (simp add: ext_bytes_def)
  then have s: "slice ?h (length a + 4) (length a + 4 + length (snd e)) = Some (snd e)"
    by (simp only:) (rule slice_field; simp)
  show ?thesis using assms(3) by (subst sni_extensions.simps) (simp add: t l [simplified] s)
qed

lemma ext_steps:
  assumes "list_all (\<lambda>e. fst e < 65536) es" "length (exts_bytes es) < 65536"
    and "length a + length (exts_bytes es) \<le> fin" and "map_of es 0 = Some body"
  shows "sni_extensions (a @ exts_bytes es @ b) fin (length a) = sni_entries body 2"
  using assms
proof (induction es arbitrary: a)
  case (Cons e es)
  have step: "sni_extensions (a @ exts_bytes (e # es) @ b) fin (length a) =
      (if fst e = 0 then sni_entries (snd e) 2
       else sni_extensions (a @ exts_bytes (e # es) @ b) fin (length a + 4 + length (snd e)))"
    using Cons.prems ext_step [of e a fin "exts_bytes es @ b"] by simp
  show ?case
  proof (cases "fst e = 0")
    case True
    with step Cons.prems(4) show ?thesis by (cases e) simp
  next
    case False
    with Cons.prems have "sni_extensions ((a @ ext_bytes e) @ exts_bytes es @ b) fin (length (a @ ext_bytes e))
        = sni_entries body 2"
      by (intro Cons.IH) (auto split: if_splits simp: eq_commute [of _ "fst e"] prod_eq_iff)
    with False step show ?thesis by (simp add: add.assoc)
  qed
qed simp

text \<open>The parser finds the first extension of type 0, whatever stands before and behind it.\<close>

lemma parseSNI_hello:
  assumes ok: "hello_ok fixed sid suites comps es" and body: "map_of es 0 = Some body"
  shows "parseSNI (hello fixed sid suites comps es @ trail) = sni_entries body 2"
proof -
  let ?h = "hello fixed sid suites comps es @ trail"
  let ?i1 = "39 + length sid" and ?i2 = "41 + length sid + length suites"
  let ?i3 = "42 + length sid + length suites + length comps"
  let ?a0 = "1 # fixed" and ?a1 = "1 # fixed @ of_nat (length sid) # sid"
  let ?a2 = "1 # fixed @ of_nat (length sid) # sid @ u16_bytes (length suites) @ suites"
  let ?a3 = "1 # fixed @ of_nat (length sid) # sid @ u16_bytes (length suites) @ suites @ of_nat (length comps) # comps"
  have len: "length ?h = ?i3 + 2 + length (exts_bytes es) + length trail" and h0: "?h ! 0 = 1"
    using ok by (simp_all add: hello_def hello_ok_def)
  have "?h = ?a0 @ of_nat (length sid) # (sid @ u16_bytes (length suites) @ suites
       @ of_nat (length comps) # comps @ u16_bytes (length (exts_bytes es)) @ exts_bytes es @ trail)"
    by (simp add: hello_def)
  then have b1: "byte_at ?h 38 = Some (of_nat (length sid))"
    using ok by (simp only:) (rule byte_at_field, simp add: hello_ok_def)
  have "?h = ?a1 @ u16_bytes (length suites) @ (suites
       @ of_nat (length comps) # comps @ u16_bytes (length (exts_bytes es)) @ exts_bytes es @ trail)"
    by (simp add: hello_def)
  then have b2: "u16_at ?h ?i1 = Some (length suites)"
    using ok by (simp only:) (rule u16_at_field; simp add: hello_ok_def)
  have "?h = ?a2 @ of_nat (length comps) # (comps @ u16_bytes (length (exts_bytes es)) @ exts_bytes es @ trail)"
    by (simp add: hello_def)
  then have b3: "byte_at ?h ?i2 = Some (of_nat (length comps))"
    using ok by (simp only:) (rule byte_at_field, simp add: hello_ok_def)
  have "?h = ?a3 @ u16_bytes (length (exts_bytes es)) @ exts_bytes es @ trail" by (simp add: hello_def)
  then have b4: "u16_at ?h ?i3 = Some (length (exts_bytes es))"
    using ok by (simp only:) (rule u16_at_field; simp add: hello_ok_def)
  have "?h = (?a3 @ u16_bytes (length (exts_bytes es))) @ exts_bytes es @ trail" by (simp add: hello_def)
  moreover have "length (?a3 @ u16_bytes (length (exts_bytes es))) = ?i3 + 2"
    using ok by (simp add: hello_ok_def)
  ultimately have e: "sni_extensions ?h (?i3 + 2 + length (exts_bytes es)) (?i3 + 2) = sni_entries body 2"
    using ext_steps [OF _ _ _ body, of "?a3 @ u16_bytes (length (exts_bytes es))"] ok
    by (metis (no_types, lifting) hello_ok_def le_refl)
  have u: "unat (of_nat (length sid) :: byte) = length sid" "unat (of_nat (length comps) :: byte) = length comps"
    using ok by (simp_all add: hello_ok_def unat_of_nat_byte)
  have n: "\<not> length ?h < 38" "\<not> length ?h \<le> 38" "\<not> length ?h < ?i1 + 2" "\<not> length ?h < ?i2 + 1" "\<not> length ?h < ?i3 + 2"
    "min (?i3 + 2 + length (exts_bytes es)) (length ?h) = ?i3 + 2 + length (exts_bytes es)"
    unfolding len by simp_all
  have a: "38 + 1 + length sid = ?i1" "?i1 + 2 + length suites = ?i2" "?i2 + 1 + length comps = ?i3" by simp_all
  show ?thesis
    unfolding parseSNI_def Let_def
    by (simp only: h0 b1 b2 b3 b4 u a n e bind.bind_lunit simp_thms if_False if_True not_False_eq_True)
qed

lemma parseSNI_name:
  assumes "hello_ok fixed sid suites comps es" "map_of es 0 = Some (name_body l n more)" "length n < 65536"
  shows "parseSNI (hello fixed sid suites comps es @ trail) = Some (text_of n)"
  using parseSNI_hello [OF assms(1,2)] sni_entries_name [OF assms(3)] by simp

section \<open>The peeking reader\<close>

text \<open>A connection is what it will deliver, one read at a time; the end of the list is the end of the
  stream, or the deadline. \<open>fill_to\<close> is the loop of \<open>bufio.Reader.Peek\<close>: it reads once into the free
  part of the buffer until there is enough. No caller peeks more than the buffer holds.\<close>

record peeked =
  pk_buf :: "byte list"
  pk_conn :: "byte list list"

definition peek_size :: nat where
  "peek_size = 18 * 1024"

fun fill_to :: "nat \<Rightarrow> byte list \<Rightarrow> byte list list \<Rightarrow> peeked" where
  "fill_to n buf [] = \<lparr>pk_buf = buf, pk_conn = []\<rparr>"
| "fill_to n buf (c # cs) =
     (if n \<le> length buf \<or> peek_size \<le> length buf then \<lparr>pk_buf = buf, pk_conn = c # cs\<rparr>
      else (let free = peek_size - length buf
            in if length c \<le> free then fill_to n (buf @ c) cs
               else \<lparr>pk_buf = buf @ take free c, pk_conn = drop free c # cs\<rparr>))"

definition peek :: "nat \<Rightarrow> peeked \<Rightarrow> byte list option \<times> peeked" where
  "peek n pk =
     (let pk' = fill_to n (pk_buf pk) (pk_conn pk)
      in (if n \<le> length (pk_buf pk') then Some (take n (pk_buf pk')) else None, pk'))"

text \<open>\<open>peekedConn.Read\<close> into a slice of \<open>k\<close> bytes.\<close>

definition pk_read :: "nat \<Rightarrow> peeked \<Rightarrow> byte list \<times> peeked" where
  "pk_read k pk =
     (if pk_buf pk \<noteq> [] then (take k (pk_buf pk), pk\<lparr>pk_buf := drop k (pk_buf pk)\<rparr>)
      else case pk_conn pk of
             [] \<Rightarrow> ([], pk)
           | c # cs \<Rightarrow>
               if peek_size \<le> k then (take k c, pk\<lparr>pk_conn := drop k c # cs\<rparr>)
               else (take k (take peek_size c),
                     \<lparr>pk_buf = drop k (take peek_size c), pk_conn = drop peek_size c # cs\<rparr>))"

definition peekSNI :: "peeked \<Rightarrow> string option \<times> peeked" where
  "peekSNI pk =
     (case peek 5 pk of
        (None, pk1) \<Rightarrow> (Some [], pk1)
      | (Some hdr, pk1) \<Rightarrow>
          if hdr ! 0 \<noteq> 0x16 then (Some [], pk1)
          else
            (let recLen = 256 * unat (hdr ! 3) + unat (hdr ! 4)
             in if recLen = 0 \<or> 17 * 1024 < recLen then (Some [], pk1)
                else (case peek (5 + recLen) pk1 of
                        (None, pk2) \<Rightarrow> (Some [], pk2)
                      | (Some r, pk2) \<Rightarrow> (parseSNI (drop 5 r), pk2))))"

text \<open>Where a connection goes: closed, to the HTTP server, to it through our TLS, or to PMS.\<close>

datatype route = Closed | PlainHttp peeked | OwnTls peeked | Tunnel peeked

definition sni_dispatch :: "string \<Rightarrow> byte list list \<Rightarrow> route option" where
  "sni_dispatch termSuffix conn =
     (case peek 1 \<lparr>pk_buf = [], pk_conn = conn\<rparr> of
        (None, pk) \<Rightarrow> Some Closed
      | (Some first, pk) \<Rightarrow>
          if first ! 0 \<noteq> 0x16 then Some (PlainHttp pk)
          else
            (case peekSNI pk of
               (None, pk') \<Rightarrow> None
             | (Some sni, pk') \<Rightarrow>
                 Some (if termSuffix \<noteq> [] \<and> sni \<noteq> [] \<and> has_suffix (to_lower sni) termSuffix
                       then OwnTls pk' else Tunnel pk')))"

text \<open>\<open>serveSNI\<close> lowers the suffix once and dispatches every accepted connection on its own.\<close>

definition serveSNI :: "string \<Rightarrow> byte list list list \<Rightarrow> route option list" where
  "serveSNI termSuffix conns = map (sni_dispatch (to_lower termSuffix)) conns"

section \<open>Peeking loses and invents nothing\<close>

definition replay :: "peeked \<Rightarrow> byte list" where
  "replay pk = pk_buf pk @ concat (pk_conn pk)"

lemma fill_to_replay: "replay (fill_to n buf cs) = buf @ concat cs"
  by (induction n buf cs rule: fill_to.induct) (auto simp: replay_def Let_def)

lemma fill_to_keeps: "\<exists>x. pk_buf (fill_to n buf cs) = buf @ x"
  by (induction n buf cs rule: fill_to.induct) (auto simp: Let_def)

lemma fill_to_bound: "length buf \<le> peek_size \<Longrightarrow> length (pk_buf (fill_to n buf cs)) \<le> peek_size"
  by (induction n buf cs rule: fill_to.induct) (auto simp: Let_def)

text \<open>With room for it, the buffer gets whatever there is of the first \<open>n\<close> bytes.\<close>

lemma fill_to_enough:
  "n \<le> peek_size \<Longrightarrow> n \<le> length buf + length (concat cs) \<Longrightarrow> n \<le> length (pk_buf (fill_to n buf cs))"
  by (induction n buf cs rule: fill_to.induct) (auto simp: Let_def)

lemma fill_to_short:
  assumes "length buf + length (concat cs) < n"
  shows "length (pk_buf (fill_to n buf cs)) < n"
proof -
  have "length (replay (fill_to n buf cs)) = length buf + length (concat cs)"
    by (simp add: fill_to_replay)
  with assms show ?thesis by (simp add: replay_def)
qed

lemma peek_replay [simp]: "peek n pk = (r, pk') \<Longrightarrow> replay pk' = replay pk"
  by (auto simp: peek_def Let_def fill_to_replay) (simp add: replay_def)

lemma peek_result:
  assumes "n \<le> peek_size"
  shows "fst (peek n pk) = (if n \<le> length (replay pk) then Some (take n (replay pk)) else None)"
proof -
  let ?f = "fill_to n (pk_buf pk) (pk_conn pk)"
  have r: "replay pk = replay ?f" using fill_to_replay [of n] by (simp add: replay_def)
  show ?thesis
  proof (cases "n \<le> length (replay pk)")
    case True
    then have "n \<le> length (pk_buf ?f)" using fill_to_enough [OF assms] by (simp add: replay_def)
    moreover then have "take n (replay pk) = take n (pk_buf ?f)"
      unfolding r by (simp add: replay_def)
    ultimately show ?thesis using True by (simp add: peek_def Let_def)
  next
    case False
    then show ?thesis
      using fill_to_short [of "pk_buf pk" "pk_conn pk" n] by (simp add: peek_def Let_def replay_def)
  qed
qed

lemma read_replay: "fst (pk_read k pk) @ replay (snd (pk_read k pk)) = replay pk"
proof -
  have "take k c @ drop k (take peek_size c) @ drop peek_size c = c" if "k < peek_size" for c :: "byte list"
  proof -
    have "take k c @ drop k (take peek_size c) = take peek_size c"
      using that append_take_drop_id [of k "take peek_size c"] by (simp add: min_def)
    then have "(take k c @ drop k (take peek_size c)) @ drop peek_size c = c"
      by (simp only: append_take_drop_id)
    then show ?thesis by simp
  qed
  then show ?thesis by (simp add: pk_read_def replay_def min_def split: list.split)
qed

lemma peekSNI_replay: "replay (snd (peekSNI pk)) = replay pk"
  by (auto simp: peekSNI_def Let_def split: prod.split option.split)

lemma peekSNI_total: "fst (peekSNI pk) \<noteq> None"
  by (auto simp: peekSNI_def Let_def parseSNI_total simp del: not_None_eq split: prod.split option.split)

section \<open>Routing\<close>

definition route_conn :: "route \<Rightarrow> peeked option" where
  "route_conn r = (case r of Closed \<Rightarrow> None | PlainHttp pk \<Rightarrow> Some pk | OwnTls pk \<Rightarrow> Some pk | Tunnel pk \<Rightarrow> Some pk)"

lemma sni_dispatch_total: "sni_dispatch termSuffix conn \<noteq> None"
  using peekSNI_total
  by (auto simp: sni_dispatch_def simp del: not_None_eq split: prod.split option.split) (metis fst_conv)

lemma sni_dispatch_replay:
  "sni_dispatch termSuffix conn = Some r \<Longrightarrow> route_conn r = Some pk \<Longrightarrow> replay pk = concat conn"
  using peekSNI_replay
  by (auto simp: sni_dispatch_def route_conn_def replay_def split: prod.splits option.splits if_splits dest!: peek_replay)
    (metis append_Nil peek_replay peeked.select_convs replay_def snd_conv)+

text \<open>A TLS record with the handshake bytes \<open>m\<close> is parsed as a whole, however it arrives.\<close>

definition tls_record :: "byte list \<Rightarrow> byte list \<Rightarrow> byte list" where
  "tls_record v m = 0x16 # v @ u16_bytes (length m) @ m"

definition record_ok :: "byte list \<Rightarrow> byte list \<Rightarrow> bool" where
  "record_ok v m \<longleftrightarrow> length v = 2 \<and> m \<noteq> [] \<and> length m \<le> 17 * 1024"

lemma tls_record_fields:
  assumes "record_ok v m"
  shows "take 5 (tls_record v m @ rest) = 0x16 # v @ u16_bytes (length m)"
    and "drop 5 (take (5 + length m) (tls_record v m @ rest)) = m"
proof -
  obtain a b where "v = [a, b]"
    using assms by (auto simp: record_ok_def numeral_2_eq_2 length_Suc_conv)
  then show "take 5 (tls_record v m @ rest) = 0x16 # v @ u16_bytes (length m)"
    and "drop 5 (take (5 + length m) (tls_record v m @ rest)) = m"
    by (simp_all add: tls_record_def u16_bytes_def drop_take)
qed

lemma u16_of_bytes:
  "n < 65536 \<Longrightarrow> 256 * unat (of_nat (n div 256) :: byte) + unat (of_nat (n mod 256) :: byte) = n"
  by (simp add: unat_of_nat_byte)

lemma peekSNI_record:
  assumes "record_ok v m" and "replay pk = tls_record v m @ rest"
  shows "fst (peekSNI pk) = parseSNI m"
proof -
  have len: "length (replay pk) = 5 + length m + length rest"
    using assms by (simp add: tls_record_def record_ok_def)
  have small: "5 \<le> peek_size" "5 + length m \<le> peek_size"
    using assms(1) by (simp_all add: peek_size_def record_ok_def)
  obtain pk1 where p1: "peek 5 pk = (Some (0x16 # v @ u16_bytes (length m)), pk1)"
    using peek_result [OF small(1), of pk] len assms tls_record_fields(1) [OF assms(1), of rest]
    by (cases "peek 5 pk") simp
  then have r1: "replay pk1 = replay pk" by simp
  obtain pk2 where p2: "peek (5 + length m) pk1 = (Some (take (5 + length m) (replay pk)), pk2)"
    using peek_result [OF small(2), of pk1] len r1 by (cases "peek (5 + length m) pk1") simp
  obtain a b where v: "v = [a, b]"
    using assms(1) by (auto simp: record_ok_def numeral_2_eq_2 length_Suc_conv)
  have "256 * unat ((0x16 # v @ u16_bytes (length m)) ! 3) + unat ((0x16 # v @ u16_bytes (length m)) ! 4) = length m"
    using assms(1) u16_of_bytes [of "length m"] by (simp add: v u16_bytes_def record_ok_def)
  with p1 p2 assms show ?thesis
    using tls_record_fields(2) [OF assms(1), of rest]
    by (simp add: peekSNI_def Let_def record_ok_def)
qed

lemma sni_dispatch_record:
  assumes "record_ok v m" and "concat conn = tls_record v m @ rest" and "parseSNI m = Some sni"
  shows "\<exists>pk. sni_dispatch termSuffix conn =
    Some (if termSuffix \<noteq> [] \<and> sni \<noteq> [] \<and> has_suffix (to_lower sni) termSuffix then OwnTls pk else Tunnel pk)"
proof -
  let ?p = "\<lparr>pk_buf = [], pk_conn = conn\<rparr>"
  have r: "replay ?p = tls_record v m @ rest" using assms(2) by (simp add: replay_def)
  then have "fst (peek 1 ?p) = Some [0x16]"
    using peek_result [of 1 ?p] by (simp add: peek_size_def tls_record_def)
  then obtain pk where pk: "peek 1 ?p = (Some [0x16], pk)" by (cases "peek 1 ?p") simp
  then have "fst (peekSNI pk) = Some sni"
    using peekSNI_record [OF assms(1), of pk rest] r assms(3) by simp
  then obtain pk' where "peekSNI pk = (Some sni, pk')" by (cases "peekSNI pk") simp
  with pk show ?thesis by (simp add: sni_dispatch_def)
qed

section \<open>Certificates\<close>

text \<open>\<open>certReloader\<close>: what is read from disk is an argument; a failed load keeps the certificate.\<close>

definition cert_load :: "'c option \<Rightarrow> 'c option \<Rightarrow> bool \<times> 'c option" where
  "cert_load disk cert = (case disk of None \<Rightarrow> (False, cert) | Some c \<Rightarrow> (True, Some c))"

definition cert_get :: "'c option \<Rightarrow> 'c option" where
  "cert_get cert = cert"

definition cert_watch :: "'c option list \<Rightarrow> 'c option \<Rightarrow> 'c option" where
  "cert_watch disks cert = fold (\<lambda>d c. snd (cert_load d c)) disks cert"

lemma cert_watch_last:
  "cert_get (cert_watch disks cert) = (case filter (\<lambda>d. d \<noteq> None) disks of [] \<Rightarrow> cert | ds \<Rightarrow> last ds)"
proof (induction disks arbitrary: cert)
  case (Cons d disks)
  have "cert_watch (d # disks) cert = cert_watch disks (snd (cert_load d cert))" by (simp add: cert_watch_def)
  with Cons.IH [of "snd (cert_load d cert)"] show ?case
    by (cases d) (auto simp: cert_load_def split: list.splits)
qed (simp add: cert_watch_def cert_get_def)

end
