(* ===== verification/GoHttp.thy ===== *)
theory GoHttp
  imports GoPrelude
begin

text \<open>
  Requests, responses and headers of \<open>net/http\<close>, and the query strings of \<open>net/url\<close>, as far as the relay,
  clientfix and the shim use them. Header keys are canonical, as \<open>net/http\<close> delivers them.
\<close>

section \<open>Requests and responses\<close>

type_synonym header = "(string \<times> string list) list"

record httpreq =
  hq_method :: string
  hq_path :: string
  hq_query :: string
  hq_hdr :: header
  hq_host :: string
  hq_body :: string

record httpresp =
  hs_status :: int
  hs_hdr :: header
  hs_body :: string

definition hdr_get :: "header \<Rightarrow> string \<Rightarrow> string" where
  "hdr_get h k = (case map_of h k of Some (v # vs) \<Rightarrow> v | _ \<Rightarrow> [])"

definition hdr_set :: "string \<Rightarrow> string \<Rightarrow> header \<Rightarrow> header" where
  "hdr_set k v h = AList.update k [v] h"

definition hdr_del :: "string \<Rightarrow> header \<Rightarrow> header" where
  "hdr_del k h = filter (\<lambda>(k', vs). k' \<noteq> k) h"

section \<open>Query strings\<close>

text \<open>\<open>url.QueryEscape\<close> and \<open>url.QueryUnescape\<close>; \<open>None\<close> is an escape error.\<close>

definition unreserved :: "char \<Rightarrow> bool" where
  "unreserved c \<longleftrightarrow>
     (let n = of_char c :: nat in 97 \<le> n \<and> n \<le> 122 \<or> 65 \<le> n \<and> n \<le> 90 \<or> 48 \<le> n \<and> n \<le> 57) \<or> c \<in> set ''-_.~''"

definition hex_digit :: "nat \<Rightarrow> char" where
  "hex_digit d = ''0123456789ABCDEF'' ! d"

definition hex_val :: "char \<Rightarrow> nat option" where
  "hex_val c =
     (let n = of_char c :: nat
      in if 48 \<le> n \<and> n \<le> 57 then Some (n - 48)
         else if 97 \<le> n \<and> n \<le> 102 then Some (n - 87)
         else if 65 \<le> n \<and> n \<le> 70 then Some (n - 55) else None)"

definition escape_char :: "char \<Rightarrow> string" where
  "escape_char c =
     (if unreserved c then [c] else if c = CHR '' '' then ''+''
      else [CHR ''%'', hex_digit (of_char c div 16), hex_digit (of_char c mod 16)])"

definition query_escape :: "string \<Rightarrow> string" where
  "query_escape s = concat (map escape_char s)"

fun query_unescape :: "string \<Rightarrow> string option" where
  "query_unescape [] = Some []"
| "query_unescape (c # s) =
     (if c = CHR ''%'' then
        (case s of
           a # b # t \<Rightarrow>
             (case (hex_val a, hex_val b) of
                (Some x, Some y) \<Rightarrow> map_option (Cons (char_of (16 * x + y))) (query_unescape t)
              | _ \<Rightarrow> None)
         | _ \<Rightarrow> None)
      else map_option (Cons (if c = CHR ''+'' then CHR '' '' else c)) (query_unescape s))"

text \<open>\<open>url.ParseQuery\<close>: a pair that is empty, has a semicolon or does not unescape is left out. The values
  are an association list, one entry per key.\<close>

type_synonym url_values = "(string \<times> string list) list"

definition val_add :: "string \<times> string \<Rightarrow> url_values \<Rightarrow> url_values" where
  "val_add kv m = AList.update (fst kv) ((case map_of m (fst kv) of Some vs \<Rightarrow> vs | None \<Rightarrow> []) @ [snd kv]) m"

definition query_pair :: "string \<Rightarrow> (string \<times> string) option" where
  "query_pair p =
     (if CHR '';'' \<in> set p \<or> p = [] then None
      else (let (k, v) = (case str_cut p (CHR ''='') of Some kv \<Rightarrow> kv | None \<Rightarrow> (p, []))
            in case query_unescape k of
                 None \<Rightarrow> None
               | Some k' \<Rightarrow> map_option (Pair k') (query_unescape v)))"

definition parse_query :: "string \<Rightarrow> url_values" where
  "parse_query q = fold val_add (List.map_filter query_pair (split_on CHR ''&'' q)) []"

definition val_get :: "url_values \<Rightarrow> string \<Rightarrow> string" where
  "val_get m k = (case map_of m k of Some (v # vs) \<Rightarrow> v | _ \<Rightarrow> [])"

definition val_del :: "string \<Rightarrow> url_values \<Rightarrow> url_values" where
  "val_del k m = filter (\<lambda>(k', vs). k' \<noteq> k) m"

text \<open>\<open>Values.Encode\<close>: sorted by key, the values of a key in their order.\<close>

definition val_pairs :: "url_values \<Rightarrow> (string \<times> string) list" where
  "val_pairs m = concat (map (\<lambda>(k, vs). map (Pair k) vs) (sort_key fst m))"

definition encode_values :: "url_values \<Rightarrow> string" where
  "encode_values m = join_with ''&'' (map (\<lambda>(k, v). query_escape k @ ''='' @ query_escape v) (val_pairs m))"

section \<open>Escaping is inverted\<close>

lemma hex_val_digit: "d < 16 \<Longrightarrow> hex_val (hex_digit d) = Some d"
proof -
  have "list_all (\<lambda>d. hex_val (hex_digit d) = Some d) [0..<16]" by code_simp
  then show "d < 16 \<Longrightarrow> hex_val (hex_digit d) = Some d" by (simp add: list_all_iff)
qed

lemma char_bound: "(of_char c :: nat) < 256"
  by (rule nat_of_char_less_256)

lemma char_div: "(of_char c :: nat) div 16 < 16"
  by (rule less_mult_imp_div_less) (use char_bound [of c] in simp)

lemma unescape_escape_char:
  "query_unescape (escape_char c @ s) = map_option (Cons c) (query_unescape s)"
proof (cases "unreserved c \<or> c = CHR '' ''")
  case True
  have "\<not> unreserved CHR ''%''" "\<not> unreserved CHR ''+''" by code_simp+
  with True show ?thesis by (auto simp: escape_char_def)
next
  case False
  have "16 * (of_char c div 16) + of_char c mod 16 = (of_char c :: nat)" by simp
  moreover have "(of_char c :: nat) div 16 < 16" by (rule char_div)
  ultimately show ?thesis using False by (simp add: escape_char_def hex_val_digit)
qed

lemma unescape_escape: "query_unescape (query_escape s) = Some s"
  by (induction s) (simp_all add: query_escape_def unescape_escape_char)

lemma escape_clean: "c \<in> set (query_escape s) \<Longrightarrow> c \<noteq> CHR ''&'' \<and> c \<noteq> CHR '';'' \<and> c \<noteq> CHR ''=''"
proof -
  have u: "\<not> unreserved CHR ''&''" "\<not> unreserved CHR '';''" "\<not> unreserved CHR ''=''" by code_simp+
  have h: "list_all (\<lambda>d. hex_digit d \<notin> set ''&;='') [0..<16]" by code_simp
  with h char_div have "hex_digit (of_char d div 16) \<notin> set ''&;=''" "hex_digit (of_char d mod 16) \<notin> set ''&;=''" for d :: char
    by (auto simp: list_all_iff)
  then show "c \<in> set (query_escape s) \<Longrightarrow> c \<noteq> CHR ''&'' \<and> c \<noteq> CHR '';'' \<and> c \<noteq> CHR ''=''"
    using u by (auto simp: query_escape_def escape_char_def split: if_splits)
qed

abbreviation pair_text :: "string \<times> string \<Rightarrow> string" where
  "pair_text kv \<equiv> query_escape (fst kv) @ ''='' @ query_escape (snd kv)"

lemma cut_escaped: "str_cut (query_escape k @ CHR ''='' # v) CHR ''='' = Some (query_escape k, v)"
proof -
  have idx: "index_byte (p @ CHR ''='' # v) (\<lambda>c. c = CHR ''='') = Some (length p)" if "CHR ''='' \<notin> set p" for p
    using that by (induction p) auto
  have "CHR ''='' \<notin> set (query_escape k)" using escape_clean by blast
  then show ?thesis by (simp add: str_cut_def idx)
qed

lemma query_pair_text: "query_pair (pair_text kv) = Some kv"
proof -
  have "CHR '';'' \<notin> set (pair_text kv)" using escape_clean by fastforce
  then show ?thesis by (simp add: query_pair_def cut_escaped unescape_escape)
qed

lemma parse_pairs:
  "parse_query (join_with ''&'' (map pair_text kvs)) = fold val_add kvs []"
proof (cases "kvs = []")
  case False
  have "\<forall>p\<in>set (map pair_text kvs). CHR ''&'' \<notin> set p" using escape_clean by fastforce
  then have s: "split_on CHR ''&'' (join_with ''&'' (map pair_text kvs)) = map pair_text kvs"
    using False by (intro split_on_join) simp_all
  have "List.map_filter query_pair (map pair_text kvs) = kvs"
    by (induction kvs) (simp_all add: query_pair_text [simplified] List.map_filter_simps)
  then show ?thesis by (simp only: parse_query_def s)
qed (simp add: parse_query_def query_pair_def List.map_filter_simps)

text \<open>What a key holds after a list of pairs was added.\<close>

lemma val_add_lookup:
  "map_of (fold val_add kvs m) k =
     (let vs = map snd (filter (\<lambda>kv. fst kv = k) kvs)
      in if vs = [] then map_of m k
         else Some ((case map_of m k of Some us \<Rightarrow> us | None \<Rightarrow> []) @ vs))"
proof (induction kvs arbitrary: m)
  case (Cons kv kvs)
  have "map_of (val_add kv m) k =
      (if fst kv = k then Some ((case map_of m k of Some us \<Rightarrow> us | None \<Rightarrow> []) @ [snd kv]) else map_of m k)"
    by (simp add: val_add_def update_conv')
  with Cons.IH [of "val_add kv m"] show ?case
    by (cases "fst kv = k") (auto simp: Let_def filter_empty_conv split: option.splits)
qed simp

lemma pairs_of_key:
  assumes "distinct (map fst m)"
  shows "map snd (filter (\<lambda>kv. fst kv = k) (val_pairs m)) = (case map_of m k of Some vs \<Rightarrow> vs | None \<Rightarrow> [])"
proof -
  have *: "map snd (filter (\<lambda>kv. fst kv = k) (concat (map (\<lambda>(k, vs). map (Pair k) vs) xs)))
      = (case map_of xs k of Some vs \<Rightarrow> vs | None \<Rightarrow> [])" if "distinct (map fst xs)" for xs :: url_values
    using that
  proof (induction xs)
    case (Cons x xs)
    obtain k' vs where x: "x = (k', vs)" by (cases x)
    have "map snd (filter (\<lambda>kv. fst kv = k) (map (Pair k') vs)) = (if k' = k then vs else [])"
      by (induction vs) auto
    moreover have "k' = k \<Longrightarrow> map_of xs k = None" using Cons.prems x by (auto simp: map_of_eq_None_iff)
    ultimately show ?case using Cons x by auto
  qed simp
  have "distinct (map fst (sort_key fst m))"
    using assms by (simp add: distinct_map)
  moreover have "map_of (sort_key fst m) = map_of m"
    by (subst map_of_inject_set) (use assms in \<open>simp_all add: distinct_map\<close>)
  ultimately show ?thesis using * [of "sort_key fst m"] by (simp add: val_pairs_def)
qed

text \<open>Encoding and parsing are inverse on the values of every key.\<close>

lemma parse_encode:
  assumes "distinct (map fst m)" and "\<forall>(k, vs)\<in>set m. vs \<noteq> []"
  shows "map_of (parse_query (encode_values m)) k = map_of m k"
proof -
  have "encode_values m = join_with ''&'' (map pair_text (val_pairs m))"
    by (simp add: encode_values_def case_prod_unfold)
  then have "map_of (parse_query (encode_values m)) k = map_of (fold val_add (val_pairs m) []) k"
    by (simp only: parse_pairs)
  also have "\<dots> = map_of m k"
    using pairs_of_key [OF assms(1), of k] assms(2)
    by (auto simp: val_add_lookup Let_def split: option.splits dest!: map_of_SomeD)
  finally show ?thesis .
qed

lemma val_add_distinct: "distinct (map fst m) \<Longrightarrow> distinct (map fst (fold val_add kvs m))"
  by (induction kvs arbitrary: m) (simp_all add: val_add_def distinct_update)

lemma val_add_values: "\<forall>(k, vs)\<in>set m. vs \<noteq> [] \<Longrightarrow> distinct (map fst m) \<Longrightarrow> \<forall>(k, vs)\<in>set (fold val_add kvs m). vs \<noteq> []"
proof -
  assume m: "\<forall>(k, vs)\<in>set m. vs \<noteq> []" "distinct (map fst m)"
  have d: "distinct (map fst (fold val_add kvs m))" by (rule val_add_distinct [OF m(2)])
  show ?thesis
  proof (clarsimp)
    fix k
    assume "(k, []) \<in> set (fold val_add kvs m)"
    then have "map_of (fold val_add kvs m) k = Some []" using d by simp
    then have "map_of m k = Some []" by (auto simp: val_add_lookup Let_def split: if_splits option.splits)
    with m(1) show False by (auto dest: map_of_SomeD)
  qed
qed

lemma parse_query_ok: "distinct (map fst (parse_query q))" "\<forall>(k, vs)\<in>set (parse_query q). vs \<noteq> []"
  unfolding parse_query_def by (rule val_add_distinct val_add_values; simp)+

lemma val_del_lookup: "map_of (val_del k m) k' = (if k' = k then None else map_of m k')"
  by (induction m) (auto simp: val_del_def)

end
