(* ===== verification/ClientProxy.thy ===== *)
theory ClientProxy
  imports GoRegexp GoHttp
begin

text \<open>
  The reverse proxy of clientfix (\<open>src/clientfix/cmd/clientfix/main.go\<close>): which requests it looks at,
  the two passes of a decision, and the rewrites of the client profile. The XML decoder and PMS are arguments: PMS
  answers the \<open>n\<close>-th request of an exchange or fails.
\<close>

section \<open>What is matched\<close>

definition isDecision :: "string \<Rightarrow> bool" where
  "isDecision path = str_contains path ''/transcode/universal/decision''"

definition appleTV845 :: "header \<Rightarrow> bool" where
  "appleTV845 h \<longleftrightarrow> hdr_get h ''X-Plex-Product'' = ''Plex for Apple TV''
     \<and> has_prefix (hdr_get h ''X-Plex-Version'') ''8.45''"

text \<open>The fields of the decision document the proxy reads.\<close>

record mde_stream =
  ms_type :: string
  ms_decision :: string

record mde_part =
  mp_selected :: string
  mp_streams :: "mde_stream list"

record mde_media =
  mm_selected :: string
  mm_parts :: "mde_part list"

type_synonym mde = "mde_media list list"

definition videoIsTranscode :: "(string \<Rightarrow> mde option) \<Rightarrow> string \<Rightarrow> bool" where
  "videoIsTranscode unmarshal body =
     (case unmarshal body of
        None \<Rightarrow> False
      | Some mc \<Rightarrow>
          list_ex (\<lambda>v. list_ex (\<lambda>m. \<not> (mm_selected m \<noteq> ''1'' \<and> 1 < length v)
            \<and> list_ex (\<lambda>p. \<not> (mp_selected p \<noteq> ''1'' \<and> 1 < length (mm_parts m))
              \<and> list_ex (\<lambda>s. ms_type s = ''1'' \<and> ms_decision s = ''transcode'') (mp_streams p)) (mm_parts m)) v) mc)"

section \<open>The rewrites\<close>

definition profile_extra :: string where
  "profile_extra = ''X-Plex-Client-Profile-Extra''"

definition rewriteContainer :: "header \<Rightarrow> string \<Rightarrow> header" where
  "rewriteContainer h target =
     (let pe = hdr_get h profile_extra
      in if pe = [] then h
         else hdr_set profile_extra (replace_all pe ''container=mkv'' (''container='' @ target)) h)"

definition stripProfileExtraHeader :: "header \<Rightarrow> header" where
  "stripProfileExtraHeader h = hdr_del profile_extra h"

definition profileExtraQueryRe :: rx where
  "profileExtraQueryRe =
     RSeq (RGrp 1 (RAlt RBol (RLit CHR ''&''))) (RSeq (lit ''X-Plex-Client-Profile-Extra='') (RStar (rnone ''&'')))"

definition stripProfileExtraQuery :: "string \<Rightarrow> string" where
  "stripProfileExtraQuery q = trim_prefix (rx_replace_all profileExtraQueryRe q []) ''&''"

definition rewriteRawQuery :: "string \<Rightarrow> string \<Rightarrow> string" where
  "rewriteRawQuery q target =
     replace_all (replace_all (replace_all q ''container=mkv'' (''container='' @ target))
       ''container%3Dmkv'' (''container%3D'' @ target)) ''container%3dmkv'' (''container%3d'' @ target)"

section \<open>The proxy\<close>

text \<open>\<open>forward\<close>: the request that reaches PMS. A header without values is not copied.\<close>

definition forward_req :: "httpreq \<Rightarrow> string \<Rightarrow> header \<Rightarrow> httpreq" where
  "forward_req r query hdr =
     r\<lparr>hq_query := query, hq_hdr := hdr_del ''Accept-Encoding'' (filter (\<lambda>(k, vs). vs \<noteq> []) hdr)\<rparr>"

definition writeResponse :: "httpresp \<Rightarrow> httpresp" where
  "writeResponse p = p\<lparr>hs_hdr := filter (\<lambda>(k, vs). to_lower k \<noteq> ''content-length'' \<and> vs \<noteq> []) (hs_hdr p)\<rparr>"

definition upstream_error :: httpresp where
  "upstream_error = \<lparr>hs_status = 502, hs_hdr = [], hs_body = ''scaleplex-clientfix: upstream error''\<rparr>"

text \<open>What was sent to PMS, in order, and what the client gets.\<close>

definition handleDecision ::
    "string \<Rightarrow> (string \<Rightarrow> mde option) \<Rightarrow> (nat \<Rightarrow> httpreq \<Rightarrow> httpresp option) \<Rightarrow> httpreq \<Rightarrow> httpreq list \<times> httpresp" where
  "handleDecision mode unmarshal pms r =
     (let r1 = forward_req r (hq_query r) (hq_hdr r)
      in case pms 0 r1 of
           None \<Rightarrow> ([r1], upstream_error)
         | Some p1 \<Rightarrow>
             if videoIsTranscode unmarshal (hs_body p1)
             then
               (let (hdr2, q2) = (if mode = ''strip''
                      then (stripProfileExtraHeader (hq_hdr r), stripProfileExtraQuery (hq_query r))
                      else (rewriteContainer (hq_hdr r) mode, rewriteRawQuery (hq_query r) mode));
                    r2 = forward_req r q2 hdr2
                in case pms 1 r2 of
                     Some p2 \<Rightarrow> ([r1, r2], writeResponse p2)
                   | None \<Rightarrow> ([r1, r2], writeResponse p1))
             else ([r1], writeResponse p1))"

text \<open>Everything else is streamed as it is.\<close>

datatype handled = Streamed httpreq | Answered "httpreq list" httpresp

definition clientfix_handle ::
    "string \<Rightarrow> (string \<Rightarrow> mde option) \<Rightarrow> (nat \<Rightarrow> httpreq \<Rightarrow> httpresp option) \<Rightarrow> httpreq \<Rightarrow> handled" where
  "clientfix_handle mode unmarshal pms r =
     (if isDecision (hq_path r) \<and> appleTV845 (hq_hdr r)
      then (case handleDecision mode unmarshal pms r of (rs, p) \<Rightarrow> Answered rs p)
      else Streamed r)"

section \<open>The query is stripped by parameters\<close>

definition keep_param :: "string \<Rightarrow> bool" where
  "keep_param p \<longleftrightarrow> \<not> has_prefix p ''X-Plex-Client-Profile-Extra=''"

abbreviation amp :: "string list \<Rightarrow> string" where
  "amp ps \<equiv> concat (map (Cons CHR ''&'') ps)"

lemma join_amp: "join_with ''&'' (p # ps) = p @ amp ps"
  by (induction ps arbitrary: p) auto

lemma has_prefix_param:
  assumes "CHR ''&'' \<notin> set k"
  shows "has_prefix (p @ amp ps) k \<longleftrightarrow> has_prefix p k"
proof
  assume *: "has_prefix (p @ amp ps) k"
  have "length k \<le> length p"
  proof (rule ccontr)
    assume "\<not> length k \<le> length p"
    then obtain q qs where "ps = q # qs" "length p < length k"
      using * by (cases ps) (auto simp: has_prefix_def)
    with * have "k ! length p = CHR ''&''" "length p < length k"
      by (auto simp: has_prefix_iff nth_append dest!: arg_cong [where f = "\<lambda>l. l ! length p"])
    with assms show False using nth_mem by force
  qed
  with * show "has_prefix p k" by (simp add: has_prefix_def)
qed (auto simp: has_prefix_iff)

lemma star_not_amp:
  "rx_all (RStar (rnone ''&'')) (b, s, caps) = st # sts \<Longrightarrow> fst (snd st) = dropWhile (\<lambda>c. c \<noteq> CHR ''&'') s"
proof -
  have e: "in_class True [(CHR ''&'', CHR ''&'')] = (\<lambda>c. c \<noteq> CHR ''&'')"
  proof
    fix c
    have "(of_char c :: nat) = of_char (CHR ''&'') \<longleftrightarrow> c = CHR ''&''" by (rule of_char_eq_iff)
    then show "in_class True [(CHR ''&'', CHR ''&'')] c = (c \<noteq> CHR ''&'')"
      by (auto simp: in_class_def)
  qed
  have f: "rx_all (RSet True [(CHR ''&'', CHR ''&'')]) = eat (\<lambda>c. c \<noteq> CHR ''&'')"
    by (rule ext) (simp only: rx_all.simps e)
  assume "rx_all (RStar (rnone ''&'')) (b, s, caps) = st # sts"
  then show ?thesis
    using star_class_hd [of s "length s" "\<lambda>c. c \<noteq> CHR ''&''" b caps]
    by (simp add: rnone_def f)
qed

lemma star_not_amp_ne: "rx_all (RStar (rnone ''&'')) st \<noteq> []"
  by (cases "length (fst (snd st))") auto

text \<open>What the expression matches at a position: the key, at the beginning or behind an ampersand, and
  then everything up to the next one.\<close>

abbreviation key :: string where
  "key \<equiv> ''X-Plex-Client-Profile-Extra=''"

lemma rx_seq_here:
  assumes "rx_all r (b, s, []) = [st]"
  shows "rx_here (RSeq r (RStar (rnone ''&''))) b s =
    (case rx_all (RStar (rnone ''&'')) st of (b', rest, caps) # x \<Rightarrow> Some (take (length s - length rest) s, rest, caps) | [] \<Rightarrow> None)"
  using assms by (simp add: rx_here_def split: list.split)

lemma extra_ways:
  "rx_all profileExtraQueryRe (b, s, []) =
     (if b \<and> has_prefix s key then rx_all (RStar (rnone ''&'')) (False, drop (length key) s, [(1, [])]) else [])
     @ (case s of c # t \<Rightarrow> if c = CHR ''&'' \<and> has_prefix t key
          then rx_all (RStar (rnone ''&'')) (False, drop (length key) t, [(1, ''&'')]) else [] | [] \<Rightarrow> [])"
  unfolding profileExtraQueryRe_def
  by (cases s) (auto simp: rx_lit close_group_def eat_def simp del: lit.simps)

text \<open>From a position behind an ampersand, or behind a character of a parameter that is kept, the expression
  finds the next parameter with the key.\<close>

lemma not_amp_param:
  assumes "CHR ''&'' \<notin> set p"
  shows "takeWhile (\<lambda>c. c \<noteq> CHR ''&'') (p @ amp ps) = p" and "dropWhile (\<lambda>c. c \<noteq> CHR ''&'') (p @ amp ps) = amp ps"
proof -
  have "takeWhile (\<lambda>c. c \<noteq> CHR ''&'') (amp ps) = []" "dropWhile (\<lambda>c. c \<noteq> CHR ''&'') (amp ps) = amp ps"
    by (cases ps; simp)+
  with assms show "takeWhile (\<lambda>c. c \<noteq> CHR ''&'') (p @ amp ps) = p"
    and "dropWhile (\<lambda>c. c \<noteq> CHR ''&'') (p @ amp ps) = amp ps"
    by (auto simp: takeWhile_append dropWhile_append)
qed

lemma extra_hit:
  assumes "rx_all profileExtraQueryRe (b, s, []) =
      rx_all (RStar (rnone ''&'')) (False, t, caps) @ alts"
  shows "\<exists>caps'. rx_here profileExtraQueryRe b s =
    Some (take (length s - length (dropWhile (\<lambda>c. c \<noteq> CHR ''&'') t)) s, dropWhile (\<lambda>c. c \<noteq> CHR ''&'') t, caps')"
proof -
  obtain st sts where st: "rx_all (RStar (rnone ''&'')) (False, t, caps) = st # sts"
    using star_not_amp_ne [of "(False, t, caps)"] by (cases "rx_all (RStar (rnone ''&'')) (False, t, caps)") auto
  moreover obtain b' rest caps' where "st = (b', rest, caps')" by (cases st)
  ultimately show ?thesis
    using assms star_not_amp [OF st] by (simp add: rx_here_def)
qed

lemma key_no_amp: "CHR ''&'' \<notin> set key"
  by simp

lemma drop_key:
  assumes "CHR ''&'' \<notin> set p" "has_prefix p key"
  shows "dropWhile (\<lambda>c. c \<noteq> CHR ''&'') (drop (length key) (p @ amp ps)) = amp ps"
proof -
  obtain v where v: "p = key @ v" using assms(2) by (auto simp only: has_prefix_iff)
  with assms(1) have "CHR ''&'' \<notin> set v" by simp
  then show ?thesis using not_amp_param(2) [of v ps] unfolding v by simp
qed

lemma here_amp:
  assumes "CHR ''&'' \<notin> set p"
  shows "rx_here profileExtraQueryRe b (CHR ''&'' # p @ amp ps) =
    (if keep_param p then None else Some (CHR ''&'' # p, amp ps, snd (snd (the (rx_here profileExtraQueryRe b (CHR ''&'' # p @ amp ps))))))"
proof (cases "keep_param p")
  case True
  then have "rx_all profileExtraQueryRe (b, CHR ''&'' # p @ amp ps, []) = []"
    using has_prefix_param [OF key_no_amp, of p ps]
    by (simp add: extra_ways keep_param_def has_prefix_def)
  then show ?thesis using True by (simp add: rx_here_def)
next
  case False
  then have k: "has_prefix p key" by (simp add: keep_param_def)
  then have "rx_all profileExtraQueryRe (b, CHR ''&'' # p @ amp ps, []) =
      rx_all (RStar (rnone ''&'')) (False, drop (length key) (p @ amp ps), [(1, ''&'')]) @ []"
    using has_prefix_param [OF key_no_amp, of p ps]
    by (simp add: extra_ways has_prefix_def)
  from extra_hit [OF this] drop_key [OF assms k, of ps] False show ?thesis by auto
qed

lemma here_param:
  assumes "CHR ''&'' \<notin> set p" "p \<noteq> []"
  shows "rx_here profileExtraQueryRe b (p @ amp ps) =
    (if \<not> b \<or> keep_param p then None else Some (p, amp ps, snd (snd (the (rx_here profileExtraQueryRe b (p @ amp ps))))))"
proof (cases "\<not> b \<or> keep_param p")
  case True
  moreover from assms obtain c t where "p = c # t" "c \<noteq> CHR ''&''" by (cases p) auto
  ultimately have "rx_all profileExtraQueryRe (b, p @ amp ps, []) = []"
    using has_prefix_param [OF key_no_amp, of p ps]
    by (auto simp: extra_ways keep_param_def)
  then show ?thesis using True by (simp add: rx_here_def)
next
  case False
  moreover from assms obtain c t where "p = c # t" "c \<noteq> CHR ''&''" by (cases p) auto
  moreover have k: "has_prefix p key" using False by (simp add: keep_param_def)
  ultimately have "rx_all profileExtraQueryRe (b, p @ amp ps, []) =
      rx_all (RStar (rnone ''&'')) (False, drop (length key) (p @ amp ps), [(1, [])]) @ []"
    using has_prefix_param [OF key_no_amp, of p ps]
    by (simp add: extra_ways)
  from extra_hit [OF this] drop_key [OF assms(1) k, of ps] False show ?thesis by auto
qed

lemma rx_find_skip:
  assumes "\<And>i. i < length u \<Longrightarrow> rx_here r (b \<and> i = 0) (drop i u @ s) = None"
  shows "rx_find_from r b (u @ s) = map_option (\<lambda>(pre, hit). (u @ pre, hit)) (rx_find_from r (b \<and> u = []) s)"
  using assms
proof (induction u arbitrary: b)
  case Nil
  show ?case by (cases "rx_find_from r b s") auto
next
  case (Cons c u)
  have "rx_here r b (c # u @ s) = None" using Cons.prems [of 0] by simp
  moreover have "rx_find_from r False (u @ s) =
      map_option (\<lambda>(pre, hit). (u @ pre, hit)) (rx_find_from r (False \<and> u = []) s)"
    using Cons.prems [of "Suc i" for i] by (intro Cons.IH) simp
  ultimately show ?case by (cases "rx_find_from r False s") auto
qed

text \<open>Every match consumes something.\<close>

definition eats :: "rx \<Rightarrow> bool" where
  "eats r \<longleftrightarrow> (\<forall>b s m rest caps. rx_here r b s = Some (m, rest, caps) \<longrightarrow> length rest < length s)"

lemma find_eats: "eats r \<Longrightarrow> rx_find_from r b s = Some (pre, m, rest, caps) \<Longrightarrow> length rest < length s"
proof (induction s arbitrary: b pre)
  case Nil
  then show ?case by (fastforce simp: eats_def split: option.splits)
next
  case (Cons c s)
  show ?case
  proof (cases "rx_here r b (c # s)")
    case None
    with Cons.prems obtain pre' where "rx_find_from r False s = Some (pre', m, rest, caps)"
      by (auto split: option.splits)
    from Cons.IH [OF Cons.prems(1) this] show ?thesis by simp
  next
    case (Some h)
    with Cons.prems have "rx_here r b (c # s) = Some (m, rest, caps)" by (auto split: prod.splits)
    with Cons.prems(1) show ?thesis unfolding eats_def by blast
  qed
qed

lemma star_amp_leaves: "st \<in> set (rx_all (RStar (rnone ''&'')) (b, t, c)) \<Longrightarrow> length (fst (snd st)) \<le> length t"
  using rx_all_leaves [of st "RStar (rnone ''&'')" "(b, t, c)"] by (auto simp: leaves_def)

lemma extra_eats: "eats profileExtraQueryRe"
proof -
  have ways: "length rest < length s"
    if "(b', rest, caps) \<in> set (rx_all profileExtraQueryRe (b, s, []))" for b b' s rest caps
  proof -
    have len: "has_prefix t key \<Longrightarrow> length (drop (length key) t) < length t" for t
      by (auto simp: has_prefix_def dest!: arg_cong [where f = length])
    from that show ?thesis
      unfolding extra_ways
      by (auto split: if_splits list.splits simp del: rx_all.simps
        dest!: star_amp_leaves len intro: le_less_trans less_trans)
  qed
  have "length rest < length s" if "rx_here profileExtraQueryRe b s = Some (m, rest, caps)" for b s m rest caps
  proof -
    from that obtain b' xs where "rx_all profileExtraQueryRe (b, s, []) = (b', rest, caps) # xs"
      by (auto simp: rx_here_def split: list.splits)
    then show ?thesis using ways [of b' rest caps b s] by simp
  qed
  then show ?thesis by (auto simp: eats_def)
qed

lemma rx_replace_skip:
  assumes "\<And>i. i < length u \<Longrightarrow> rx_here r (b \<and> i = 0) (drop i u @ s) = None" and "eats r"
  shows "rx_replace_from r b new (u @ s) = u @ rx_replace_from r (b \<and> u = []) new s"
  using rx_find_skip [OF assms(1)] find_eats [OF assms(2), of "b \<and> u = []" s]
  by (subst (1 2) rx_replace_from.simps) (cases "rx_find_from r (b \<and> u = []) s"; auto dest: rx_find_from_split)

lemma replace_hit:
  assumes "rx_here r b s = Some (m, rest, caps)" "length rest < length s"
  shows "rx_replace_from r b new s = new @ rx_replace_from r False new rest"
proof -
  have "rx_find_from r b s = Some ([], m, rest, caps)"
    using assms(1) by (cases s) simp_all
  with assms(2) show ?thesis by (subst rx_replace_from.simps) simp
qed

lemma inside_param:
  assumes "CHR ''&'' \<notin> set p" "i < length p"
  shows "rx_here profileExtraQueryRe False (drop i p @ amp ps) = None"
  using assms here_param [of "drop i p" False ps] by (auto dest: in_set_dropD)

lemma replace_amp:
  assumes "\<forall>p\<in>set ps. CHR ''&'' \<notin> set p"
  shows "rx_replace_from profileExtraQueryRe False [] (amp ps) = amp (filter keep_param ps)"
  using assms
proof (induction ps)
  case Nil
  have "rx_here profileExtraQueryRe False [] = None" by (simp add: rx_here_def extra_ways)
  then show ?case by (subst rx_replace_from.simps) simp
next
  case (Cons p ps)
  show ?case
  proof (cases "keep_param p")
    case True
    have "rx_here profileExtraQueryRe (False \<and> i = 0) (drop i (CHR ''&'' # p) @ amp ps) = None"
      if "i < length (CHR ''&'' # p)" for i
      using that True Cons.prems here_amp [of p False ps] inside_param [of p "i - 1" ps] by (cases i) auto
    from rx_replace_skip [OF this extra_eats] True Cons show ?thesis by simp
  next
    case False
    then show ?thesis
      using here_amp [of p False ps] Cons by (auto dest!: replace_hit [where new = "[]"])
  qed
qed

lemma replace_query:
  assumes "\<forall>p'\<in>set (p # ps). CHR ''&'' \<notin> set p'" "p \<noteq> []"
  shows "rx_replace_all profileExtraQueryRe (p @ amp ps) [] =
    (if keep_param p then p else []) @ amp (filter keep_param ps)"
proof (cases "keep_param p")
  case True
  have "rx_here profileExtraQueryRe (True \<and> i = 0) (drop i p @ amp ps) = None" if "i < length p" for i
    using that True assms here_param [of p True ps] inside_param [of p i ps] by (cases i) auto
  from rx_replace_skip [OF this extra_eats] True assms show ?thesis
    by (simp add: rx_replace_all_def replace_amp)
next
  case False
  have "length (amp ps) < length (p @ amp ps)" using assms(2) by simp
  then show ?thesis
    using False assms here_param [of p True ps]
    by (auto simp: rx_replace_all_def replace_amp dest!: replace_hit [where new = "[]"])
qed

lemma trim_amp:
  "(\<forall>p\<in>set ps. CHR ''&'' \<notin> set p) \<Longrightarrow> trim_prefix (amp ps) ''&'' = (case ps of [] \<Rightarrow> [] | p # ps' \<Rightarrow> p @ amp ps')"
  by (cases ps) (simp_all add: trim_prefix_def has_prefix_def)

text \<open>The reference: the parameters between ampersands, without those that carry the key.\<close>

lemma strip_query_params:
  assumes "\<not> has_prefix q ''&''"
  shows "stripProfileExtraQuery q = join_with ''&'' (filter keep_param (split_on CHR ''&'' q))"
proof -
  obtain p ps where s: "split_on CHR ''&'' q = p # ps" by (cases "split_on CHR ''&'' q") auto
  have na: "\<forall>p'\<in>set (p # ps). CHR ''&'' \<notin> set p'" using split_on_no_sep [of "CHR ''&''" q] s by simp
  have q: "q = p @ amp ps" using join_split_on [of "CHR ''&''" q] by (simp only: s join_amp)
  have join: "join_with ''&'' qs = (case qs of [] \<Rightarrow> [] | p # ps \<Rightarrow> p @ amp ps)" for qs
    by (cases qs) (simp_all only: join_amp list.case join_with.simps)
  show ?thesis
  proof (cases "p = []")
    case True
    with q assms have "ps = []" by (cases ps) (auto simp: has_prefix_def)
    moreover have "stripProfileExtraQuery [] = []"
      by (simp add: stripProfileExtraQuery_def rx_replace_all_def rx_replace_from.simps [of _ _ _ "[]"]
          rx_here_def extra_ways trim_prefix_def)
    ultimately show ?thesis using True q s by (simp add: keep_param_def has_prefix_def)
  next
    case False
    have nah: "\<not> has_prefix (p @ amp qs) ''&''" for qs using na False by (cases p) (auto simp: has_prefix_def)
    have "stripProfileExtraQuery q =
        trim_prefix ((if keep_param p then p else []) @ amp (filter keep_param ps)) ''&''"
      unfolding q stripProfileExtraQuery_def replace_query [OF na False] ..
    also have "\<dots> = join_with ''&'' (filter keep_param (p # ps))"
    proof (cases "keep_param p")
      case True
      with nah show ?thesis by (simp add: join trim_prefix_def)
    next
      case False
      with trim_amp [of "filter keep_param ps"] na show ?thesis by (simp add: join)
    qed
    finally show ?thesis by (simp add: s)
  qed
qed

end
