(* ===== verification/ClientFront.thy ===== *)
theory ClientFront
  imports ClientSni ClientProxy
begin

text \<open>
  The tunnel to PMS, the listener that feeds classified connections to the HTTP server, and the start-up of clientfix
  (\<open>src/clientfix/cmd/clientfix/sni.go\<close>, \<open>main.go\<close>). The two copy loops of a tunnel and the goroutines around the
  listener interleave, so both are step relations over a shared state.
\<close>

section \<open>The tunnel\<close>

text \<open>Each direction reads a piece and writes it before it reads again. \<open>tn_pms\<close> is what PMS has still to send, in
  pieces; \<open>tn_up\<close> and \<open>tn_down\<close> are what has been written to PMS and to the client.\<close>

record tunnel =
  tn_client :: peeked
  tn_up_buf :: "byte list"
  tn_up :: "byte list"
  tn_up_end :: bool
  tn_pms :: "byte list list"
  tn_down_buf :: "byte list"
  tn_down :: "byte list"
  tn_down_end :: bool
  tn_failed :: bool
  tn_closed :: bool

definition passthrough :: "bool \<Rightarrow> peeked \<Rightarrow> byte list list \<Rightarrow> tunnel option" where
  "passthrough dialled pk pms =
     (if \<not> dialled then None
      else Some \<lparr>tn_client = pk, tn_up_buf = [], tn_up = [], tn_up_end = False, tn_pms = pms, tn_down_buf = [], tn_down = [],
        tn_down_end = False, tn_failed = False, tn_closed = False\<rparr>)"

text \<open>The buffer of \<open>io.Copy\<close>.\<close>

definition copy_size :: nat where
  "copy_size = 32 * 1024"

text \<open>The steps: the two directions read, write, end at the end of their input or fail (behind a part of the piece), and the first end
  closes both connections.\<close>

inductive tunnel_step :: "tunnel \<Rightarrow> tunnel \<Rightarrow> bool" where
  up_read: "\<not> tn_closed t \<Longrightarrow> \<not> tn_up_end t \<Longrightarrow> tn_up_buf t = [] \<Longrightarrow> pk_read copy_size (tn_client t) = (bs, pk)
    \<Longrightarrow> tunnel_step t (t\<lparr>tn_client := pk, tn_up_buf := bs\<rparr>)"
| up_write: "\<not> tn_closed t \<Longrightarrow> \<not> tn_up_end t \<Longrightarrow> tunnel_step t (t\<lparr>tn_up := tn_up t @ tn_up_buf t, tn_up_buf := []\<rparr>)"
| up_eof: "\<not> tn_closed t \<Longrightarrow> \<not> tn_up_end t \<Longrightarrow> tn_up_buf t = [] \<Longrightarrow> replay (tn_client t) = [] \<Longrightarrow> tunnel_step t (t\<lparr>tn_up_end := True\<rparr>)"
| up_error: "\<not> tn_closed t \<Longrightarrow> \<not> tn_up_end t \<Longrightarrow> tunnel_step t
    (t\<lparr>tn_up := tn_up t @ take n (tn_up_buf t), tn_up_buf := drop n (tn_up_buf t), tn_up_end := True, tn_failed := True\<rparr>)"
| down_read: "\<not> tn_closed t \<Longrightarrow> \<not> tn_down_end t \<Longrightarrow> tn_down_buf t = [] \<Longrightarrow> tn_pms t = p # ps
    \<Longrightarrow> tunnel_step t (t\<lparr>tn_pms := (if length p \<le> copy_size then ps else drop copy_size p # ps), tn_down_buf := take copy_size p\<rparr>)"
| down_write: "\<not> tn_closed t \<Longrightarrow> \<not> tn_down_end t \<Longrightarrow> tunnel_step t (t\<lparr>tn_down := tn_down t @ tn_down_buf t, tn_down_buf := []\<rparr>)"
| down_eof: "\<not> tn_closed t \<Longrightarrow> \<not> tn_down_end t \<Longrightarrow> tn_down_buf t = [] \<Longrightarrow> concat (tn_pms t) = [] \<Longrightarrow> tunnel_step t (t\<lparr>tn_down_end := True\<rparr>)"
| down_error: "\<not> tn_closed t \<Longrightarrow> \<not> tn_down_end t \<Longrightarrow> tunnel_step t
    (t\<lparr>tn_down := tn_down t @ take n (tn_down_buf t), tn_down_buf := drop n (tn_down_buf t), tn_down_end := True, tn_failed := True\<rparr>)"
| close_both: "tn_up_end t \<or> tn_down_end t \<Longrightarrow> tunnel_step t (t\<lparr>tn_closed := True\<rparr>)"

text \<open>What a tunnel keeps: nothing is lost, invented or reordered between reading and writing, and it closes only
  when one direction is through or has failed.\<close>

definition tunnel_ok :: "byte list \<Rightarrow> byte list \<Rightarrow> tunnel \<Rightarrow> bool" where
  "tunnel_ok sent answer t \<longleftrightarrow>
     tn_up t @ tn_up_buf t @ replay (tn_client t) = sent
     \<and> tn_down t @ tn_down_buf t @ concat (tn_pms t) = answer
     \<and> (tn_up_end t \<longrightarrow> tn_failed t \<or> tn_up t = sent)
     \<and> (tn_down_end t \<longrightarrow> tn_failed t \<or> tn_down t = answer)
     \<and> (tn_closed t \<longrightarrow> tn_up_end t \<or> tn_down_end t)"

lemma tunnel_start: "passthrough dialled pk pms = Some t \<Longrightarrow> tunnel_ok (replay pk) (concat pms) t"
  by (auto simp: passthrough_def tunnel_ok_def split: if_splits)

lemma tunnel_step_ok: "tunnel_step t u \<Longrightarrow> tunnel_ok sent answer t \<Longrightarrow> tunnel_ok sent answer u"
proof (induction rule: tunnel_step.induct)
  case (up_read t bs pk)
  then show ?case using read_replay [of copy_size "tn_client t"] by (auto simp: tunnel_ok_def)
next
  case (down_read t p ps)
  have "take copy_size p @ concat (if length p \<le> copy_size then ps else drop copy_size p # ps) = concat (p # ps)" by simp
  with down_read show ?case by (simp add: tunnel_ok_def)
qed (auto simp: tunnel_ok_def)

inductive tunnel_run :: "tunnel \<Rightarrow> tunnel \<Rightarrow> bool" where
  stay: "tunnel_run t t"
| steps: "tunnel_run t u \<Longrightarrow> tunnel_step u v \<Longrightarrow> tunnel_run t v"

lemma tunnel_run_ok: "tunnel_run t u \<Longrightarrow> tunnel_ok sent answer t \<Longrightarrow> tunnel_ok sent answer u"
  by (induction rule: tunnel_run.induct) (auto intro: tunnel_step_ok)

text \<open>The first end closes both sides: when the client half-closes behind its last byte, what PMS has not sent yet
  never arrives.\<close>

definition half_closed :: tunnel where
  "half_closed = \<lparr>tn_client = \<lparr>pk_buf = [], pk_conn = []\<rparr>, tn_up_buf = [], tn_up = [], tn_up_end = False, tn_pms = [[1]],
     tn_down_buf = [], tn_down = [], tn_down_end = False, tn_failed = False, tn_closed = False\<rparr>"

lemma half_close_loses_answer:
  "passthrough True \<lparr>pk_buf = [], pk_conn = []\<rparr> [[1]] = Some half_closed
    \<and> tunnel_run half_closed (half_closed\<lparr>tn_up_end := True, tn_closed := True\<rparr>)
    \<and> tn_down (half_closed\<lparr>tn_up_end := True, tn_closed := True\<rparr>) = []"
proof -
  have "tunnel_step half_closed (half_closed\<lparr>tn_up_end := True\<rparr>)"
    by (rule up_eof) (simp_all add: half_closed_def replay_def)
  moreover have "tunnel_step (half_closed\<lparr>tn_up_end := True\<rparr>) (half_closed\<lparr>tn_up_end := True, tn_closed := True\<rparr>)"
    using close_both [of "half_closed\<lparr>tn_up_end := True\<rparr>"] by simp
  ultimately have "tunnel_run half_closed (half_closed\<lparr>tn_up_end := True, tn_closed := True\<rparr>)"
    by (blast intro: tunnel_run.intros)
  then show ?thesis by (simp add: passthrough_def half_closed_def)
qed

section \<open>The listener of classified connections\<close>

text \<open>A connection is its number. A push waits until an accept takes its connection or the listener is closed, when it closes the connection.
  \<open>ChanDrop\<close> is the branch of the select that sees the closed channel.\<close>

record chan_listener =
  cl_waiting :: "nat list"
  cl_accepted :: "nat list"
  cl_dropped :: "nat list"
  cl_closed :: bool

definition newChanListener :: "chan_listener" where
  "newChanListener = \<lparr>cl_waiting = [], cl_accepted = [], cl_dropped = [], cl_closed = False\<rparr>"

datatype chan_event = ChanPush nat | ChanAccept nat | ChanDrop nat | ChanClose

fun chan_step :: "chan_event \<Rightarrow> chan_listener \<Rightarrow> chan_listener" where
  "chan_step (ChanPush c) s = s\<lparr>cl_waiting := cl_waiting s @ [c]\<rparr>"
| "chan_step (ChanAccept c) s =
     (if c \<in> set (cl_waiting s) then s\<lparr>cl_waiting := remove1 c (cl_waiting s), cl_accepted := cl_accepted s @ [c]\<rparr> else s)"
| "chan_step (ChanDrop c) s =
     (if cl_closed s \<and> c \<in> set (cl_waiting s)
      then s\<lparr>cl_waiting := remove1 c (cl_waiting s), cl_dropped := cl_dropped s @ [c]\<rparr> else s)"
| "chan_step ChanClose s = s\<lparr>cl_closed := True\<rparr>"

text \<open>No connection is lost: what was pushed waits, is accepted or is closed, and is closed only after the
  listener was.\<close>

lemma chan_step_keeps:
  "mset (cl_waiting (chan_step e s) @ cl_accepted (chan_step e s) @ cl_dropped (chan_step e s)) =
     mset (cl_waiting s @ cl_accepted s @ cl_dropped s) + (case e of ChanPush c \<Rightarrow> {#c#} | _ \<Rightarrow> {#})"
  by (cases e) (auto simp: mset_remove1 multiset_eq_iff)

lemma chan_keeps_connections:
  "mset (cl_waiting (fold chan_step es s) @ cl_accepted (fold chan_step es s) @ cl_dropped (fold chan_step es s)) =
     mset (cl_waiting s @ cl_accepted s @ cl_dropped s) + mset (List.map_filter (\<lambda>e. case e of ChanPush c \<Rightarrow> Some c | _ \<Rightarrow> None) es)"
proof (induction es arbitrary: s)
  case (Cons e es)
  show ?case unfolding fold_simps(2) o_apply
    unfolding Cons.IH [of "chan_step e s"] chan_step_keeps [of e s] by (cases e) (simp_all add: List.map_filter_simps)
qed (simp add: List.map_filter_simps)

interpretation chan: machine "chan_step :: chan_event \<Rightarrow> chan_listener \<Rightarrow> chan_listener" "\<lambda>s. cl_dropped s \<noteq> [] \<longrightarrow> cl_closed s"
proof unfold_locales
  fix s :: "chan_listener" and e
  show "cl_dropped s \<noteq> [] \<longrightarrow> cl_closed s \<Longrightarrow> cl_dropped (chan_step e s) \<noteq> [] \<longrightarrow> cl_closed (chan_step e s)"
    by (cases e) auto
qed

section \<open>Start-up\<close>

text \<open>Durations in nanoseconds; \<open>parse_duration\<close> and \<open>parse_url\<close> are Go's. A URL is its scheme and its host.\<close>

definition fix_envOr :: "env \<Rightarrow> string \<Rightarrow> string \<Rightarrow> string" where
  "fix_envOr en k dflt = (case map_of en k of Some v \<Rightarrow> if v \<noteq> [] then v else dflt | None \<Rightarrow> dflt)"

definition envDur :: "(string \<Rightarrow> int option) \<Rightarrow> env \<Rightarrow> string \<Rightarrow> int \<Rightarrow> int" where
  "envDur parse_duration en k dflt =
     (let v = fix_envOr en k []
      in if v = [] then dflt else (case parse_duration v of Some d \<Rightarrow> d | None \<Rightarrow> dflt))"

record clientfix_config =
  fx_listen :: string
  fx_upstream :: "string \<times> string"
  fx_timeout :: int
  fx_mode :: string

datatype front = PlainFront clientfix_config | SniFront clientfix_config string string int

definition fix_second :: int where
  "fix_second = 10 ^ 9"

definition clientfix_main :: "(string \<Rightarrow> int option) \<Rightarrow> (string \<Rightarrow> (string \<times> string) option) \<Rightarrow> (string \<Rightarrow> string \<Rightarrow> bool) \<Rightarrow> env
    \<Rightarrow> string + front" where
  "clientfix_main parse_duration parse_url cert_loads en =
     (let raw = fix_envOr en ''CLIENTFIX_PMS_UPSTREAM'' []
      in if raw = [] then Inl ''CLIENTFIX_PMS_UPSTREAM required''
      else case parse_url raw of
        None \<Rightarrow> Inl ''invalid CLIENTFIX_PMS_UPSTREAM''
      | Some u \<Rightarrow>
          (let cfg = \<lparr>fx_listen = fix_envOr en ''CLIENTFIX_LISTEN_ADDR'' '':8080'', fx_upstream = u,
                 fx_timeout = envDur parse_duration en ''CLIENTFIX_UPSTREAM_TIMEOUT'' (30 * fix_second),
                 fx_mode = fix_envOr en ''CLIENTFIX_DECISION_MODE'' ''strip''\<rparr>;
               cert = fix_envOr en ''CLIENTFIX_TLS_CERT'' []; key = fix_envOr en ''CLIENTFIX_TLS_KEY'' []
           in if cert = [] \<or> key = [] then Inr (PlainFront cfg)
              else if \<not> cert_loads cert key then Inl ''load TLS cert''
              else Inr (SniFront cfg (fix_envOr en ''CLIENTFIX_PMS_PASSTHROUGH_ADDR'' (snd u))
                     (fix_envOr en ''CLIENTFIX_TLS_SNI_SUFFIX'' ''.boeye.net'') (envDur parse_duration en ''CLIENTFIX_TLS_RELOAD'' (3600 * fix_second)))))"

text \<open>Where the mux sends a request: the health check, or the proxy.\<close>

definition clientfix_mux :: "string \<Rightarrow> bool" where
  "clientfix_mux path \<longleftrightarrow> path = ''/healthz''"

text \<open>Without both files of the certificate the front is plain, whatever else is set.\<close>

lemma plain_without_certificate:
  "fix_envOr en ''CLIENTFIX_TLS_CERT'' [] = [] \<or> fix_envOr en ''CLIENTFIX_TLS_KEY'' [] = [] \<Longrightarrow>
    clientfix_main pd pu cl en \<noteq> Inr (SniFront cfg addr suf reload)"
  by (auto simp: clientfix_main_def Let_def split: option.split)

end
