(* ===== verification/RelayMain.thy ===== *)
theory RelayMain
  imports GoRegexp GoHttp
begin

text \<open>
  The relay beside the media server (\<open>src/shim/cmd/relay/main.go\<close>): which method, query, headers and body
  it forwards, and the times it writes into the segment list. \<open>net/http\<close> and the connection to the media
  server are left out; a read of the request body that fails is an argument.
\<close>

section \<open>Paths\<close>

text \<open>\<open>^/video/:/transcode/session/[^/]+/[^/]+/\<close> and the last component.\<close>

definition relay_path :: "string \<Rightarrow> rx" where
  "relay_path leaf =
     rseq [RBol, lit ''/video/:/transcode/session/'', rplus (rnone ''/''), RLit CHR ''/'', rplus (rnone ''/''),
       lit leaf, REol]"

definition progressPathRE :: rx where
  "progressPathRE = relay_path ''/progress''"

definition manifestPathRE :: rx where
  "manifestPathRE = relay_path ''/manifest''"

section \<open>The segment list\<close>

definition number_chars :: "(char \<times> char) list" where
  "number_chars = [(CHR ''0'', CHR ''9''), (CHR ''.'', CHR ''.'')]"

text \<open>\<open>^(media-(\d+)\.ts),([0-9.]+),([0-9.]+)\s*$\<close>.\<close>

definition csvRowRE :: rx where
  "csvRowRE =
     rseq [RBol, RGrp 1 (rseq [lit ''media-'', RGrp 2 (rplus rdigit), lit ''.ts'']), RLit CHR '','',
       RGrp 3 (rplus (RSet False number_chars)), RLit CHR '','', RGrp 4 (rplus (RSet False number_chars)),
       RStar (rchars [CHR 0x20, CHR 0x09, CHR 0x0A, CHR 0x0C, CHR 0x0D]), REol]"

text \<open>\<open>idx+1\<close> on a Go int.\<close>

definition go_succ :: "int \<Rightarrow> int" where
  "go_succ i = (if i = 2 ^ 63 - 1 then - (2 ^ 63) else i + 1)"

definition csv_row :: "go_float \<Rightarrow> string \<Rightarrow> string" where
  "csv_row segTime line =
     (if line = [] then line
      else case rx_submatch csvRowRE line of
             None \<Rightarrow> line
           | Some m \<Rightarrow>
               (case atoi (m 2) of
                  None \<Rightarrow> line
                | Some idx \<Rightarrow> m 1 @ '','' @ format_fixed 6 (of_int idx * segTime)
                    @ '','' @ format_fixed 6 (of_int (go_succ idx) * segTime)))"

definition rewriteSegmentListCSV :: "string \<Rightarrow> go_float \<Rightarrow> string" where
  "rewriteSegmentListCSV body segTime =
     join_with [CHR 0x0A] (map (csv_row segTime) (split_on CHR 0x0A body))"

section \<open>Forwarding\<close>

text \<open>The body of the forwarded request: the request's own stream, or bytes.\<close>

datatype relay_body = Stream | Bytes string

record forwarded =
  fw_method :: string
  fw_path :: string
  fw_query :: string
  fw_hdr :: header
  fw_body :: relay_body
  fw_detached :: bool

definition seg_time_key :: string where
  "seg_time_key = ''scaleplex_seg_time''"

definition hop_headers :: "string list" where
  "hop_headers = [''Connection'', ''Keep-Alive'', ''Te'', ''Trailer'', ''Transfer-Encoding'', ''Upgrade'']"

text \<open>\<open>body\<close> is what \<open>io.ReadAll\<close> returns, \<open>None\<close> when it fails. A forward of a manifest is detached from
  the context of the request.\<close>

definition relay_handle :: "httpreq \<Rightarrow> string option \<Rightarrow> forwarded" where
  "relay_handle r body =
     (let query = parse_query (hq_query r);
          segTimeStr = val_get query seg_time_key;
          manifest = rx_matches manifestPathRE (hq_path r)
      in \<lparr>fw_method = (if hq_method r = ''POST'' \<and> rx_matches progressPathRE (hq_path r) then ''PUT'' else hq_method r),
          fw_path = hq_path r,
          fw_query = (if segTimeStr \<noteq> [] then encode_values (val_del seg_time_key query) else hq_query r),
          fw_hdr = filter (\<lambda>(k, vs). k \<notin> set hop_headers \<and> vs \<noteq> []) (hq_hdr r),
          fw_body =
            (if hq_method r = ''POST'' \<and> manifest \<and> segTimeStr \<noteq> []
             then (case body of
                     None \<Rightarrow> Stream
                   | Some b \<Rightarrow>
                       Bytes (case parse_float segTimeStr of
                                Some t \<Rightarrow> if 0 < t then rewriteSegmentListCSV b t else b
                              | None \<Rightarrow> b))
             else Stream),
          fw_detached = manifest\<rparr>)"

text \<open>The answer: PMS's, or 502 when the forward fails.\<close>

definition relay_answer :: "httpresp option \<Rightarrow> httpresp" where
  "relay_answer resp = (case resp of Some p \<Rightarrow> p | None \<Rightarrow> \<lparr>hs_status = 502, hs_hdr = [], hs_body = []\<rparr>)"

definition relay_config :: "env \<Rightarrow> (int \<times> int) option" where
  "relay_config en =
     (let port = (\<lambda>k d. let v = (case map_of en k of Some v \<Rightarrow> v | None \<Rightarrow> [])
                        in case atoi (if v \<noteq> [] then v else d) of Some n \<Rightarrow> n | None \<Rightarrow> 0);
          listenPort = port ''LOCAL_RELAY_PORT'' ''32499''; pmsPort = port ''PMS_PORT'' ''32400''
      in if listenPort = pmsPort then None else Some (listenPort, pmsPort))"

section \<open>Rows\<close>

text \<open>A row as a segment muxer writes it: the number, two times and white space at the end.\<close>

definition is_num :: "string \<Rightarrow> bool" where
  "is_num s \<longleftrightarrow> s \<noteq> [] \<and> list_all (\<lambda>c. is_digit c \<or> c = CHR ''.'') s"

definition csv_text :: "string \<Rightarrow> string \<Rightarrow> string \<Rightarrow> string \<Rightarrow> string" where
  "csv_text n a b w = ''media-'' @ n @ ''.ts,'' @ a @ '','' @ b @ w"

definition row_ok :: "string \<Rightarrow> string \<Rightarrow> string \<Rightarrow> string \<Rightarrow> bool" where
  "row_ok n a b w \<longleftrightarrow> n \<noteq> [] \<and> list_all is_digit n \<and> is_num a \<and> is_num b
     \<and> list_all (\<lambda>c. c \<in> set [CHR 0x20, CHR 0x09, CHR 0x0C, CHR 0x0D]) w"

lemma in_digits: "in_class False [(CHR ''0'', CHR ''9'')] c = is_digit c"
  by (simp add: in_class_def is_digit_def Let_def)

lemma in_number: "in_class False number_chars c \<longleftrightarrow> is_digit c \<or> c = CHR ''.''"
proof -
  have "(of_char c :: nat) = 46 \<longleftrightarrow> c = CHR ''.''"
    using of_char_eq_iff [of c "CHR ''.''"] by simp
  then show ?thesis by (auto simp: in_class_def is_digit_def Let_def number_chars_def)
qed

lemma in_spaces:
  "in_class False (map (\<lambda>c. (c, c)) cs) c \<longleftrightarrow> c \<in> set cs"
proof -
  have "in_class False (map (\<lambda>c. (c, c)) cs) c \<longleftrightarrow> (\<exists>d\<in>set cs. (of_char c :: nat) = of_char d)"
    by (auto simp: in_class_def list_ex_iff)
  then show ?thesis by (simp only: of_char_eq_iff) auto
qed

lemma csv_match:
  assumes "row_ok n a b w"
  shows "\<exists>m. rx_submatch csvRowRE (csv_text n a b w) = Some m \<and> m 1 = ''media-'' @ n @ ''.ts'' \<and> m 2 = n"
proof -
  let ?sp = "[CHR 0x20, CHR 0x09, CHR 0x0A, CHR 0x0C, CHR 0x0D]"
  let ?num = "rplus (RSet False number_chars)"
  have d: "prefers (rplus rdigit) (False, n @ ''.ts'' @ t, c) (False, ''.ts'' @ t, c)" for t c
    using assms unfolding rdigit_def
    by (intro prefers_plus) (auto simp: row_ok_def list_all_iff in_digits is_digit_def Let_def)
  have num: "prefers ?num (False, x @ t, c) (False, t, c)" if "is_num x" "t = [] \<or> \<not> in_class False number_chars (hd t)" for x t c
    using that by (intro prefers_plus) (auto simp: is_num_def list_all_iff in_number)
  have comma: "\<not> in_class False number_chars CHR '',''" by (simp add: in_number is_digit_def)
  have w_num: "w = [] \<or> \<not> in_class False number_chars (hd w)"
    using assms by (cases w) (auto simp: row_ok_def in_number is_digit_def)
  have nums: "is_num a" "is_num b" using assms by (simp_all add: row_ok_def)
  let ?name = "rseq [lit ''media-'', RGrp 2 (rplus rdigit), lit ''.ts'']"
  have name: "prefers ?name (True, (''media-'' @ n @ ''.ts'') @ t, []) (False, t, [(2, n)])" for t
  proof -
    have 1: "prefers (lit ''media-'') (True, ''media-'' @ n @ ''.ts'' @ t, []) (False, n @ ''.ts'' @ t, [])"
      using prefers_lit [of "''media-''" True "n @ ''.ts'' @ t" "[]"] by simp
    have 2: "prefers (RGrp 2 (rplus rdigit)) (False, n @ ''.ts'' @ t, []) (False, ''.ts'' @ t, [(2, n)])"
      by (rule prefers_grp [OF d])
    have 3: "prefers (lit ''.ts'') (False, ''.ts'' @ t, [(2, n)]) (False, t, [(2, n)])"
      using prefers_lit [of "''.ts''" False t "[(2, n)]"] by simp
    from prefers_seq [OF 1 prefers_seq [OF 2 3]] show ?thesis by (simp del: lit.simps)
  qed
  let ?g1 = "(1, ''media-'' @ n @ ''.ts'')"
  let ?c1 = "[?g1, (2, n)]"
  let ?c3 = "(3, a) # ?c1"
  let ?c4 = "(4, b) # ?c3"
  have s: "csv_text n a b w = (''media-'' @ n @ ''.ts'') @ '','' @ a @ '','' @ b @ w"
    by (simp add: csv_text_def)
  have w: "prefers (RStar (rchars ?sp)) (False, w @ [], ?c4) (False \<and> w = [], [], ?c4)"
    unfolding rchars_def using assms
    by (intro prefers_star) (auto simp: row_ok_def list_all_iff in_spaces [of ?sp, simplified])
  have c: "prefers (RLit CHR '','') (False, '','' @ t, cs) (False, t, cs)" for t cs
    using prefers_char [of "CHR '',''" False t cs] by simp
  have g1: "prefers (RGrp 1 ?name) (True, (''media-'' @ n @ ''.ts'') @ '','' @ a @ '','' @ b @ w, [])
      (False, '','' @ a @ '','' @ b @ w, ?c1)"
    by (rule prefers_grp [OF name])
  have g3: "prefers (RGrp 3 ?num) (False, a @ '','' @ b @ w, ?c1) (False, '','' @ b @ w, ?c3)"
    by (rule prefers_grp [OF num [OF nums(1)]]) (simp add: comma)
  have g4: "prefers (RGrp 4 ?num) (False, b @ w, ?c3) (False, w, ?c4)"
    by (rule prefers_grp [OF num [OF nums(2) w_num]])
  have w': "prefers (RSeq (RStar (rchars ?sp)) REol) (False, w, ?c4) (False, [], ?c4)"
    using prefers_seq [OF w prefers_eol] by simp
  have "prefers csvRowRE (True, csv_text n a b w, []) (False, [], ?c4)"
    unfolding csvRowRE_def s
    using prefers_seq [OF prefers_bol prefers_seq [OF g1 prefers_seq [OF c prefers_seq [OF g3
      prefers_seq [OF c prefers_seq [OF g4 w']]]]]]
    by (simp only: rseq.simps)
  from prefers_submatch [OF this] show ?thesis by (auto simp: cap_def)
qed

section \<open>The rewritten list\<close>

lemma digit_num: "is_digit c \<Longrightarrow> c \<noteq> CHR 0x0A"
  by (auto simp: is_digit_def)

lemma format_num: "0 \<le> x \<Longrightarrow> is_num (format_fixed 6 x)"
  using utoa_digits
  by (auto simp: is_num_def format_fixed_def pad_left_def Let_def list_all_iff is_digit_def)

text \<open>A whole number of seconds prints with six zeros.\<close>

lemma format_fixed_nat: "format_fixed 6 (of_nat m) = utoa m @ ''.000000''"
proof -
  have "rat_of_nat m * 10 ^ 6 = of_int (int (m * 10 ^ 6))" by simp
  then have r: "round_half_even (\<bar>rat_of_nat m\<bar> * 10 ^ 6) = int (m * 10 ^ 6)"
    by (simp only: round_half_even_def Let_def abs_of_nat floor_of_int) simp
  have z: "pad_left 6 (CHR ''0'') (utoa 0) = ''000000''" by code_simp
  show ?thesis
    unfolding format_fixed_def Let_def r nat_int by (simp add: z)
qed

lemma num_no_newline: "is_num s \<Longrightarrow> CHR 0x0A \<notin> set s"
  by (auto simp: is_num_def list_all_iff is_digit_def)

lemma format_no_newline: "CHR 0x0A \<notin> set (format_fixed 6 x)"
  using num_no_newline [OF format_num, of "\<bar>x\<bar>"] by (auto simp: format_fixed_def Let_def)

lemma csv_row_no_newline:
  assumes "CHR 0x0A \<notin> set l"
  shows "CHR 0x0A \<notin> set (csv_row t l)"
proof (cases "rx_submatch csvRowRE l")
  case (Some m)
  then have "CHR 0x0A \<notin> set (m 1)" using rx_submatch_caps [OF Some] assms by blast
  then show ?thesis
    using assms Some by (auto simp: csv_row_def format_no_newline split: option.split)
qed (use assms in \<open>simp add: csv_row_def\<close>)

text \<open>Line by line, and no line is added or lost.\<close>

lemma csv_lines:
  "split_on CHR 0x0A (rewriteSegmentListCSV body t) = map (csv_row t) (split_on CHR 0x0A body)"
  unfolding rewriteSegmentListCSV_def
  by (rule split_on_join) (auto dest: split_on_no_sep [rule_format] csv_row_no_newline)

text \<open>The row of chunk \<open>k\<close>.\<close>

definition chunk_row :: "go_float \<Rightarrow> string \<Rightarrow> nat \<Rightarrow> string" where
  "chunk_row t n k = csv_text n (format_fixed 6 (of_nat k * t)) (format_fixed 6 (of_nat (k + 1) * t)) []"

lemma csv_row_chunk:
  assumes "row_ok n a b w" "parse_nat n = Some k" "int k < 2 ^ 63 - 1"
  shows "csv_row t (csv_text n a b w) = chunk_row t n k"
proof -
  have "n \<noteq> []" "is_digit (hd n)" using assms(1) by (cases n; simp add: row_ok_def)+
  then have "atoi n = Some (int k)"
    using assms(2,3) digit_not_sign [of "hd n"] by (cases n) (auto simp: atoi_def)
  moreover have "csv_text n a b w \<noteq> []" by (simp add: csv_text_def)
  moreover have "go_succ (int k) = int (k + 1)" using assms(3) by (simp add: go_succ_def)
  moreover obtain m where "rx_submatch csvRowRE (csv_text n a b w) = Some m" "m 1 = ''media-'' @ n @ ''.ts''" "m 2 = n"
    using csv_match [OF assms(1)] by blast
  ultimately show ?thesis
    by (simp add: csv_row_def chunk_row_def csv_text_def)
qed

text \<open>A rewritten row is a row again, with the same number: a second pass changes nothing.\<close>

lemma chunk_row_again:
  assumes "row_ok n a b w" "parse_nat n = Some k" "int k < 2 ^ 63 - 1" "0 \<le> t"
  shows "csv_row t (chunk_row t n k) = chunk_row t n k"
  unfolding chunk_row_def
  by (rule csv_row_chunk [unfolded chunk_row_def, OF _ assms(2,3)])
    (use assms format_num in \<open>simp add: row_ok_def\<close>)

end
