(* ===== verification/ShimMain.thy ===== *)
theory ShimMain
  imports WorkerStream GoRegexp GoHttp
begin

text \<open>
  The shim that stands in for \<open>Plex Transcoder\<close> (\<open>src/shim/cmd/shim/main.go\<close>): the task it posts, the kill
  on a signal, and how it takes the worker's stream apart again. What the shim reads from outside (its
  environment, the preferences of the media server, the answers over HTTP) are arguments. Writes to the
  standard streams are taken to succeed; their errors are ignored by the code.
\<close>

section \<open>Environment\<close>

definition shim_envOr :: "env \<Rightarrow> string \<Rightarrow> string \<Rightarrow> string" where
  "shim_envOr en k dflt = (case map_of en k of Some v \<Rightarrow> if v \<noteq> [] then v else dflt | None \<Rightarrow> dflt)"

definition shim_envBool :: "env \<Rightarrow> string \<Rightarrow> bool" where
  "shim_envBool en k \<longleftrightarrow> map_of en k = Some ''true'' \<or> map_of en k = Some ''1''"

definition envBoolDefault :: "env \<Rightarrow> string \<Rightarrow> bool \<Rightarrow> bool" where
  "envBoolDefault en k dflt = (case map_of en k of None \<Rightarrow> dflt | Some v \<Rightarrow> v = ''true'' \<or> v = ''1'')"

text \<open>\<open>readLocalPlexToken\<close>: \<open>readFile\<close> is \<open>None\<close> on an error. The token is the text between the quotes.\<close>

definition rePlexOnlineToken :: rx where
  "rePlexOnlineToken = rseq [lit ''PlexOnlineToken='', RLit (CHR 0x22), RGrp 1 (rplus (rnone [CHR 0x22])), RLit (CHR 0x22)]"

definition reShimSubscription :: rx where
  "reShimSubscription = rseq [lit ''myPlexSubscription='', RLit (CHR 0x22), RGrp 1 rdigit, RLit (CHR 0x22)]"

definition readLocalPlexToken :: "env \<Rightarrow> (string \<Rightarrow> string option) \<Rightarrow> string" where
  "readLocalPlexToken en readFile =
     (case readFile (shim_envOr en ''SCALEPLEX_PMS_PREFS''
          ''/config/Library/Application Support/Plex Media Server/Preferences.xml'') of
        None \<Rightarrow> []
      | Some b \<Rightarrow> (case rx_submatch rePlexOnlineToken b of None \<Rightarrow> [] | Some m \<Rightarrow> m 1))"

text \<open>\<open>get\<close> is the local GET: no answer, or the status and what could be read of the body.\<close>

definition passActiveFromLocalAPI ::
    "env \<Rightarrow> (string \<Rightarrow> string option) \<Rightarrow> (string \<Rightarrow> (int \<times> string option) option) \<Rightarrow> string" where
  "passActiveFromLocalAPI en readFile get =
     (let tok = readLocalPlexToken en readFile
      in if tok = [] then []
         else
           (case get (''http://127.0.0.1:'' @ shim_envOr en ''SCALEPLEX_PMS_LOCAL_PORT'' ''32400''
               @ ''/?X-Plex-Token='' @ query_escape tok) of
              None \<Rightarrow> []
            | Some (status, body) \<Rightarrow>
                if status \<noteq> 200 then []
                else (case body of
                        None \<Rightarrow> []
                      | Some b \<Rightarrow> (case rx_submatch reShimSubscription b of None \<Rightarrow> [] | Some m \<Rightarrow> m 1))))"

text \<open>\<open>collectEnv\<close>: the environment as a map, the base URL of the relay and the state of the Pass. \<open>environ\<close>
  are the raw entries; \<open>pass\<close> is \<open>passActiveFromLocalAPI()\<close>.\<close>

definition environ_map :: "string list \<Rightarrow> env" where
  "environ_map environ =
     fold (\<lambda>kv out. case str_cut kv (CHR ''='') of None \<Rightarrow> out | Some (k, v) \<Rightarrow> AList.update k v out) environ []"

definition collectEnv :: "string list \<Rightarrow> string \<Rightarrow> env" where
  "collectEnv environ pass =
     (let out = environ_map environ;
          get = (\<lambda>k d. case map_of out k of Some v \<Rightarrow> if v \<noteq> [] then v else d | None \<Rightarrow> d);
          out = (if map_of out ''SCALEPLEX_PMS_BASE_URL'' \<noteq> None then out
                 else AList.update ''SCALEPLEX_PMS_BASE_URL''
                   (''http://'' @ get ''PMS_SERVICE'' ''127.0.0.1'' @ '':'' @ get ''LOCAL_RELAY_PORT'' ''32499'') out)
      in if map_of out ''SCALEPLEX_PASS_ACTIVE'' \<noteq> None \<or> pass = [] then out
         else AList.update ''SCALEPLEX_PASS_ACTIVE'' pass out)"

section \<open>The session id\<close>

definition id_char :: "char \<Rightarrow> bool" where
  "id_char c \<longleftrightarrow>
     in_class False [(CHR ''a'', CHR ''z''), (CHR ''A'', CHR ''Z''), (CHR ''0'', CHR ''9''), (CHR ''-'', CHR ''-''), (CHR ''_'', CHR ''_'')] c"

definition sanitize :: "string \<Rightarrow> string" where
  "sanitize s = map (\<lambda>c. if id_char c then c else CHR ''_'') s"

fun input_arg :: "argv \<Rightarrow> string" where
  "input_arg (a # b # rest) = (if a = ''-i'' then b else input_arg (b # rest))"
| "input_arg args = []"

text \<open>\<open>hex.EncodeToString\<close>.\<close>

definition hex_lower :: "byte list \<Rightarrow> string" where
  "hex_lower b = concat (map (\<lambda>x. [''0123456789abcdef'' ! (unat x div 16), ''0123456789abcdef'' ! (unat x mod 16)]) b)"

definition deriveSessionID :: "argv \<Rightarrow> nat \<Rightarrow> byte list \<Rightarrow> string" where
  "deriveSessionID args pid nonce =
     (let inputPath = input_arg args;
          base = (if inputPath \<noteq> [] then take 32 (sanitize (path_base inputPath)) else ''session'')
      in base @ ''-'' @ utoa pid @ ''-'' @ hex_lower nonce)"

section \<open>Taking the stream apart\<close>

text \<open>\<open>splitLinesKeepDelim\<close>: \<open>cur\<close> is what was read since \<open>start\<close>.\<close>

fun split_keep :: "string \<Rightarrow> string \<Rightarrow> string list \<times> string" where
  "split_keep cur [] = ([], cur)"
| "split_keep cur (c # s) =
     (if is_eol c then (case split_keep [] s of (ls, t) \<Rightarrow> ((cur @ [c]) # ls, t)) else split_keep (cur @ [c]) s)"

definition splitLinesKeepDelim :: "string \<Rightarrow> string list \<times> string" where
  "splitLinesKeepDelim data = split_keep [] data"

record shim_out =
  so_stdout :: string
  so_stderr :: string
  so_exit :: int

definition stdoutPrefix :: string where "stdoutPrefix = ''[stdout] ''"
definition stderrPrefix :: string where "stderrPrefix = ''[stderr] ''"
definition eventPrefix :: string where "eventPrefix = ''[scaleplex] ''"

definition routeLine :: "string \<Rightarrow> shim_out \<Rightarrow> shim_out" where
  "routeLine line o1 =
     (if has_prefix line stdoutPrefix
      then o1\<lparr>so_stdout := so_stdout o1 @ drop (length stdoutPrefix) line\<rparr>
      else if has_prefix line stderrPrefix
      then o1\<lparr>so_stderr := so_stderr o1 @ drop (length stderrPrefix) line\<rparr>
      else if has_prefix line eventPrefix
      then (let o2 = o1\<lparr>so_stderr := so_stderr o1 @ line\<rparr>
            in if str_contains line ''ffmpeg exit: success'' then o2\<lparr>so_exit := 0\<rparr>
               else if str_contains line ''ffmpeg exit:'' then o2\<lparr>so_exit := 1\<rparr> else o2)
      else o1\<lparr>so_stderr := so_stderr o1 @ line\<rparr>)"

text \<open>One read of the response; \<open>carry\<close> is the unfinished line.\<close>

definition demux_read :: "string \<Rightarrow> string \<times> shim_out \<Rightarrow> string \<times> shim_out" where
  "demux_read p st =
     (if p = [] then st
      else (case splitLinesKeepDelim (fst st @ p) of (lines, t) \<Rightarrow> (t, fold routeLine lines (snd st))))"

definition streamAndDemultiplex :: "string list \<Rightarrow> shim_out" where
  "streamAndDemultiplex reads =
     (case fold demux_read reads ([], \<lparr>so_stdout = [], so_stderr = [], so_exit = 1\<rparr>) of
        (carry, out) \<Rightarrow> if carry \<noteq> [] then routeLine carry out else out)"

section \<open>The run\<close>

record shim_task =
  sh_session :: string
  sh_args :: argv
  sh_env :: env
  sh_cwd :: string
  sh_rewrite :: bool

definition shim_task_of :: "argv \<Rightarrow> string list \<Rightarrow> string \<Rightarrow> nat \<Rightarrow> byte list \<Rightarrow> string \<Rightarrow> shim_task" where
  "shim_task_of args environ cwd pid nonce pass =
     \<lparr>sh_session = deriveSessionID args pid nonce, sh_args = args, sh_env = collectEnv environ pass, sh_cwd = cwd,
      sh_rewrite = envBoolDefault (environ_map environ) ''SCALEPLEX_REWRITE'' True\<rparr>"

definition statusToExit :: "int \<Rightarrow> int" where
  "statusToExit code = (if code = 503 then 75 else if code = 400 then 64 else if code = 502 then 74 else 1)"

text \<open>The URL of \<open>killRemote\<close>, posted when a signal arrives.\<close>

definition killRemote :: "string \<Rightarrow> string \<Rightarrow> string" where
  "killRemote orchestratorURL sessionID = orchestratorURL @ ''/task/'' @ sessionID @ ''/kill''"

text \<open>What the POST of the task gives: a dial error, or a status and the reads of the body.\<close>

datatype post_reply = DialError string | PostReply int "string list"

definition shim_note :: "string \<Rightarrow> string" where
  "shim_note s = ''[scaleplex-shim] '' @ s @ [CHR 0x0A]"

definition shim_finish :: "string \<Rightarrow> post_reply \<Rightarrow> shim_out" where
  "shim_finish orchestratorURL reply =
     (case reply of
        DialError err \<Rightarrow>
          \<lparr>so_stdout = [], so_stderr = shim_note (''dial orchestrator '' @ orchestratorURL @ '': '' @ err), so_exit = 1\<rparr>
      | PostReply status reads \<Rightarrow>
          if status \<noteq> 200
          then \<lparr>so_stdout = [], so_stderr = shim_note (''orchestrator returned HTTP '' @ itoa status) @ concat reads,
                so_exit = statusToExit status\<rparr>
          else streamAndDemultiplex reads)"

section \<open>Cuts do not matter\<close>

abbreviation no_eol :: "string \<Rightarrow> bool" where
  "no_eol s \<equiv> list_all (\<lambda>c. \<not> is_eol c) s"

lemma split_keep_append:
  "split_keep cur (a @ b) =
     (let (l1, t1) = split_keep cur a; (l2, t2) = split_keep t1 b in (l1 @ l2, t2))"
  by (induction cur a rule: split_keep.induct) (simp_all add: Let_def case_prod_unfold)

lemma split_keep_tail:
  "no_eol cur \<Longrightarrow> no_eol (snd (split_keep cur s))"
proof (induction cur s rule: split_keep.induct)
  case (2 cur c s)
  then show ?case by (cases "is_eol c") (simp_all add: case_prod_unfold)
qed simp

lemma split_keep_carry:
  "no_eol cur \<Longrightarrow> split_keep [] (cur @ s) = split_keep cur s"
proof -
  have "no_eol cur \<Longrightarrow> split_keep x cur = ([], x @ cur)" for x
    by (induction cur arbitrary: x) simp_all
  then show "no_eol cur \<Longrightarrow> split_keep [] (cur @ s) = split_keep cur s"
    by (simp add: split_keep_append)
qed

lemma split_keep_concat: "concat (fst (split_keep cur s)) @ snd (split_keep cur s) = cur @ s"
  by (induction cur s rule: split_keep.induct) (simp_all add: case_prod_unfold)

definition no_line_yet :: "string \<times> shim_out \<Rightarrow> bool" where
  "no_line_yet st \<longleftrightarrow> no_eol (fst st)"

lemma demux_split:
  "no_line_yet st \<Longrightarrow> demux_read p st =
    (snd (split_keep (fst st) p), fold routeLine (fst (split_keep (fst st) p)) (snd st))"
proof (cases "p = []")
  case True
  then show ?thesis by (simp add: demux_read_def)
next
  case False
  moreover assume "no_line_yet st"
  ultimately show ?thesis
    by (simp add: demux_read_def splitLinesKeepDelim_def split_keep_carry no_line_yet_def case_prod_unfold)
qed

lemma demux_ok: "no_line_yet st \<Longrightarrow> no_line_yet (demux_read p st)"
  using split_keep_tail [of "fst st" p] by (simp add: demux_split) (simp add: no_line_yet_def)

interpretation shim: chunk_consumer demux_read no_line_yet
proof
  fix st :: "string \<times> shim_out" and p q :: string
  assume ok: "no_line_yet st"
  show "no_line_yet (demux_read p st)" by (rule demux_ok [OF ok])
  show "demux_read [] st = st" by (simp add: demux_read_def)
  show "demux_read (p @ q) st = demux_read q (demux_read p st)"
    by (simp only: demux_split [OF demux_ok [OF ok]])
      (simp add: demux_split [OF ok] split_keep_append Let_def case_prod_unfold)
qed

text \<open>What the shim does depends only on the bytes of the response: its lines in order, the last one
  possibly unfinished.\<close>

definition shim_init :: shim_out where
  "shim_init = \<lparr>so_stdout = [], so_stderr = [], so_exit = 1\<rparr>"

definition demux_text :: "string \<Rightarrow> shim_out \<Rightarrow> shim_out" where
  "demux_text s o1 =
     (case split_keep [] s of (ls, t) \<Rightarrow>
        (if t \<noteq> [] then routeLine t (fold routeLine ls o1) else fold routeLine ls o1))"

lemma demux_reads: "streamAndDemultiplex reads = demux_text (concat reads) shim_init"
proof -
  have "fold demux_read reads ([], shim_init) = demux_read (concat reads) ([], shim_init)"
    by (rule shim.any_chunks) (simp add: no_line_yet_def)
  also have "\<dots> = (snd (split_keep [] (concat reads)), fold routeLine (fst (split_keep [] (concat reads))) shim_init)"
    by (subst demux_split) (simp_all add: no_line_yet_def)
  finally show ?thesis
    by (simp add: streamAndDemultiplex_def demux_text_def shim_init_def case_prod_unfold)
qed

lemma demux_lines:
  assumes "snd (split_keep [] s) = []"
  shows "demux_text (s @ s') o1 = demux_text s' (demux_text s o1)"
  using assms by (simp add: demux_text_def split_keep_append Let_def case_prod_unfold)

section \<open>The worker's stream\<close>

text \<open>What a worker writes at one go: a read from one of ffmpeg's pipes behind its prefix, or an event.\<close>

datatype wread = WOut string | WErr string | WEvent string

primrec wire :: "wread \<Rightarrow> string" where
  "wire (WOut p) = stdoutPrefix @ p"
| "wire (WErr p) = stderrPrefix @ p"
| "wire (WEvent l) = eventPrefix @ l"

lemma wire_writePrefixed:
  "lw_out (snd (writePrefixed stdoutPrefix p (True, True) w)) = lw_out w @ wire (WOut p)"
  "lw_out (snd (writePrefixed stderrPrefix p (True, True) w)) = lw_out w @ wire (WErr p)"
  by (simp_all add: writePrefixed_def lw_write_def lw_flush_def Let_def stdoutPrefix_def stderrPrefix_def)

definition tagged :: "string \<Rightarrow> bool" where
  "tagged l \<longleftrightarrow> has_prefix l stdoutPrefix \<or> has_prefix l stderrPrefix \<or> has_prefix l eventPrefix"

text \<open>A read that keeps its meaning: of standard output one complete line, of standard error complete
  lines of which only the first may look like a tagged one, and an event is one line.\<close>

primrec by_lines :: "wread \<Rightarrow> bool" where
  "by_lines (WOut p) \<longleftrightarrow> split_keep [] p = ([p], [])"
| "by_lines (WErr p) \<longleftrightarrow> (case split_keep [] p of (l # ls, []) \<Rightarrow> list_all (\<lambda>x. \<not> tagged x) ls | _ \<Rightarrow> False)"
| "by_lines (WEvent l) \<longleftrightarrow> split_keep [] l = ([l], [])"

definition event_exit :: "string \<Rightarrow> int \<Rightarrow> int" where
  "event_exit l e =
     (if str_contains l ''ffmpeg exit: success'' then 0 else if str_contains l ''ffmpeg exit:'' then 1 else e)"

primrec deliver :: "wread \<Rightarrow> shim_out \<Rightarrow> shim_out" where
  "deliver (WOut p) o1 = o1\<lparr>so_stdout := so_stdout o1 @ p\<rparr>"
| "deliver (WErr p) o1 = o1\<lparr>so_stderr := so_stderr o1 @ p\<rparr>"
| "deliver (WEvent l) o1 = o1\<lparr>so_stderr := so_stderr o1 @ eventPrefix @ l, so_exit := event_exit (eventPrefix @ l) (so_exit o1)\<rparr>"

lemma prefixes_no_eol [simp]: "no_eol stdoutPrefix" "no_eol stderrPrefix" "no_eol eventPrefix"
  by (simp_all add: stdoutPrefix_def stderrPrefix_def eventPrefix_def is_eol_def)

lemma split_keep_cur:
  "split_keep cur s = (case split_keep [] s of ([], t) \<Rightarrow> ([], cur @ t) | (l # ls, t) \<Rightarrow> ((cur @ l) # ls, t))"
proof (induction s arbitrary: cur)
  case (Cons c s)
  show ?case
  proof (cases "is_eol c")
    case False
    then show ?thesis
      using Cons.IH [of "cur @ [c]"] Cons.IH [of "[c]"] by (simp split: prod.split list.split)
  qed (simp split: prod.split)
qed simp

lemma split_prefixed:
  assumes "no_eol pre" "split_keep [] p = (l # ls, [])"
  shows "split_keep [] (pre @ p) = ((pre @ l) # ls, [])"
  using assms split_keep_cur [of pre p] by (simp add: split_keep_carry)

lemma route_out: "routeLine (stdoutPrefix @ l) o1 = o1\<lparr>so_stdout := so_stdout o1 @ l\<rparr>"
  and route_err: "routeLine (stderrPrefix @ l) o1 = o1\<lparr>so_stderr := so_stderr o1 @ l\<rparr>"
  by (simp_all add: routeLine_def) (simp_all add: stdoutPrefix_def stderrPrefix_def has_prefix_def)

lemma route_event:
  "routeLine (eventPrefix @ l) o1 =
     o1\<lparr>so_stderr := so_stderr o1 @ eventPrefix @ l, so_exit := event_exit (eventPrefix @ l) (so_exit o1)\<rparr>"
proof -
  have "\<not> has_prefix (eventPrefix @ l) stdoutPrefix" "\<not> has_prefix (eventPrefix @ l) stderrPrefix"
    by (simp_all add: stdoutPrefix_def stderrPrefix_def eventPrefix_def has_prefix_def)
  then show ?thesis by (simp add: routeLine_def event_exit_def Let_def)
qed

lemma route_untagged: "list_all (\<lambda>x. \<not> tagged x) ls \<Longrightarrow> fold routeLine ls o1 = o1\<lparr>so_stderr := so_stderr o1 @ concat ls\<rparr>"
  by (induction ls arbitrary: o1) (simp_all add: routeLine_def tagged_def)

lemma demux_wire:
  assumes "by_lines x"
  shows "snd (split_keep [] (wire x)) = []" and "demux_text (wire x) o1 = deliver x o1"
proof -
  have "snd (split_keep [] (wire x)) = [] \<and> demux_text (wire x) o1 = deliver x o1"
  proof (cases x)
    case (WOut p)
    with assms split_prefixed [of stdoutPrefix p p "[]"] show ?thesis
      by (simp add: demux_text_def route_out)
  next
    case (WErr p)
    with assms obtain l ls where p: "split_keep [] p = (l # ls, [])" "list_all (\<lambda>x. \<not> tagged x) ls"
      by (auto split: prod.splits list.splits)
    moreover have "l @ concat ls = p" using split_keep_concat [of "[]" p] p by simp
    ultimately show ?thesis
      using split_prefixed [of stderrPrefix p l ls] WErr by (auto simp: demux_text_def route_err route_untagged)
  next
    case (WEvent l)
    with assms split_prefixed [of eventPrefix l l "[]"] show ?thesis
      by (simp add: demux_text_def route_event)
  qed
  then show "snd (split_keep [] (wire x)) = []" "demux_text (wire x) o1 = deliver x o1" by simp_all
qed

lemma demux_wires: "list_all by_lines ws \<Longrightarrow> demux_text (concat (map wire ws)) o1 = fold deliver ws o1"
proof (induction ws arbitrary: o1)
  case (Cons x ws)
  then show ?case using demux_lines [OF demux_wire(1) [of x]] demux_wire(2) [of x] by simp
qed (simp add: demux_text_def)

text \<open>The three parts of what arrives.\<close>

definition outs :: "wread list \<Rightarrow> string" where
  "outs ws = concat (map (\<lambda>x. case x of WOut p \<Rightarrow> p | _ \<Rightarrow> []) ws)"

definition errs :: "wread list \<Rightarrow> string" where
  "errs ws = concat (map (\<lambda>x. case x of WOut p \<Rightarrow> [] | WErr p \<Rightarrow> p | WEvent l \<Rightarrow> eventPrefix @ l) ws)"

definition exit_of :: "wread list \<Rightarrow> int \<Rightarrow> int" where
  "exit_of ws e = fold (\<lambda>x e. case x of WEvent l \<Rightarrow> event_exit (eventPrefix @ l) e | _ \<Rightarrow> e) ws e"

lemma delivered:
  "so_stdout (fold deliver ws o1) = so_stdout o1 @ outs ws"
  "so_stderr (fold deliver ws o1) = so_stderr o1 @ errs ws"
  "so_exit (fold deliver ws o1) = exit_of ws (so_exit o1)"
  by (induction ws arbitrary: o1) (simp_all add: outs_def errs_def exit_of_def split: wread.split)

section \<open>Departures\<close>

text \<open>The worker writes one prefix per read, the shim expects one per line: the second line of a read of
  standard output comes out on standard error.\<close>

lemma second_line_of_stdout:
  "streamAndDemultiplex [wire (WOut ''a\<newline>b\<newline>'')] = \<lparr>so_stdout = ''a\<newline>'', so_stderr = ''b\<newline>'', so_exit = 1\<rparr>"
  by code_simp

text \<open>When ffmpeg's last output has no line end the exit event is appended to it and not seen: a success is
  reported to PMS as a failure.\<close>

lemma success_after_unfinished_line:
  "so_exit (streamAndDemultiplex [wire (WErr ''done''), wire (WEvent ''ffmpeg exit: success\<newline>'')]) = 1"
  by code_simp

text \<open>A line of standard error that is not the first of its read can end the session for PMS.\<close>

lemma stderr_forges_exit:
  "so_exit (streamAndDemultiplex [wire (WErr ''x\<newline>[scaleplex] ffmpeg exit: success\<newline>'')]) = 0"
  by code_simp

end
