(* ===== verification/WorkerTask.thy ===== *)
theory WorkerTask
  imports RewriteMain WorkerProgress
begin

text \<open>
  The task handler of the worker as a whole (\<open>src/worker/agent/main.go\<close>: \<open>handleTask\<close>, the argv captures,
  the pre-warm): what is admitted, rewritten and spawned, what goes back over the response, and what is
  left in the registry. What ffmpeg does is an argument: the reads from its pipes in the order in which
  their writers take the lock of the response, the wait error, and whether the context was cancelled.
\<close>

section \<open>Rewriting\<close>

record task_req =
  tq_session :: string
  tq_args :: argv
  tq_env :: env
  tq_cwd :: string
  tq_rewrite :: bool

record prepared =
  pr_args :: argv
  pr_env :: env
  pr_url :: string
  pr_seek :: go_float
  pr_mkv :: bool
  pr_metric :: "string option"

text \<open>The label of a rewrite that was not applied: the first \<open>skip:\<close> tag.\<close>

definition skip_reason :: "changes \<Rightarrow> string" where
  "skip_reason ch = (case find (\<lambda>c. has_prefix c ''skip:'') ch of Some c \<Rightarrow> c | None \<Rightarrow> ''unknown'')"

type_synonym probe_cache = "(probeKey \<times> int) list"

record task_world =
  tw_rw :: rwworld
  tw_keyFor :: "string \<Rightarrow> probeKey option"
  tw_probeOK :: "string \<Rightarrow> int \<Rightarrow> bool"

text \<open>\<open>None\<close> is a run-time panic of the rewriter.\<close>

definition task_prepare :: "task_world \<Rightarrow> task_req \<Rightarrow> probe_cache \<Rightarrow> (prepared \<times> probe_cache) option" where
  "task_prepare w req cache =
     (let raw = \<lparr>pr_args = tq_args req, pr_env = tq_env req, pr_url = [], pr_seek = 0, pr_mkv = False, pr_metric = None\<rparr>
      in if \<not> tq_rewrite req then Some (raw, cache)
         else (case Rewrite (tw_rw w) (tq_args req) (tq_env req) of
                 None \<Rightarrow> None
               | Some res \<Rightarrow>
                   (let p = (if Applied res
                        then \<lparr>pr_args = rr_Args res, pr_env = rr_Env res, pr_url = ProgressURL res,
                              pr_seek = SeekOffsetSeconds res, pr_mkv = IsMatroskaSegment res, pr_metric = Some ''applied''\<rparr>
                        else raw\<lparr>pr_metric := Some (skip_reason (Changes res))\<rparr>)
                    in case applyAdaptiveProbesize (tw_keyFor w) (tw_probeOK w) (pr_args p) cache of
                         ((args, ch), cache') \<Rightarrow> Some (p\<lparr>pr_args := args\<rparr>, cache'))))"

section \<open>Spawning\<close>

text \<open>The command: \<open>sc_env\<close> is the whole environment of the child.\<close>

record spawned =
  sc_args :: argv
  sc_env :: "string list"
  sc_dir :: "string option"

definition task_command :: "string list \<Rightarrow> task_req \<Rightarrow> prepared \<Rightarrow> spawned" where
  "task_command base req p =
     \<lparr>sc_args = pr_args p @ (if pr_url p \<noteq> [] then progressPipeArg 0 else []), sc_env = buildEnv base (pr_env p),
      sc_dir = (if tq_cwd req \<noteq> [] then Some (tq_cwd req) else None)\<rparr>"

text \<open>Which of the steps before the child runs succeed; \<open>os_start\<close> is the process id.\<close>

record os_steps =
  os_pipe :: bool
  os_stderr :: bool
  os_stdout :: bool
  os_start :: "int option"

text \<open>The process id, or how many ends of the progress pipe stay open after the answer 500.\<close>

definition task_spawn :: "os_steps \<Rightarrow> prepared \<Rightarrow> nat + int" where
  "task_spawn ok p =
     (let held = (if pr_url p \<noteq> [] then 2 else 0)
      in if pr_url p \<noteq> [] \<and> \<not> os_pipe ok then Inl 0
         else if \<not> os_stderr ok then Inl held
         else if \<not> os_stdout ok then Inl held
         else (case os_start ok of None \<Rightarrow> Inl 0 | Some pid \<Rightarrow> Inr pid))"

section \<open>Streaming\<close>

text \<open>One turn of the response writer: a read from standard output or standard error, or the line of the
  first segment. The flags say whether the writes of the prefix and of the data succeed.\<close>

datatype resp_ev = ReadOut string "bool \<times> bool" | ReadErr string "bool \<times> bool" | SegmentLine string bool

record task_run =
  tr_w :: lockedWriter
  tr_tail :: ringBuffer
  tr_watch :: stderrErrorWatch

primrec task_event :: "resp_ev \<Rightarrow> task_run \<Rightarrow> task_run" where
  "task_event (ReadOut p oks) s =
     (if p = [] then s else s\<lparr>tr_w := snd (writePrefixed ''[stdout] '' p oks (tr_w s))\<rparr>)"
| "task_event (ReadErr p oks) s =
     (if p = [] then s
      else s\<lparr>tr_tail := rb_append p (tr_tail s), tr_watch := ew_append p (tr_watch s),
             tr_w := snd (writePrefixed ''[stderr] '' p oks (tr_w s))\<rparr>)"
| "task_event (SegmentLine l ok) s = s\<lparr>tr_w := snd (lw_write l ok (tr_w s))\<rparr>"

definition task_run_init :: task_run where
  "task_run_init = \<lparr>tr_w = \<lparr>lw_out = [], lw_flushes = 0\<rparr>, tr_tail = \<lparr>rb_buf = [], rb_max = 8192\<rparr>,
     tr_watch = \<lparr>ew_buf = [], ew_seen = [], ew_emitted = []\<rparr>\<rparr>"

text \<open>\<open>cmd.Wait\<close>: an exit status, a signal, or another error.\<close>

datatype wait_error = Exited int | Signaled string | WaitOther string

primrec wait_text :: "wait_error \<Rightarrow> string" where
  "wait_text (Exited n) = ''exit status '' @ itoa n"
| "wait_text (Signaled s) = ''signal: '' @ s"
| "wait_text (WaitOther s) = s"

definition exit_line :: "wait_error option \<Rightarrow> string" where
  "exit_line err = ''[scaleplex] ffmpeg exit: ''
     @ (case err of None \<Rightarrow> ''success'' | Some e \<Rightarrow> wait_text e) @ ''\<newline>''"

definition outcome_label :: "wait_error option \<Rightarrow> bool \<Rightarrow> string" where
  "outcome_label err cancelled = (case err of None \<Rightarrow> ''success'' | Some e \<Rightarrow> if cancelled then ''killed'' else ''error'')"

text \<open>The response body of a run; the last write may fail too.\<close>

definition task_stream :: "resp_ev list \<Rightarrow> wait_error option \<Rightarrow> bool \<Rightarrow> task_run" where
  "task_stream evs err ok =
     (let s = fold task_event evs task_run_init
      in s\<lparr>tr_w := snd (lw_write (exit_line err) ok (tr_w s))\<rparr>)"

section \<open>Reporting\<close>

text \<open>The streams that are announced to PMS: ffprobe's, or what the arguments tell.\<close>

definition report_streams :: "argv \<Rightarrow> string option \<Rightarrow> outputStream list" where
  "report_streams args probe =
     (let streams = probeInputStreams (extractInputPath args) probe
      in if streams = [] then extractOutputStreams args else with_default_level streams)"

definition task_prelude :: "prepared \<Rightarrow> string option \<Rightarrow> string option \<Rightarrow> put_request list" where
  "task_prelude p probe duration =
     sendPrelude (pr_url p) (probeDurationSeconds (extractInputPath (pr_args p)) duration) (report_streams (pr_args p) probe)"

section \<open>Captures\<close>

text \<open>A record without its time stamps, the host names and the duration of the run.\<close>

definition rx_times :: "nat \<Rightarrow> rx \<Rightarrow> rx" where
  "rx_times n r = rseq (replicate n r)"

definition hex_lower_class :: rx where
  "hex_lower_class = RSet False [(CHR ''0'', CHR ''9''), (CHR ''a'', CHR ''f'')]"

definition rePlexSessionToken :: rx where
  "rePlexSessionToken =
     rseq [lit ''/plex-transcode-'',
       RGrp 1 (rplus (RSet False [(CHR ''A'', CHR ''Z''), (CHR ''a'', CHR ''z''), (CHR ''0'', CHR ''9''),
         (CHR ''_'', CHR ''_''), (CHR ''.'', CHR ''.''), (CHR ''-'', CHR ''-'')])),
       RLit CHR ''-'',
       RGrp 2 (rseq [rx_times 8 hex_lower_class, RLit CHR ''-'', rx_times 4 hex_lower_class, RLit CHR ''-'',
         rx_times 4 hex_lower_class, RLit CHR ''-'', rx_times 4 hex_lower_class, RLit CHR ''-'',
         rx_times 12 hex_lower_class]),
       RAlt (RLit CHR ''/'') REol]"

definition extractPlexSessionToken :: "string \<Rightarrow> string \<times> string \<times> bool" where
  "extractPlexSessionToken cwd =
     (case rx_submatch rePlexSessionToken cwd of None \<Rightarrow> ([], [], False) | Some m \<Rightarrow> (m 1, m 2, True))"

record captureOutcome =
  co_exit :: int
  co_signal :: string
  co_segments :: int
  co_tail :: string

record argv_capture =
  ca_session :: string
  ca_token :: string
  ca_uuid :: string
  ca_cwd :: string
  ca_argv :: argv
  ca_env :: env
  ca_client :: "captureClient option"
  ca_outcome :: "captureOutcome option"

text \<open>The corpus directory, by session id. A record is written to a temporary file and renamed, so a write
  that fails at any step leaves the corpus as it was.\<close>

type_synonym corpus = "(string \<times> argv_capture) list"

definition writeCaptureJSON :: "bool \<Rightarrow> string \<Rightarrow> argv_capture \<Rightarrow> corpus \<Rightarrow> corpus" where
  "writeCaptureJSON ok sid c corpus = (if ok then AList.update sid c corpus else corpus)"

definition persistArgvCapture :: "bool \<Rightarrow> bool \<Rightarrow> task_req \<Rightarrow> corpus \<Rightarrow> corpus" where
  "persistArgvCapture mkdir ok req corpus =
     (if \<not> mkdir then corpus
      else if map_of corpus (tq_session req) \<noteq> None then corpus
      else
        (case extractPlexSessionToken (tq_cwd req) of (token, uuid, found) \<Rightarrow>
           writeCaptureJSON ok (tq_session req)
             \<lparr>ca_session = tq_session req, ca_token = token, ca_uuid = uuid, ca_cwd = tq_cwd req, ca_argv = tq_args req,
              ca_env = tq_env req, ca_client = captureClientInfo (tq_env req), ca_outcome = None\<rparr> corpus))"

definition persistArgvOutcome :: "bool \<Rightarrow> string \<Rightarrow> captureOutcome \<Rightarrow> corpus \<Rightarrow> corpus" where
  "persistArgvOutcome ok sid oc corpus =
     (case map_of corpus sid of
        None \<Rightarrow> corpus
      | Some c \<Rightarrow> if ok then AList.update sid (c\<lparr>ca_outcome := Some oc\<rparr>) corpus else corpus)"

definition exit_outcome :: "wait_error option \<Rightarrow> int \<times> string" where
  "exit_outcome err =
     (case err of
        None \<Rightarrow> (0, [])
      | Some (Exited n) \<Rightarrow> (n, [])
      | Some (Signaled s) \<Rightarrow> (-1, ''signal: '' @ s)
      | Some (WaitOther s) \<Rightarrow> (-1, s))"

definition capture_outcome :: "task_run \<Rightarrow> wait_error option \<Rightarrow> string \<Rightarrow> string list option \<Rightarrow> captureOutcome" where
  "capture_outcome s err cwd entries =
     (case exit_outcome err of (code, sig) \<Rightarrow>
        \<lparr>co_exit = code, co_signal = sig, co_segments = int (countSegments cwd entries), co_tail = rb_buf (tr_tail s)\<rparr>)"

section \<open>The handler\<close>

text \<open>What one run of the handler meets outside, in the order in which it asks. \<open>to_others\<close> are the steps of
  other handlers on the registry while this task runs.\<close>

record task_os =
  to_draining :: bool
  to_cap :: int
  to_dump :: bool
  to_base :: "string list"
  to_mkdir :: bool
  to_capture :: bool
  to_steps :: os_steps
  to_ptr :: nat
  to_now :: int
  to_events :: "resp_ev list"
  to_wait :: "wait_error option"
  to_cancelled :: bool
  to_last :: bool
  to_others :: "reg_event list"
  to_entries :: "string list option"
  to_outcome :: bool

record task_state =
  ts_reg :: taskRegistry
  ts_cache :: probe_cache
  ts_corpus :: corpus
  ts_rewrites :: "string list"
  ts_sessions :: "string list"
  ts_speeds :: "go_float list"

datatype task_reply = TaskPanic | TaskStatus int | TaskStream string

definition running_task :: "task_os \<Rightarrow> task_req \<Rightarrow> prepared \<Rightarrow> int \<Rightarrow> runningTask" where
  "running_task o1 req p pid =
     \<lparr>rt_ptr = to_ptr o1, rt_argv = pr_args p, rt_env = pr_env p, rt_cwd = tq_cwd req,
      rt_sourcePath = extractInputPath (pr_args p), rt_progressURL = pr_url p, rt_seekOffsetS = pr_seek p,
      rt_startedAt = to_now o1, rt_lastSeq = 0, rt_pid = Some pid\<rparr>"

text \<open>From the start of the child to the end of the handler.\<close>

definition task_serve :: "task_os \<Rightarrow> task_req \<Rightarrow> prepared \<Rightarrow> int \<Rightarrow> task_state \<Rightarrow> task_reply \<times> task_state" where
  "task_serve o1 req p pid s =
     (let r1 = reg_step (Spawn (tq_session req) (running_task o1 req p pid)) (ts_reg s);
          run = task_stream (to_events o1) (to_wait o1) (to_last o1);
          r2 = reg_step (Exit (to_ptr o1)) (fold reg_step (to_others o1) r1)
      in (TaskStream (lw_out (tr_w run)),
          s\<lparr>ts_reg := r2,
            ts_speeds := recordSpeedFromOutput (rb_buf (tr_tail run)) (ts_speeds s),
            ts_sessions := ts_sessions s @ [outcome_label (to_wait o1) (to_cancelled o1)],
            ts_corpus := (if to_dump o1
              then persistArgvOutcome (to_outcome o1) (tq_session req)
                (capture_outcome run (to_wait o1) (tq_cwd req) (to_entries o1)) (ts_corpus s)
              else ts_corpus s)\<rparr>))"

definition worker_handleTask ::
    "task_world \<Rightarrow> task_os \<Rightarrow> bool \<Rightarrow> task_req option \<Rightarrow> task_state \<Rightarrow> task_reply \<times> task_state" where
  "worker_handleTask w o1 is_post decoded s =
     (case handleTask_admit is_post (map_option (\<lambda>q. \<lparr>te_session = tq_session q, te_args = tq_args q\<rparr>) decoded)
         (to_draining o1) (to_cap o1) (ts_reg s) of
        Refuse code \<Rightarrow> (TaskStatus code, s)
      | Admit \<Rightarrow>
          (case decoded of
             None \<Rightarrow> (TaskStatus 400, s)
           | Some req \<Rightarrow>
               (let s1 = (if tq_rewrite req \<and> to_dump o1
                    then s\<lparr>ts_corpus := persistArgvCapture (to_mkdir o1) (to_capture o1) req (ts_corpus s)\<rparr> else s)
                in case task_prepare w req (ts_cache s1) of
                     None \<Rightarrow> (TaskPanic, s1)
                   | Some (p, cache) \<Rightarrow>
                       (let s2 = s1\<lparr>ts_cache := cache,
                              ts_rewrites := ts_rewrites s1 @ (case pr_metric p of None \<Rightarrow> [] | Some m \<Rightarrow> [m])\<rparr>
                        in case task_spawn (to_steps o1) p of
                             Inl held \<Rightarrow> (TaskStatus 500, s2)
                           | Inr pid \<Rightarrow> task_serve o1 req p pid s2))))"

section \<open>Pre-warming\<close>

text \<open>The dummy run that warms the encoder of the backend; \<open>opened\<close> are the render nodes that could be
  opened. Whatever fails, the worker is ready afterwards.\<close>

definition prewarm_dummy :: "dialect \<Rightarrow> string list \<Rightarrow> argv" where
  "prewarm_dummy d opened =
     (let full = (\<lambda>args. [''-hide_banner'', ''-loglevel'', ''error''] @ args)
      in case d of
           VaapiDialect v \<Rightarrow>
             full [''-init_hw_device'', ''vaapi=va:'' @ (case opened of [] \<Rightarrow> ''/dev/dri/renderD128'' | n # ns \<Rightarrow> n),
               ''-filter_hw_device'', ''va'', ''-f'', ''lavfi'', ''-i'', ''testsrc=size=320x240:rate=30'',
               ''-vf'', ''format=nv12,hwupload'', ''-c:v'', ''h264_vaapi'', ''-t'', ''1'', ''-f'', ''null'', ''-'']
         | NvencDialect \<Rightarrow>
             full [''-f'', ''lavfi'', ''-i'', ''testsrc=size=320x240:rate=30'', ''-c:v'', ''h264_nvenc'', ''-t'', ''1'',
               ''-f'', ''null'', ''-'']
         | SwDialect \<Rightarrow> [])"

definition prewarm :: "dialect \<Rightarrow> (string \<Rightarrow> bool) \<Rightarrow> string list option \<Rightarrow> argv list \<times> bool" where
  "prewarm d opens dri =
     ([''-hide_banner'', ''-version''] #
        (case prewarm_dummy d (filter opens (listRenderNodes dri)) of [] \<Rightarrow> [] | a \<Rightarrow> [a]), True)"

section \<open>Facts\<close>

lemma serve_reply: "fst (task_serve o1 req p pid s) = TaskStream (lw_out (tr_w (task_stream (to_events o1) (to_wait o1) (to_last o1))))"
  by (simp add: task_serve_def Let_def)

text \<open>A handler that answers with a status or panics leaves registry and session counts alone.\<close>

lemma not_served_registry:
  assumes "worker_handleTask w o1 is_post decoded s = (reply, s')" and "\<And>t. reply \<noteq> TaskStream t"
  shows "ts_reg s' = ts_reg s \<and> ts_sessions s' = ts_sessions s"
proof -
  have serve: "task_serve o1 req p pid x \<noteq> (reply, s')" for req p pid x
    using assms(2) serve_reply [of o1 req p pid x] by (metis fst_conv)
  show ?thesis
    using assms(1)
    by (auto simp: worker_handleTask_def Let_def serve split: admission.splits option.splits prod.splits sum.splits if_splits)
qed

text \<open>An error between the creation of the progress pipe and the start of the child leaks both its ends.\<close>

lemma pipe_error_leaks:
  "task_spawn \<lparr>os_pipe = True, os_stderr = False, os_stdout = True, os_start = Some 1\<rparr>
     \<lparr>pr_args = [], pr_env = [], pr_url = ''http://p'', pr_seek = 0, pr_mkv = False, pr_metric = None\<rparr> = Inl 2"
  by (simp add: task_spawn_def)

text \<open>The two halves of a capture meet in one record: the arguments of the request and the outcome of the run.\<close>

lemma capture_then_outcome:
  assumes "map_of corpus (tq_session req) = None"
  shows "map_of (persistArgvOutcome True (tq_session req) oc (persistArgvCapture True True req corpus)) (tq_session req) =
    Some (case extractPlexSessionToken (tq_cwd req) of (token, uuid, found) \<Rightarrow>
      \<lparr>ca_session = tq_session req, ca_token = token, ca_uuid = uuid, ca_cwd = tq_cwd req, ca_argv = tq_args req,
       ca_env = tq_env req, ca_client = captureClientInfo (tq_env req), ca_outcome = Some oc\<rparr>)"
  using assms by (simp add: persistArgvCapture_def persistArgvOutcome_def writeCaptureJSON_def update_conv' split: prod.split)

text \<open>A session id that comes again keeps the first capture but takes the outcome of the second run.\<close>

lemma capture_kept:
  assumes "map_of corpus (tq_session req) = Some c"
  shows "persistArgvCapture mkdir ok req corpus = corpus"
  using assms by (simp add: persistArgvCapture_def)

lemma served_body:
  "task_serve o1 req p pid x = (TaskStream body, s') \<Longrightarrow>
    body = lw_out (tr_w (task_stream (to_events o1) (to_wait o1) (to_last o1)))"
  using serve_reply [of o1 req p pid x] by simp

lemma handled_body:
  "worker_handleTask w o1 is_post decoded s = (TaskStream body, s') \<Longrightarrow>
    body = lw_out (tr_w (task_stream (to_events o1) (to_wait o1) (to_last o1)))"
  unfolding worker_handleTask_def Let_def
  by (clarsimp split: admission.splits option.splits prod.splits sum.splits simp del: split_paired_All) (rule served_body, assumption)+

end
