(* ===== verification/WorkerCalls.thy ===== *)
theory WorkerCalls
  imports WorkerProgress WorkerStream WorkerLoad RewriteArgs GoHttp
begin

text \<open>
  What the worker sends and what it reads from the machine, between the models of its components: the URLs of
  progress reports and log lines (\<open>src/worker/agent/progress_report.go\<close>), the ffprobe calls behind the probe sizes
  (\<open>probesize.go\<close>), and the readers of performance counters (\<open>load.go\<close>).
\<close>

section \<open>URLs\<close>

text \<open>A parsed URL; \<open>ur_rest\<close> is everything but path and query. \<open>parse_url\<close> and \<open>print_url\<close> are Go's.\<close>

record go_url =
  ur_rest :: string
  ur_path :: string
  ur_query :: string

definition with_params :: "params \<Rightarrow> go_url \<Rightarrow> go_url" where
  "with_params extra u = u\<lparr>ur_query := encode_values (fold val_add extra (parse_query (ur_query u)))\<rparr>"

definition joinQuery :: "(string \<Rightarrow> go_url option) \<Rightarrow> (go_url \<Rightarrow> string) \<Rightarrow> string \<Rightarrow> params \<Rightarrow> string" where
  "joinQuery parse_url print_url rawURL extra =
     (case parse_url rawURL of None \<Rightarrow> rawURL | Some u \<Rightarrow> print_url (with_params extra u))"

definition joinQueryWithSuffix :: "(string \<Rightarrow> go_url option) \<Rightarrow> (go_url \<Rightarrow> string) \<Rightarrow> string \<Rightarrow> string \<Rightarrow> params \<Rightarrow> string" where
  "joinQueryWithSuffix parse_url print_url rawURL pathSuffix extra =
     (case parse_url rawURL of None \<Rightarrow> rawURL
      | Some u \<Rightarrow> print_url (with_params extra (u\<lparr>ur_path := ur_path u @ pathSuffix\<rparr>)))"

text \<open>The URL of one PUT of the prelude, of a progress report, and of a log line.\<close>

definition put_url :: "(string \<Rightarrow> go_url option) \<Rightarrow> (go_url \<Rightarrow> string) \<Rightarrow> string \<Rightarrow> put_request \<Rightarrow> string" where
  "put_url parse_url print_url rawURL q =
     (case q of (kind, sfx, ps) \<Rightarrow>
        if sfx = [] then joinQuery parse_url print_url rawURL ps else joinQueryWithSuffix parse_url print_url rawURL sfx ps)"

definition log_params :: "string \<times> string \<Rightarrow> params" where
  "log_params lm = (case lm of (level, message) \<Rightarrow> [(''level'', level), (''message'', message)])"

definition log_url :: "(string \<Rightarrow> go_url option) \<Rightarrow> (go_url \<Rightarrow> string) \<Rightarrow> string \<Rightarrow> string \<times> string \<Rightarrow> string" where
  "log_url parse_url print_url baseURL lm = joinQueryWithSuffix parse_url print_url baseURL ''/log'' (log_params lm)"

definition range_header :: header where
  "range_header = [(''Range'', [''bytes=0-''])]"

lemma suffix_empty: "joinQueryWithSuffix parse_url print_url rawURL [] extra = joinQuery parse_url print_url rawURL extra"
  by (simp add: joinQueryWithSuffix_def joinQuery_def split: option.split)

lemma fold_val_add_lookup:
  "distinct (map fst kvs) \<Longrightarrow> map_of (fold val_add kvs m) k =
     (case map_of kvs k of
        None \<Rightarrow> map_of m k
      | Some v \<Rightarrow> Some ((case map_of m k of None \<Rightarrow> [] | Some vs \<Rightarrow> vs) @ [v]))"
proof (induction kvs arbitrary: m)
  case (Cons kv kvs)
  obtain a b where kv: "kv = (a, b)" by (cases kv)
  have n: "map_of kvs a = None" using Cons.prems by (simp add: kv map_of_eq_None_iff)
  have one: "map_of (val_add (a, b) m) k = (if k = a then Some ((case map_of m a of None \<Rightarrow> [] | Some vs \<Rightarrow> vs) @ [b]) else map_of m k)"
    by (simp add: val_add_def update_conv')
  have "map_of (fold val_add (kv # kvs) m) k = map_of (fold val_add kvs (val_add (a, b) m)) k" by (simp add: kv)
  also have "\<dots> = (case map_of kvs k of None \<Rightarrow> map_of (val_add (a, b) m) k
      | Some v \<Rightarrow> Some ((case map_of (val_add (a, b) m) k of None \<Rightarrow> [] | Some vs \<Rightarrow> vs) @ [v]))"
    using Cons.prems by (intro Cons.IH) simp
  finally show ?case using n unfolding one by (cases "k = a") (simp_all add: kv)
qed simp

text \<open>What the other side reads from the URL: the parameters the URL had, with the new values behind them.\<close>

lemma with_params_read:
  assumes "distinct (map fst extra)"
  shows "map_of (parse_query (ur_query (with_params extra u))) k =
    (case map_of extra k of
       None \<Rightarrow> map_of (parse_query (ur_query u)) k
     | Some v \<Rightarrow> Some ((case map_of (parse_query (ur_query u)) k of None \<Rightarrow> [] | Some vs \<Rightarrow> vs) @ [v]))"
proof -
  let ?m = "fold val_add extra (parse_query (ur_query u))"
  have "distinct (map fst ?m)" "\<forall>(k, vs)\<in>set ?m. vs \<noteq> []"
    using val_add_distinct val_add_values parse_query_ok by blast+
  from parse_encode [OF this] show ?thesis by (simp add: with_params_def fold_val_add_lookup [OF assms])
qed

text \<open>The parameters of the prelude are given once each.\<close>

lemma opt_keys: "fst ` set (opt b k v) = (if b then {k} else {})" "distinct (map fst (opt b k v))"
  by (simp_all add: opt_def)

lemma stream_params_distinct: "distinct (map fst (stream_params s))"
  by (simp add: stream_params_def opt_keys)

lemma detail_params_distinct: "distinct (map fst (detail_params s))"
  by (cases "os_type s = ''video''"; cases "os_type s = ''audio''") (simp_all add: detail_params_def opt_keys)

lemma prelude_params_distinct: "(kind, sfx, ps) \<in> set (sendPrelude url durationS streams) \<Longrightarrow> distinct (map fst ps)"
  by (auto simp: sendPrelude_def stream_params_distinct detail_params_distinct split: if_splits option.splits)

lemma log_params_distinct: "distinct (map fst (log_params lm))"
  by (cases lm) (simp add: log_params_def)

section \<open>Calls behind the probe sizes\<close>

text \<open>What \<open>stat\<close> gives of a file: an error, no Unix data, or inode, device and modification time.\<close>

definition probeKeyFor :: "(string \<Rightarrow> (nat \<times> nat \<times> int) option option) \<Rightarrow> string \<Rightarrow> probeKey option" where
  "probeKeyFor stat path =
     (case stat path of
        Some (Some (inode, dev, mtime)) \<Rightarrow> Some \<lparr>pk_inode = inode, pk_mtime = mtime, pk_dev = dev\<rparr>
      | _ \<Rightarrow> None)"

definition probe_size_args :: "string \<Rightarrow> int \<Rightarrow> argv" where
  "probe_size_args path sz =
     [''-v'', ''error'', ''-probesize'', itoa sz, ''-analyzeduration'', itoa sz, ''-print_format'', ''json'', ''-show_streams'', path]"

text \<open>\<open>ffprobe\<close> gives the output of a call that succeeds in time; \<open>streams\<close> decodes the number of its streams.\<close>

definition probeOK :: "(argv \<Rightarrow> string option) \<Rightarrow> (string \<Rightarrow> nat option) \<Rightarrow> string \<Rightarrow> int \<Rightarrow> bool" where
  "probeOK ffprobe streams path sz =
     (case ffprobe (probe_size_args path sz) of
        None \<Rightarrow> False
      | Some out \<Rightarrow> (case streams out of None \<Rightarrow> False | Some n \<Rightarrow> 0 < n))"

text \<open>With these the cache answers a second time what it answered first, without a call, as long as the file
  is the same.\<close>

lemma probe_size_cached:
  assumes "adaptiveProbesize keyFor ok path cache = (n, cache')" "n \<noteq> 0"
  shows "adaptiveProbesize keyFor ok' path cache' = (n, cache')"
  using assms by (auto simp: adaptiveProbesize_def update_conv' split: option.splits)

section \<open>Performance counters\<close>

text \<open>The type of a device: an unsigned number of 32 bits.\<close>

definition pmu_type :: "string option \<Rightarrow> nat option" where
  "pmu_type contents =
     (case contents of
        None \<Rightarrow> None
      | Some s \<Rightarrow> (case parse_nat (trim_space s) of Some n \<Rightarrow> if n < 2 ^ 32 then Some n else None | None \<Rightarrow> None))"

text \<open>A device: the contents of \<open>type\<close>, and its event directory with the contents of the files.\<close>

definition pmu_device :: "(nat \<Rightarrow> nat \<Rightarrow> 'fd option) \<Rightarrow> string option \<times> (string \<times> string option) list option \<Rightarrow> ('fd \<times> string) list" where
  "pmu_device open_event dev =
     (case (pmu_type (fst dev), snd dev) of (Some t, Some entries) \<Rightarrow> pmu_events (open_event t) entries | _ \<Rightarrow> [])"

definition open_pmu :: "(nat \<Rightarrow> nat \<Rightarrow> 'fd option) \<Rightarrow> (string option \<times> (string \<times> string option) list option) list
    \<Rightarrow> ('fd list \<times> string list) option" where
  "open_pmu open_event devs = newPMUReader (map (pmu_device open_event) devs)"

definition le64 :: "8 word list \<Rightarrow> nat" where
  "le64 bs = foldr (\<lambda>b n. unat b + 256 * n) bs 0"

text \<open>\<open>sample\<close> reads every descriptor into the same eight bytes.\<close>

fun pmu_reads :: "8 word list \<Rightarrow> 8 word list option list \<Rightarrow> nat list" where
  "pmu_reads buf [] = []"
| "pmu_reads buf (None # rs) = 0 # pmu_reads buf rs"
| "pmu_reads buf (Some bs # rs) =
     (let buf' = take 8 bs @ drop (length bs) buf in le64 buf' # pmu_reads buf' rs)"

definition pmu_sample :: "8 word list option list \<Rightarrow> nat list" where
  "pmu_sample rs = pmu_reads (replicate 8 0) rs"

definition newNvidiaReader :: "bool \<Rightarrow> string option \<Rightarrow> nvidiaReader option" where
  "newNvidiaReader installed out =
     (if \<not> installed then None
      else map_option (\<lambda>q. \<lparr>nv_lastTime = None, nv_accEnc = 0, nv_accDec = 0\<rparr>) (nvidia_query out))"

text \<open>Full reads are independent of each other; a short one keeps bytes of the counter before it.\<close>

lemma le64_bound: "le64 bs < 256 ^ length bs"
proof (induction bs)
  case (Cons b bs)
  have "unat b < 256" using unsigned_less [of b] by simp
  with Cons show ?case by (simp add: le64_def)
qed (simp add: le64_def)

lemma full_reads:
  "length buf = 8 \<Longrightarrow> list_all (\<lambda>r. case r of None \<Rightarrow> True | Some bs \<Rightarrow> length bs = 8) rs \<Longrightarrow>
    pmu_reads buf rs = map (\<lambda>r. case r of None \<Rightarrow> 0 | Some bs \<Rightarrow> le64 bs) rs"
  by (induction buf rs rule: pmu_reads.induct) (auto simp: Let_def)

lemma short_read_keeps_bytes: "pmu_sample [Some [1, 2, 0, 0, 0, 0, 0, 0], Some []] = [513, 513]"
  by (simp add: pmu_sample_def le64_def Let_def)

end
