(* ===== verification/EdgeProps.thy ===== *)
theory EdgeProps
  imports ClientFront RelayMain ShimMain WorkerTask WorkerCalls OrchProps
begin

text \<open>
  The properties of the programs around the orchestrator and the worker (shim, relay, clientfix), and of
  the paths that lead through several of them.
\<close>

section \<open>The TLS front\<close>

text \<open>
  C10. Whatever bytes a client sends, in whatever pieces, the front of clientfix routes the connection
  without a run-time panic, and whoever gets it reads every byte the client has sent: peeking consumes and
  invents nothing. Only a connection on which nothing arrives is closed.
\<close>

theorem tls_front_total:
  "case sni_dispatch termSuffix conn of
     None \<Rightarrow> False
   | Some r \<Rightarrow> (case route_conn r of Some pk \<Rightarrow> replay pk = concat conn | None \<Rightarrow> concat conn = [])"
proof -
  obtain r where r: "sni_dispatch termSuffix conn = Some r" using sni_dispatch_total by blast
  show ?thesis
  proof (cases "route_conn r")
    case None
    then have "fst (peek 1 \<lparr>pk_buf = [], pk_conn = conn\<rparr>) = None"
      using r by (auto simp: sni_dispatch_def route_conn_def split: prod.splits option.splits if_splits route.splits)
    moreover have "replay \<lparr>pk_buf = [], pk_conn = conn\<rparr> = concat conn" by (simp add: replay_def)
    ultimately have "\<not> 1 \<le> length (concat conn)"
      using peek_result [of 1 "\<lparr>pk_buf = [], pk_conn = conn\<rparr>"] by (auto simp: peek_size_def)
    then have "concat conn = []" by (cases "concat conn") simp_all
    with r None show ?thesis by (simp only: option.case)
  next
    case (Some pk)
    with r sni_dispatch_replay [OF r Some] show ?thesis by simp
  qed
qed

text \<open>
  C22. The tunnel is transparent. On a connection that goes to PMS, in every state the two copy loops can
  reach, PMS has received a prefix of what the client sent, the hello included, and the client a prefix of what PMS
  sent. The tunnel closes only when one direction has delivered everything or has failed.
\<close>

theorem tunnel_is_transparent:
  assumes "sni_dispatch termSuffix conn = Some (Tunnel pk)" "passthrough True pk pms = Some start" "tunnel_run start t"
  shows "(\<exists>unread. concat conn = tn_up t @ unread) \<and> (\<exists>unread. concat pms = tn_down t @ unread)
    \<and> (tn_closed t \<longrightarrow> tn_failed t \<or> tn_up t = concat conn \<or> tn_down t = concat pms)"
proof -
  have "replay pk = concat conn" using sni_dispatch_replay [OF assms(1), of pk] by (simp add: route_conn_def)
  then have "tunnel_ok (concat conn) (concat pms) start" using tunnel_start [OF assms(2)] by simp
  from tunnel_run_ok [OF assms(3) this] have ok: "tunnel_ok (concat conn) (concat pms) t" .
  show ?thesis
  proof (intro conjI exI impI)
    from ok show "concat conn = tn_up t @ (tn_up_buf t @ replay (tn_client t))" by (simp add: tunnel_ok_def)
    from ok show "concat pms = tn_down t @ (tn_down_buf t @ concat (tn_pms t))" by (simp add: tunnel_ok_def)
    show "tn_failed t \<or> tn_up t = concat conn \<or> tn_down t = concat pms" if "tn_closed t"
      using ok that by (auto simp: tunnel_ok_def)
  qed
qed

text \<open>A client whose record is cut short, and a state in which the first piece has gone to PMS.\<close>

theorem tunnel_is_transparent_witness:
  "\<exists>(t :: tunnel) unread. tn_up t = [0x16, 3] \<and> concat [[0x16], [3 :: byte]] = tn_up t @ unread"
proof -
  have d: "sni_dispatch ''.home'' [[0x16], [3]] = Some (Tunnel \<lparr>pk_buf = [0x16, 3], pk_conn = []\<rparr>)"
    by (simp add: sni_dispatch_def peekSNI_def peek_def peek_size_def Let_def)
  define start where "start = the (passthrough True \<lparr>pk_buf = [0x16, 3], pk_conn = []\<rparr> [])"
  have st: "passthrough True \<lparr>pk_buf = [0x16, 3], pk_conn = []\<rparr> [] = Some start" by (simp add: start_def passthrough_def)
  define t1 where "t1 = start\<lparr>tn_client := \<lparr>pk_buf = [], pk_conn = []\<rparr>, tn_up_buf := [0x16, 3]\<rparr>"
  have s1: "tunnel_step start t1" unfolding t1_def
    by (rule up_read) (simp_all add: start_def passthrough_def pk_read_def copy_size_def)
  have "tunnel_step t1 (t1\<lparr>tn_up := tn_up t1 @ tn_up_buf t1, tn_up_buf := []\<rparr>)"
    by (rule up_write) (simp_all add: t1_def start_def passthrough_def)
  then have run: "tunnel_run start (t1\<lparr>tn_up := tn_up t1 @ tn_up_buf t1, tn_up_buf := []\<rparr>)" (is "tunnel_run start ?t")
    using s1 by (blast intro: tunnel_run.intros)
  have up: "tn_up ?t = [0x16, 3]" by (simp add: t1_def start_def passthrough_def)
  from tunnel_is_transparent [OF d st run] obtain unread where "concat [[0x16], [3 :: byte]] = tn_up ?t @ unread"
    by blast
  then show ?thesis using up by (intro exI [of _ ?t] exI [of _ unread]) simp
qed

text \<open>
  C11. A well-formed ClientHello is routed by the name it asks for: with a name within the suffix the
  connection is terminated with our certificate, with any other name it goes to PMS. The hello may have any
  session id, cipher suites, compression methods and extensions around the server name, may be followed
  by anything, and may arrive in any pieces.
\<close>

theorem hello_routed_by_name:
  assumes "hello_ok fixed sid suites comps es" and "map_of es 0 = Some (name_body l n others)"
    and "length n < 65536"
    and "record_ok v (hello fixed sid suites comps es @ trail)"
    and "concat conn = tls_record v (hello fixed sid suites comps es @ trail) @ rest"
  shows "\<exists>pk. sni_dispatch termSuffix conn =
      Some (if termSuffix \<noteq> [] \<and> n \<noteq> [] \<and> has_suffix (to_lower (text_of n)) termSuffix then OwnTls pk else Tunnel pk)
    \<and> replay pk = concat conn"
proof -
  have "parseSNI (hello fixed sid suites comps es @ trail) = Some (text_of n)"
    by (rule parseSNI_name [OF assms(1-3)])
  from sni_dispatch_record [OF assms(4,5) this] obtain pk where pk:
    "sni_dispatch termSuffix conn =
      Some (if termSuffix \<noteq> [] \<and> n \<noteq> [] \<and> has_suffix (to_lower (text_of n)) termSuffix then OwnTls pk else Tunnel pk)"
    by (auto simp: text_of_def)
  moreover have "replay pk = concat conn"
    by (rule sni_dispatch_replay [OF pk]) (simp add: route_conn_def)
  ultimately show ?thesis by blast
qed

definition demo_name :: "byte list" where
  "demo_name = map (\<lambda>c. of_nat (of_char c)) ''Tv.boeye.net''"

definition demo_exts :: "(nat \<times> byte list) list" where
  "demo_exts = [(23, []), (0, name_body 15 demo_name []), (43, [2, 3, 4])]"

definition demo_hello :: "byte list" where
  "demo_hello = hello (replicate 37 7) [1, 2] [0x13, 0x01] [0] demo_exts"

theorem hello_routed_by_name_witness:
  "\<exists>pk. sni_dispatch ''.boeye.net'' [[0x16, 3, 1], drop 3 (tls_record [3, 1] demo_hello), [99]] = Some (OwnTls pk)
    \<and> replay pk = tls_record [3, 1] demo_hello @ [99]"
proof -
  have 1: "hello_ok (replicate 37 7) [1, 2] [0x13, 0x01] [0] demo_exts"
    by (simp add: hello_ok_def demo_exts_def ext_bytes_def name_body_def demo_name_def)
  have 2: "map_of demo_exts 0 = Some (name_body 15 demo_name [])" by (simp add: demo_exts_def)
  have 3: "length demo_name < 65536" by (simp add: demo_name_def)
  have 4: "record_ok [3, 1] (hello (replicate 37 7) [1, 2] [0x13, 0x01] [0] demo_exts @ [])"
    by (simp add: record_ok_def hello_def demo_exts_def ext_bytes_def name_body_def demo_name_def)
  have 5: "concat [[0x16, 3, 1], drop 3 (tls_record [3, 1] demo_hello), [99]]
      = tls_record [3, 1] (hello (replicate 37 7) [1, 2] [0x13, 0x01] [0] demo_exts @ []) @ [99]"
    by (simp add: tls_record_def demo_hello_def)
  have 6: "demo_name \<noteq> []" "has_suffix (to_lower (text_of demo_name)) ''.boeye.net''" by code_simp+
  from hello_routed_by_name [OF 1 2 3 4 5, of "''.boeye.net''"] 6 show ?thesis
    by (simp add: tls_record_def demo_hello_def)
qed

section \<open>The decision proxy\<close>

text \<open>
  C12. The decision of an Apple TV 8.45 is handled fail-open: PMS first gets the client's own request, and
  its answer (or 502 when there is none) is what the client gets, unless the answer re-encodes the video
  and the second request is answered. In the default mode that request differs from the first in nothing
  but the client profile: every query parameter and header that does not carry it is kept, in order, and
  none that carries it is left.
\<close>

theorem decision_fail_open:
  assumes "clientfix_handle ''strip'' unmarshal pms r = Answered rs p" and "\<not> has_prefix (hq_query r) ''&''"
  shows "\<exists>r1 r2. r1 = forward_req r (hq_query r) (hq_hdr r)
    \<and> r2 = r1\<lparr>hq_query := join_with ''&'' (filter keep_param (split_on CHR ''&'' (hq_query r))),
              hq_hdr := hdr_del profile_extra (hq_hdr r1)\<rparr>
    \<and> (rs, p) = (case pms 0 r1 of
         None \<Rightarrow> ([r1], upstream_error)
       | Some p1 \<Rightarrow>
           if videoIsTranscode unmarshal (hs_body p1)
           then ([r1, r2], writeResponse (case pms 1 r2 of Some p2 \<Rightarrow> p2 | None \<Rightarrow> p1))
           else ([r1], writeResponse p1))"
proof -
  have h: "handleDecision ''strip'' unmarshal pms r = (rs, p)"
    using assms(1) by (auto simp: clientfix_handle_def split: if_splits prod.splits)
  have "hdr_del a (filter P (hdr_del b h)) = hdr_del b (hdr_del a (filter P h))" for a b P and h :: header
    by (simp add: hdr_del_def conj_ac case_prod_unfold)
  then have r2: "forward_req r (stripProfileExtraQuery (hq_query r)) (stripProfileExtraHeader (hq_hdr r)) =
      (forward_req r (hq_query r) (hq_hdr r))
        \<lparr>hq_query := join_with ''&'' (filter keep_param (split_on CHR ''&'' (hq_query r))),
         hq_hdr := hdr_del profile_extra (hq_hdr (forward_req r (hq_query r) (hq_hdr r)))\<rparr>"
    by (simp add: forward_req_def strip_query_params [OF assms(2)] stripProfileExtraHeader_def)
  from h show ?thesis
    by (auto simp: handleDecision_def Let_def r2 split: option.splits if_splits)
qed

definition demo_request :: httpreq where
  "demo_request = \<lparr>hq_method = ''GET'', hq_path = ''/video/:/transcode/universal/decision'',
     hq_query = ''a=1&X-Plex-Client-Profile-Extra=x%26y&b=2'',
     hq_hdr = [(''X-Plex-Product'', [''Plex for Apple TV'']), (''X-Plex-Version'', [''8.45.1''])],
     hq_host = ''h'', hq_body = []\<rparr>"

definition demo_pms :: "nat \<Rightarrow> httpreq \<Rightarrow> httpresp option" where
  "demo_pms n r = (if n = 0 then Some \<lparr>hs_status = 200, hs_hdr = [], hs_body = ''first''\<rparr>
     else Some \<lparr>hs_status = 200, hs_hdr = [], hs_body = hq_query r\<rparr>)"

definition demo_mde :: "string \<Rightarrow> mde option" where
  "demo_mde b = Some [[\<lparr>mm_selected = ''1'', mm_parts = [\<lparr>mp_selected = ''1'',
     mp_streams = [\<lparr>ms_type = ''1'', ms_decision = ''transcode''\<rparr>]\<rparr>]\<rparr>]]"

theorem decision_fail_open_witness:
  "\<exists>rs p. clientfix_handle ''strip'' demo_mde demo_pms demo_request = Answered rs p
    \<and> length rs = 2 \<and> hs_body p = ''a=1&b=2''"
proof -
  have "isDecision (hq_path demo_request)" "appleTV845 (hq_hdr demo_request)" by code_simp+
  then obtain rs p where a: "clientfix_handle ''strip'' demo_mde demo_pms demo_request = Answered rs p"
    by (cases "handleDecision ''strip'' demo_mde demo_pms demo_request") (simp add: clientfix_handle_def)
  have n: "\<not> has_prefix (hq_query demo_request) ''&''" by code_simp
  have q: "join_with ''&'' (filter keep_param (split_on CHR ''&'' (hq_query demo_request))) = ''a=1&b=2''"
    by code_simp
  have v: "videoIsTranscode demo_mde b" for b by (simp add: videoIsTranscode_def demo_mde_def)
  from decision_fail_open [OF a n] show ?thesis
    unfolding q by (auto simp: a v demo_pms_def writeResponse_def)
qed

section \<open>The relay\<close>

text \<open>
  The relay gives every row of a segment list the times of its chunk: row \<open>k\<close> runs from \<open>k\<close> to \<open>k + 1\<close>
  segment times, whatever times the muxer wrote, so consecutive rows abut to the printed digit. No line is
  added, lost or moved, and a second pass keeps the row.
\<close>

theorem segment_rows:
  assumes "split_on CHR 0x0A body ! i = csv_text n a b w" and "i < length (split_on CHR 0x0A body)"
    and "row_ok n a b w" and "parse_nat n = Some k" and "int k < 2 ^ 63 - 1" and "0 \<le> t"
  shows "split_on CHR 0x0A (rewriteSegmentListCSV body t) ! i =
      csv_text n (format_fixed 6 (of_nat k * t)) (format_fixed 6 (of_nat (k + 1) * t)) []
    \<and> length (split_on CHR 0x0A (rewriteSegmentListCSV body t)) = length (split_on CHR 0x0A body)
    \<and> csv_row t (split_on CHR 0x0A (rewriteSegmentListCSV body t) ! i)
      = split_on CHR 0x0A (rewriteSegmentListCSV body t) ! i"
  using assms csv_row_chunk [OF assms(3-5)] chunk_row_again [OF assms(3-6)]
  by (simp add: csv_lines chunk_row_def)

theorem segment_rows_witness:
  "split_on CHR 0x0A (rewriteSegmentListCSV ''media-00111.ts,0.000000,8.0\<newline>'' 8) ! 0 = ''media-00111.ts,888.000000,896.000000''"
proof -
  have s: "split_on CHR 0x0A ''media-00111.ts,0.000000,8.0\<newline>'' = [csv_text ''00111'' ''0.000000'' ''8.0'' [], []]"
    by code_simp
  have 1: "row_ok ''00111'' ''0.000000'' ''8.0'' []" by code_simp
  have 2: "parse_nat ''00111'' = Some 111" by code_simp
  have 3: "csv_text ''00111'' (format_fixed 6 888) (format_fixed 6 896) [] = ''media-00111.ts,888.000000,896.000000''"
  proof -
    have "utoa 888 = ''888''" "utoa 896 = ''896''" by code_simp+
    then show ?thesis
      using format_fixed_nat [of 888] format_fixed_nat [of 896] by (simp add: csv_text_def)
  qed
  let ?b = "''media-00111.ts,0.000000,8.0\<newline>''"
  have 4: "split_on CHR 0x0A ?b ! 0 = csv_text ''00111'' ''0.000000'' ''8.0'' []" "0 < length (split_on CHR 0x0A ?b)"
    by (simp_all only: s nth_Cons_0 length_Cons)
  have 5: "int 111 < 2 ^ 63 - 1" "0 \<le> (8 :: rat)" "rat_of_nat 111 * 8 = 888" "rat_of_nat (111 + 1) * 8 = 896" by simp_all
  show ?thesis
    using segment_rows [OF 4 1 2 5(1,2)] unfolding 5(3,4) 3 by (rule conjunct1)
qed

text \<open>The query the relay forwards has every parameter but the segment time.\<close>

lemma relay_query_key:
  "map_of (parse_query (fw_query (relay_handle r body))) k =
     (if k = seg_time_key \<and> val_get (parse_query (hq_query r)) seg_time_key \<noteq> [] then None
      else map_of (parse_query (hq_query r)) k)"
proof (cases "val_get (parse_query (hq_query r)) seg_time_key = []")
  case True
  then show ?thesis by (simp add: relay_handle_def Let_def)
next
  case False
  let ?m = "val_del seg_time_key (parse_query (hq_query r))"
  have "distinct (map fst ?m)" "\<forall>(k, vs)\<in>set ?m. vs \<noteq> []"
    using parse_query_ok [of "hq_query r"] by (auto simp: val_del_def distinct_map_filter)
  from parse_encode [OF this, of k] False show ?thesis
    by (simp add: relay_handle_def Let_def val_del_lookup)
qed

lemma relay_handle_path: "fw_path (relay_handle r body) = hq_path r"
  by (simp add: relay_handle_def Let_def)

text \<open>
  C21. A report reaches PMS as it was made. Whatever the worker sends before the first progress of a session
  (duration, streams, dimensions), PMS reads each parameter from the query the relay forwards, behind the values the
  progress URL had for it, and every other parameter of that URL, its token among them, as it was, on the path of the
  report; only the relay's own segment time is taken out.
\<close>

theorem report_reaches_pms:
  assumes "(kind, sfx, ps) \<in> set (sendPrelude rawURL durationS streams)" "parse_url rawURL = Some u"
    and "parse_url (print_url (with_params ps (u\<lparr>ur_path := ur_path u @ sfx\<rparr>))) = Some (with_params ps (u\<lparr>ur_path := ur_path u @ sfx\<rparr>))"
    and "parse_url (put_url parse_url print_url rawURL (kind, sfx, ps)) = Some v"
    and "hq_path r = ur_path v" "hq_query r = ur_query v"
  shows "fw_path (relay_handle r body) = ur_path u @ sfx
    \<and> map_of (parse_query (fw_query (relay_handle r body))) k =
      (if k = seg_time_key \<and> val_get (parse_query (hq_query r)) seg_time_key \<noteq> [] then None
       else case map_of ps k of
              None \<Rightarrow> map_of (parse_query (ur_query u)) k
            | Some w \<Rightarrow> Some ((case map_of (parse_query (ur_query u)) k of None \<Rightarrow> [] | Some vs \<Rightarrow> vs) @ [w]))"
proof -
  have v: "v = with_params ps (u\<lparr>ur_path := ur_path u @ sfx\<rparr>)"
    using assms(2-4) by (cases "sfx = []") (simp_all add: put_url_def joinQuery_def joinQueryWithSuffix_def)
  then have path: "ur_path v = ur_path u @ sfx" by (simp add: with_params_def)
  have qu: "ur_query (u\<lparr>ur_path := x\<rparr>) = ur_query u" for x by simp
  have "map_of (parse_query (ur_query v)) k = (case map_of ps k of
      None \<Rightarrow> map_of (parse_query (ur_query u)) k
    | Some w \<Rightarrow> Some ((case map_of (parse_query (ur_query u)) k of None \<Rightarrow> [] | Some vs \<Rightarrow> vs) @ [w]))"
    using with_params_read [OF prelude_params_distinct [OF assms(1)], of "u\<lparr>ur_path := ur_path u @ sfx\<rparr>" k]
    unfolding v qu .
  then show ?thesis unfolding relay_query_key relay_handle_path assms(5) path assms(6) by (simp only: refl simp_thms)
qed

definition demo_parse :: "string \<Rightarrow> go_url option" where
  "demo_parse s = map_option (\<lambda>(p, q). \<lparr>ur_rest = [], ur_path = p, ur_query = q\<rparr>) (str_cut s CHR ''?'')"

definition demo_print :: "go_url \<Rightarrow> string" where
  "demo_print u = ur_path u @ CHR ''?'' # ur_query u"

lemma demo_round_trip: "demo_parse (demo_print \<lparr>ur_rest = [], ur_path = ''/p'', ur_query = q\<rparr>) = Some \<lparr>ur_rest = [], ur_path = ''/p'', ur_query = q\<rparr>"
  by (simp add: demo_parse_def demo_print_def str_cut_def)

theorem report_reaches_pms_witness:
  "\<exists>r body. map_of (parse_query (fw_query (relay_handle r body))) ''duration'' = Some [''2.000000'']
    \<and> fw_path (relay_handle r body) = ''/p''"
proof -
  let ?u = "\<lparr>ur_rest = [], ur_path = ''/p'', ur_query = ''X-Plex-Token=t''\<rparr>"
  let ?ps = "[(''duration'', ''2.000000'')]"
  let ?v = "with_params ?ps ?u"
  let ?r = "\<lparr>hq_method = ''PUT'', hq_path = ''/p'', hq_query = ur_query ?v, hq_hdr = [], hq_host = [], hq_body = []\<rparr>"
  have "utoa 2 = ''2''" by code_simp
  with format_fixed_nat [of 2] have "format_fixed 6 2 = ''2.000000''" by simp
  then have m: "(''duration'', [], ?ps) \<in> set (sendPrelude ''/p?X-Plex-Token=t'' 2 [])" by (simp add: sendPrelude_def)
  have pu: "demo_parse ''/p?X-Plex-Token=t'' = Some ?u" by (simp add: demo_parse_def str_cut_def)
  have rt: "demo_parse (demo_print (with_params ?ps (?u\<lparr>ur_path := ur_path ?u @ []\<rparr>))) = Some (with_params ?ps (?u\<lparr>ur_path := ur_path ?u @ []\<rparr>))"
    by (simp add: demo_round_trip with_params_def)
  have v: "demo_parse (put_url demo_parse demo_print ''/p?X-Plex-Token=t'' (''duration'', [], ?ps)) = Some ?v"
    using rt pu by (simp add: put_url_def joinQuery_def)
  have q: "hq_path ?r = ur_path ?v" "hq_query ?r = ur_query ?v" by (simp_all add: with_params_def)
  have e: "map_of (parse_query (ur_query ?u)) ''duration'' = None" "''duration'' \<noteq> seg_time_key" by code_simp+
  from report_reaches_pms [OF m pu rt v q, of None "''duration''"] e show ?thesis by (intro exI [of _ ?r] exI [of _ None]) simp
qed

section \<open>From ffmpeg to the media server\<close>















definition demo_task_os :: task_os where
  "demo_task_os = \<lparr>to_draining = False, to_cap = 2, to_dump = False, to_base = [], to_mkdir = True, to_capture = True,
     to_steps = \<lparr>os_pipe = True, os_stderr = True, os_stdout = True, os_start = Some 7\<rparr>, to_ptr = 1, to_now = 5,
     to_events = [ReadErr ''frame=1\<newline>'' (True, True), SegmentLine ''[scaleplex] segment-ready: a.ts\<newline>'' True,
       ReadOut ''x\<newline>'' (True, True)],
     to_wait = None, to_cancelled = False, to_last = True, to_others = [], to_entries = None, to_outcome = True\<rparr>"


definition demo_task_req :: task_req where
  "demo_task_req = \<lparr>tq_session = ''s'', tq_args = [''-f'', ''null''], tq_env = [], tq_cwd = '''', tq_rewrite = True\<rparr>"




section \<open>Signals, refusals and the Pass\<close>

lemma digit_id: "is_digit c \<Longrightarrow> id_char c"
  by (auto simp: is_digit_def id_char_def in_class_def Let_def)

lemma hex_lower_id: "\<forall>c\<in>set (hex_lower b). id_char c"
proof -
  have "list_all (\<lambda>d. id_char (''0123456789abcdef'' ! d)) [0..<16]" by code_simp
  then have h: "id_char (''0123456789abcdef'' ! d)" if "d < 16" for d
    using that by (simp only: list_all_iff) simp
  have b: "unat x < 256" for x :: byte
    by (rule order_less_le_trans [OF unsigned_less]) simp
  then have "unat x div 16 < 16" "unat x mod 16 < 16" for x :: byte
    using b [of x] by (simp_all add: less_mult_imp_div_less)
  with h show ?thesis unfolding hex_lower_def by auto
qed

lemma session_id_chars: "\<forall>c\<in>set (deriveSessionID args pid nonce). id_char c"
proof -
  have us: "id_char CHR ''_''" "id_char CHR ''-''" "\<forall>c\<in>set ''session''. id_char c" by code_simp+
  have "\<forall>c\<in>set (take 32 (sanitize p)). id_char c" for p
    using us(1) by (auto simp: sanitize_def dest!: in_set_takeD)
  moreover have "\<forall>c\<in>set (utoa pid). id_char c" using utoa_digits digit_id by blast
  ultimately show ?thesis
    using us hex_lower_id [of nonce] by (auto simp: deriveSessionID_def Let_def simp del: set_take_subset)
qed

lemma id_no_slash: "\<not> id_char CHR ''/''"
  by code_simp

text \<open>
  C23. A signal to the transcoder process ends its ffmpeg: the session id the shim makes up is safe in a path,
  so the kill it posts to the orchestrator is forwarded to the worker that serves the session, and that
  worker cancels exactly the task of the session and answers 202.
\<close>

theorem signal_kills_the_task:
  assumes "sid = deriveSessionID args pid nonce"
    and "map_of (rg_tasks reg) sid = Some t" and "url \<noteq> []"
  shows "\<exists>path. fst (snd (handleTaskByID net POST (drop (length orch) (killRemote orch sid)) (tracker_set sid url trk)))
      = Some (url @ path)
    \<and> worker_handleTaskByID ''POST'' path reg = (Status 202, reg\<lparr>rg_cancelled := rt_ptr t # rg_cancelled reg\<rparr>)"
proof (intro exI conjI)
  have slash: "CHR ''/'' \<notin> set sid" using session_id_chars id_no_slash assms(1) by blast
  show "fst (snd (handleTaskByID net POST (drop (length orch) (killRemote orch sid)) (tracker_set sid url trk)))
      = Some (url @ (''/task/'' @ sid @ ''/kill''))"
    using kill_forwarded [OF slash assms(3)] by (simp add: killRemote_def)
  have "split_task_path (''/task/'' @ sid @ ''/kill'') = (sid, ''kill'')"
    using task_id_kill [OF slash] by (simp add: split_task_path_def task_id_def)
  then show "worker_handleTaskByID ''POST'' (''/task/'' @ sid @ ''/kill'') reg =
      (Status 202, reg\<lparr>rg_cancelled := rt_ptr t # rg_cancelled reg\<rparr>)"
    using assms(2) by (simp add: worker_handleTaskByID_def reg_kill_def del: append_Cons)
qed

definition demo_registry :: "string \<Rightarrow> taskRegistry" where
  "demo_registry sid = \<lparr>rg_tasks = [(sid, running_task demo_task_os demo_task_req
     \<lparr>pr_args = [], pr_env = [], pr_url = [], pr_seek = 0, pr_mkv = False, pr_metric = None\<rparr> 7)],
     rg_cancelled = [], rg_live = [(1, sid)]\<rparr>"

lemma demo_registry_task:
  "map_of (rg_tasks (demo_registry sid)) sid = Some (running_task demo_task_os demo_task_req
     \<lparr>pr_args = [], pr_env = [], pr_url = [], pr_seek = 0, pr_mkv = False, pr_metric = None\<rparr> 7)"
  by (simp add: demo_registry_def)

lemma demo_registry_fields [simp]:
  "rg_cancelled (demo_registry sid) = []" "rt_ptr (running_task demo_task_os q p n) = 1"
  by (simp_all add: demo_registry_def running_task_def demo_task_os_def)

theorem signal_kills_the_task_witness:
  "deriveSessionID [''-i'', ''/m/my film.mkv''] 42 [10, 11] = ''my_film_mkv-42-0a0b''
   \<and> (\<exists>path. worker_handleTaskByID ''POST'' path (demo_registry ''my_film_mkv-42-0a0b'')
      = (Status 202, (demo_registry ''my_film_mkv-42-0a0b'')\<lparr>rg_cancelled := [1]\<rparr>))"
proof -
  have sid: "''my_film_mkv-42-0a0b'' = deriveSessionID [''-i'', ''/m/my film.mkv''] 42 [10, 11]" by code_simp
  have "''http://w'' \<noteq> []" by simp
  from signal_kills_the_task [OF sid demo_registry_task this, of "\<lambda>_. None" "[]" "[]"] obtain path where
    "worker_handleTaskByID ''POST'' path (demo_registry ''my_film_mkv-42-0a0b'')
      = (Status 202, (demo_registry ''my_film_mkv-42-0a0b'')\<lparr>rg_cancelled := [1]\<rparr>)"
    by (simp only: demo_registry_fields) blast
  with sid show ?thesis by metis
qed

text \<open>
  C24. A session that no worker accepts ends the transcoder process with exit code 75 (a temporary failure)
  and without a byte on its standard output: the orchestrator's 503 is what the shim turns into the code.
\<close>

theorem refused_session_exits_75:
  assumes "dispatchTask fuel e body s = Some s'" and "accepted_count (d_hist s') = 0"
  shows "map_option (\<lambda>st. (so_stdout (shim_finish url (PostReply st reads)), so_exit (shim_finish url (PostReply st reads))))
      (ps_status (d_ps s')) = Some ([], 75)"
  using all_refused [OF assms] by (simp add: shim_finish_def statusToExit_def)

theorem refused_session_exits_75_witness:
  "\<exists>s'. dispatchTask 3 (demo_world all_busy) demo_req (demo_state\<lparr>d_pool := one_pool\<rparr>) = Some s'
     \<and> map_option (\<lambda>st. so_exit (shim_finish [] (PostReply st []))) (ps_status (d_ps s')) = Some 75"
proof -
  have "map_option (\<lambda>s. accepted_count (d_hist s))
      (dispatchTask 3 (demo_world all_busy) demo_req (demo_state\<lparr>d_pool := one_pool\<rparr>)) = Some 0"
    by code_simp
  then obtain s' where s': "dispatchTask 3 (demo_world all_busy) demo_req (demo_state\<lparr>d_pool := one_pool\<rparr>) = Some s'"
    "accepted_count (d_hist s') = 0" by auto
  from refused_session_exits_75 [OF s', of "[]" "[]"] s'(1) show ?thesis by auto
qed

text \<open>What the shim forwards of the Pass.\<close>

lemma environ_map_distinct: "distinct (map fst (environ_map environ))"
proof -
  have "distinct (map fst m) \<Longrightarrow> distinct (map fst (fold (\<lambda>kv out. case str_cut kv (CHR ''='') of
      None \<Rightarrow> out | Some (k, v) \<Rightarrow> AList.update k v out) environ m))" for m
    by (induction environ arbitrary: m) (auto simp: distinct_update split: option.split)
  then show ?thesis by (simp add: environ_map_def)
qed






end
