(* ===== verification/ServeMux.thy ===== *)
theory ServeMux
  imports OrchHttp WorkerTask WorkerLoad
begin

text \<open>
  Which handler of the orchestrator (\<open>src/orchestrator/main.go\<close>) and of the worker (\<open>src/worker/agent/main.go\<close>) gets a
  request, and what the worker does before it listens.
\<close>

section \<open>Patterns\<close>

text \<open>Go's \<open>ServeMux\<close> on a clean path: the pattern that equals it, or the longest one that ends in a slash
  and is a prefix of it.\<close>

definition serve_mux :: "(string \<times> 'h) list \<Rightarrow> string \<Rightarrow> 'h option" where
  "serve_mux pats path =
     (case map_of pats path of
        Some h \<Rightarrow> Some h
      | None \<Rightarrow>
          (case sort_key (\<lambda>ph. - int (length (fst ph))) (filter (\<lambda>ph. has_prefix path (fst ph)) (filter (\<lambda>ph. has_suffix (fst ph) ''/'') pats)) of
             [] \<Rightarrow> None
           | ph # phs \<Rightarrow> Some (snd ph)))"

datatype orch_handler = OrchHealth | OrchReady | OrchWorkers | OrchRegister | OrchTaskPost | OrchTaskByID | OrchMetrics

definition orch_mux :: "(string \<times> orch_handler) list" where
  "orch_mux = [(''/healthz'', OrchHealth), (''/readyz'', OrchReady), (''/workers'', OrchWorkers), (''/register'', OrchRegister),
     (''/task'', OrchTaskPost), (''/task/'', OrchTaskByID), (''/metrics'', OrchMetrics)]"

datatype agent_handler = AgentHealth | AgentReady | AgentCapability | AgentTask | AgentTaskByID | AgentMetrics

definition agent_mux :: "(string \<times> agent_handler) list" where
  "agent_mux = [(''/healthz'', AgentHealth), (''/readyz'', AgentReady), (''/capability'', AgentCapability), (''/task'', AgentTask),
     (''/task/'', AgentTaskByID), (''/metrics'', AgentMetrics)]"

definition agent_handleHealth :: "int \<times> string" where
  "agent_handleHealth = (200, ''ok\<newline>'')"

section \<open>The start of a worker\<close>

text \<open>What is set and started before the server listens: the gauges, the backend with the text that names it, the
  warning about forced hardware, the sampler, the pre-warm and the registration.\<close>

record worker_start =
  wk_maxSessions :: int
  wk_ffmpegOK :: bool
  wk_dialect :: dialect
  wk_detail :: string
  wk_warns :: bool
  wk_sampler :: engineSampler
  wk_prewarm :: "argv list \<times> bool"
  wk_register :: "(string \<times> string \<times> int) option"

definition backend_detail :: "dialect \<Rightarrow> string" where
  "backend_detail d = backendName d
     @ (case d of VaapiDialect v \<Rightarrow> if v \<noteq> [] then '' (vendor='' @ v @ '')'' else [] | _ \<Rightarrow> [])"

definition worker_main :: "env \<Rightarrow> bool \<Rightarrow> dialect \<Rightarrow> string list option \<times> string \<Rightarrow> (int \<times> nat list option) list
    \<Rightarrow> (string \<Rightarrow> bool) \<Rightarrow> string list option \<Rightarrow> string option \<Rightarrow> worker_start" where
  "worker_main os ffmpeg d det samples opens dri hostname =
     \<lparr>wk_maxSessions = WorkerAgent.maxSessions (env_get os ''WORKER_MAX_SESSIONS''), wk_ffmpegOK = ffmpeg,
      wk_dialect = d, wk_detail = backend_detail d, wk_warns = RewriteDialect.envBool os ''SCALEPLEX_FORCE_HW'',
      wk_sampler = startEngineSampler det samples, wk_prewarm = prewarm d opens dri,
      wk_register = startRegisterLoop (env_get os ''SCALEPLEX_ORCHESTRATOR_URL'') (env_get os ''SCALEPLEX_WORKER_HOST'')
        hostname (env_get os ''SCALEPLEX_HEARTBEAT_SECONDS'')\<rparr>"

section \<open>Facts\<close>

lemma subtrees:
  "filter (\<lambda>ph. has_suffix (fst ph) ''/'') orch_mux = [(''/task/'', OrchTaskByID)]"
  "filter (\<lambda>ph. has_suffix (fst ph) ''/'') agent_mux = [(''/task/'', AgentTaskByID)]"
  by code_simp+

lemma task_paths_exact:
  "map_of orch_mux (''/task/'' @ rest) = (if rest = [] then Some OrchTaskByID else None)"
  "map_of agent_mux (''/task/'' @ rest) = (if rest = [] then Some AgentTaskByID else None)"
  by (simp_all add: orch_mux_def agent_mux_def)

lemma task_paths_by_id:
  "serve_mux orch_mux (''/task/'' @ rest) = Some OrchTaskByID" "serve_mux agent_mux (''/task/'' @ rest) = Some AgentTaskByID"
  unfolding serve_mux_def subtrees task_paths_exact by (simp_all add: has_prefix_def)

lemma plain_paths:
  "(p, h) \<in> set orch_mux \<Longrightarrow> serve_mux orch_mux p = Some h"
  "(p, g) \<in> set agent_mux \<Longrightarrow> serve_mux agent_mux p = Some g"
proof -
  have "distinct (map fst orch_mux)" "distinct (map fst agent_mux)" by code_simp+
  then show "(p, h) \<in> set orch_mux \<Longrightarrow> serve_mux orch_mux p = Some h" "(p, g) \<in> set agent_mux \<Longrightarrow> serve_mux agent_mux p = Some g"
    by (simp_all add: serve_mux_def)
qed

text \<open>A worker that registers talks to the handler of registrations, and is ready once it has warmed up,
  whatever of that failed.\<close>

lemma registration_is_routed:
  "wk_register (worker_main os ffmpeg d det samples opens dri hostname) = Some (url, host, iv) \<Longrightarrow>
     \<exists>base. url = base @ ''/register'' \<and> serve_mux orch_mux ''/register'' = Some OrchRegister"
proof -
  have "serve_mux orch_mux ''/register'' = Some OrchRegister" by (rule plain_paths(1)) (simp add: orch_mux_def)
  then show "wk_register (worker_main os ffmpeg d det samples opens dri hostname) = Some (url, host, iv) \<Longrightarrow> ?thesis"
    by (auto simp: worker_main_def startRegisterLoop_def Let_def split: if_splits)
qed

lemma ready_after_prewarm:
  "worker_handleReady False (snd (wk_prewarm (worker_main os ffmpeg d det samples opens dri hostname))) = (200, ''ready\<newline>'')"
  by (simp add: worker_main_def prewarm_def worker_handleReady_def)

end
