(* ===== verification/ToolPlex.thy ===== *)
theory ToolPlex
  imports GoHttp
begin

text \<open>
  The client of the PMS REST interface (\<open>src/cmd/optimize-corpus-gen/plex\<close>): the requests it makes, its errors,
  sections and items, Optimize jobs, preferences with their snapshot, and sessions. A call takes the
  answer of the server as an argument; decoding JSON is an argument too. The texts of errors are exact where
  the code looks into them (\<open>do\<close>) and shortened where they are only logged.
\<close>

section \<open>Requests and answers (\<open>client.go\<close>)\<close>

record plex_client =
  pc_base :: string
  pc_token :: string

definition New :: "string \<Rightarrow> string \<Rightarrow> plex_client" where
  "New baseURL token = \<lparr>pc_base = trim_right (\<lambda>c. c = CHR ''/'') baseURL, pc_token = token\<rparr>"

text \<open>A call of \<open>do\<close>: the method, the path, the query parameters.\<close>

type_synonym plex_call = "string \<times> string \<times> (string \<times> string) list"

definition val_set :: "string \<times> string \<Rightarrow> url_values \<Rightarrow> url_values" where
  "val_set kv q = (case kv of (k, v) \<Rightarrow> AList.update k [v] q)"

definition request_url :: "plex_client \<Rightarrow> plex_call \<Rightarrow> string \<times> string" where
  "request_url c call =
     (case call of (method, path, ps) \<Rightarrow>
        (method, pc_base c @ path @ ''?'' @ encode_values (val_set (''X-Plex-Token'', pc_token c) (fold val_set ps []))))"

definition ellipsis :: string where
  "ellipsis = [CHR 0xE2, CHR 0x80, CHR 0xA6]"

definition dash :: string where
  "dash = [CHR 0xE2, CHR 0x80, CHR 0x94]"

definition truncate_text :: "string \<Rightarrow> nat \<Rightarrow> string" where
  "truncate_text s n = (if length s \<le> n then s else take n s @ ellipsis)"

text \<open>The transport's error, or the status code, the status line and the body.\<close>

datatype plex_reply = TransportError string | PlexReply int string string

definition plex_do :: "plex_call \<Rightarrow> plex_reply \<Rightarrow> string + string" where
  "plex_do call reply =
     (case call of (method, path, ps) \<Rightarrow>
        case reply of
          TransportError e \<Rightarrow> Inl (method @ '' '' @ path @ '': '' @ e)
        | PlexReply status line body \<Rightarrow>
            if 400 \<le> status
            then Inl (method @ '' '' @ path @ '': '' @ line @ '' '' @ dash @ '' '' @ truncate_text body 200)
            else Inr body)"

text \<open>The decoded body; an empty body leaves the zero value.\<close>

definition plex_decoded :: "(string \<Rightarrow> 'a option) \<Rightarrow> 'a \<Rightarrow> plex_call \<Rightarrow> plex_reply \<Rightarrow> string + 'a" where
  "plex_decoded dec zero call reply =
     (case plex_do call reply of
        Inl e \<Rightarrow> Inl e
      | Inr body \<Rightarrow>
          if body = [] then Inr zero
          else (case dec body of
                  Some v \<Rightarrow> Inr v
                | None \<Rightarrow> Inl (''decode '' @ fst call @ '' '' @ fst (snd call) @ '': body='' @ truncate_text body 200)))"

section \<open>Sections and items (\<open>library.go\<close>, \<open>sections_admin.go\<close>)\<close>

record Section =
  se_Key :: string
  se_Type :: string
  se_Title :: string
  se_UUID :: string

record Media =
  me_ID :: int
  me_ProxyType :: int
  me_Files :: "string list"

record Item =
  it_RatingKey :: string
  it_Title :: string
  it_Type :: string
  it_Media :: "Media list"

definition identity_call :: plex_call where "identity_call = (''GET'', ''/identity'', [])"
definition sections_call :: plex_call where "sections_call = (''GET'', ''/library/sections'', [])"

definition section_items_call :: "string \<Rightarrow> plex_call" where
  "section_items_call key = (''GET'', ''/library/sections/'' @ key @ ''/all'', [])"

definition episodes_call :: "string \<Rightarrow> plex_call" where
  "episodes_call key = (''GET'', ''/library/metadata/'' @ key @ ''/allLeaves'', [])"

definition metadata_call :: "string \<Rightarrow> plex_call" where
  "metadata_call key = (''GET'', ''/library/metadata/'' @ key, [(''includeChildren'', ''1'')])"

definition metadata_item :: "string \<Rightarrow> string + Item list \<Rightarrow> string + Item" where
  "metadata_item key answer =
     (case answer of
        Inl e \<Rightarrow> Inl e
      | Inr [] \<Rightarrow> Inl (''metadata '' @ key @ '': no item returned'')
      | Inr (i # is) \<Rightarrow> Inr i)"

definition FindSectionByTitle :: "string \<Rightarrow> string + Section list \<Rightarrow> string + Section" where
  "FindSectionByTitle title answer =
     (case answer of
        Inl e \<Rightarrow> Inl e
      | Inr secs \<Rightarrow>
          (case find (\<lambda>s. se_Title s = title) secs of
             Some s \<Rightarrow> Inr s
           | None \<Rightarrow> Inl (''section not found; available: ['' @ join_with '', '' (map se_Title secs) @ '']'')))"

text \<open>The Optimize outputs of an item are deleted one after the other; the count, and whether it went through.\<close>

definition delete_media_call :: "string \<Rightarrow> Media \<Rightarrow> plex_call" where
  "delete_media_call key m = (''DELETE'', ''/library/metadata/'' @ key @ ''/media/'' @ itoa (me_ID m), [])"

fun delete_children :: "string \<Rightarrow> (Media \<Rightarrow> bool) \<Rightarrow> Media list \<Rightarrow> plex_call list \<times> nat \<times> bool" where
  "delete_children key oks [] = ([], 0, True)"
| "delete_children key oks (m # ms) =
     (if me_ProxyType m \<noteq> 42 then delete_children key oks ms
      else if \<not> oks m then ([delete_media_call key m], 0, False)
      else (case delete_children key oks ms of (calls, n, fine) \<Rightarrow> (delete_media_call key m # calls, Suc n, fine)))"

definition create_section_call :: "string \<Rightarrow> string \<Rightarrow> plex_call" where
  "create_section_call name location =
     (''POST'', ''/library/sections'',
      [(''name'', name), (''type'', ''movie''), (''agent'', ''tv.plex.agents.none''), (''scanner'', ''Plex Movie''),
       (''language'', ''en-US''), (''location'', location), (''prefs[collectionMode]'', ''0''),
       (''prefs[enableAutoPhotoTags]'', ''0'')])"

text \<open>\<open>first\<close> and \<open>again\<close> are the listings before and after the creation, \<open>created\<close> its error. The calls, and the
  section.\<close>

definition CreateOrFindSection ::
    "string \<Rightarrow> string \<Rightarrow> string + Section list \<Rightarrow> string option \<Rightarrow> string + Section list \<Rightarrow> plex_call list \<times> (string + Section)" where
  "CreateOrFindSection name location before created again =
     (case FindSectionByTitle name before of
        Inr s \<Rightarrow> ([sections_call], Inr s)
      | Inl e \<Rightarrow>
          (case created of
             Some err \<Rightarrow> ([sections_call, create_section_call name location], Inl (''create section: '' @ err))
           | None \<Rightarrow>
               ([sections_call, create_section_call name location, sections_call],
                case FindSectionByTitle name again of Inr s \<Rightarrow> Inr s | Inl err \<Rightarrow> Inl (''re-list after create: '' @ err))))"

definition refresh_call :: "string \<Rightarrow> plex_call" where
  "refresh_call key = (''GET'', ''/library/sections/'' @ key @ ''/refresh'', [])"

text \<open>The polls of \<open>WaitForSectionItems\<close>: what each listing gives, and whether the deadline has passed then. \<open>None\<close>: the
  polls went on. \<open>Inl\<close> is the error with the items so far.\<close>

fun wait_items :: "nat \<Rightarrow> ((string + 'i list) \<times> bool) list \<Rightarrow> ((string \<times> 'i list) + 'i list) option" where
  "wait_items n [] = None"
| "wait_items n ((answer, late) # polls) =
     (case answer of
        Inl e \<Rightarrow> Some (Inl (e, []))
      | Inr items \<Rightarrow>
          if n \<le> length items then Some (Inr items)
          else if late then Some (Inl (''WaitForSectionItems: timeout'', items))
          else wait_items n polls)"

section \<open>Optimize jobs (\<open>optimize.go\<close>, \<open>sessions.go\<close>)\<close>

record OptimizedItem =
  oi_ID :: int
  oi_Title :: string

record TranscodeSession =
  ts_Key :: string
  ts_Context :: string

definition targets_call :: plex_call where
  "targets_call = (''GET'', ''/library/tags'', [(''type'', ''42'')])"

definition playlists_call :: plex_call where
  "playlists_call = (''GET'', ''/playlists'', [(''type'', ''42'')])"

definition BackgroundProcessingKey :: "string + string list \<Rightarrow> string + string" where
  "BackgroundProcessingKey answer =
     (case answer of
        Inl e \<Rightarrow> Inl e
      | Inr [] \<Rightarrow> Inl ''no background-processing playlist found''
      | Inr (k # ks) \<Rightarrow> if k = [] then Inl ''no background-processing playlist found'' else Inr k)"

definition TriggerOptimize :: "string \<Rightarrow> string \<Rightarrow> string \<Rightarrow> string \<Rightarrow> int \<Rightarrow> string + plex_call" where
  "TriggerOptimize backgroundKey ratingKey sectionUUID jobTitle targetTagID =
     (if backgroundKey = [] \<or> sectionUUID = [] then Inl ''TriggerOptimize: backgroundKey and sectionUUID required''
      else Inr (''PUT'', backgroundKey,
        [(''Item[type]'', ''42''), (''Item[title]'', jobTitle), (''Item[target]'', []),
         (''Item[targetTagID]'', itoa targetTagID), (''Item[locationID]'', ''-1''),
         (''Item[Location][uri]'', ''library://'' @ sectionUUID @ ''/item/'' @ query_escape (''/library/metadata/'' @ ratingKey)),
         (''Item[Policy][scope]'', ''all''), (''Item[Policy][value]'', ''0''), (''Item[Policy][unwatched]'', ''0'')]))"

definition optimized_items_call :: "string \<Rightarrow> plex_call" where
  "optimized_items_call backgroundKey = (''GET'', backgroundKey, [])"

definition CancelOptimize :: "string \<Rightarrow> int \<Rightarrow> string + plex_call" where
  "CancelOptimize backgroundKey itemID =
     (if backgroundKey = [] \<or> itemID = 0 then Inl ''CancelOptimize: backgroundKey and id required''
      else Inr (''DELETE'', backgroundKey @ ''/'' @ itoa itemID, []))"

definition sessions_call :: plex_call where
  "sessions_call = (''GET'', ''/transcode/sessions'', [])"

definition StopTranscodeSession :: "string \<Rightarrow> string + plex_call" where
  "StopTranscodeSession key =
     (if key = [] then Inl ''StopTranscodeSession: empty key'' else Inr (''DELETE'', ''/transcode/sessions/'' @ key, []))"

section \<open>Preferences (\<open>prefs.go\<close>)\<close>

text \<open>A value as JSON decodes it. \<open>float_text\<close> prints a number that is no integer.\<close>

datatype pref_value = PBool bool | PNum rat | PText string | PNull

fun StringValue :: "(rat \<Rightarrow> string) \<Rightarrow> pref_value \<Rightarrow> string" where
  "StringValue float_text (PBool b) = (if b then ''true'' else ''false'')"
| "StringValue float_text (PNum v) = (if v = of_int \<lfloor>v\<rfloor> then itoa \<lfloor>v\<rfloor> else float_text v)"
| "StringValue float_text (PText s) = s"
| "StringValue float_text PNull = []"

definition PrefMatrixIDs :: "string list" where
  "PrefMatrixIDs = [''HardwareAcceleratedCodecs'', ''HardwareAcceleratedEncoders'', ''TranscoderToneMapping'',
     ''TranscoderHEVCEncodingMode'', ''TranscoderHEVCOptimize'']"

definition prefs_call :: plex_call where
  "prefs_call = (''GET'', ''/:/prefs'', [])"

text \<open>\<open>SetPrefs\<close>: no call for no values.\<close>

definition SetPrefs :: "(string \<times> string) list \<Rightarrow> plex_call option" where
  "SetPrefs values = (if values = [] then None else Some (''PUT'', ''/:/prefs'', values))"

definition SaveSnapshot :: "(rat \<Rightarrow> string) \<Rightarrow> string + (string \<times> pref_value) list \<Rightarrow> string + (string \<times> string) list" where
  "SaveSnapshot float_text answer =
     (case answer of
        Inl e \<Rightarrow> Inl e
      | Inr settings \<Rightarrow>
          (let prefs = fold (\<lambda>(k, v) m. AList.update k v m) settings []
           in case find (\<lambda>i. map_of prefs i = None) PrefMatrixIDs of
                Some i \<Rightarrow> Inl (''pref '' @ i @ '' not found on server (PMS version skew?)'')
              | None \<Rightarrow> Inr (map (\<lambda>i. (i, StringValue float_text (the (map_of prefs i)))) PrefMatrixIDs)))"

definition Restore :: "(string \<times> string) list \<Rightarrow> plex_call option" where
  "Restore snap = SetPrefs snap"

section \<open>Facts\<close>

text \<open>An existing section is returned whatever its location, and a failed listing counts as a missing section.\<close>

lemma existing_section_wins:
  "find (\<lambda>s. se_Title s = name) secs = Some s \<Longrightarrow>
    CreateOrFindSection name location (Inr secs) created again = ([sections_call], Inr s)"
  by (simp add: CreateOrFindSection_def FindSectionByTitle_def)

lemma failed_listing_creates:
  "create_section_call name location \<in> set (fst (CreateOrFindSection name location (Inl e) created again))"
  by (simp add: CreateOrFindSection_def FindSectionByTitle_def split: option.split)

text \<open>The body is cut to bytes, not runes.\<close>

lemma truncate_length: "length (truncate_text s n) \<le> n + 3"
  by (simp add: truncate_text_def ellipsis_def)

text \<open>Every request carries the token, and its other parameters read back.\<close>

lemma val_set_lookup: "map_of (val_set kv q) k = (if k = fst kv then Some [snd kv] else map_of q k)"
  by (cases kv) (auto simp: val_set_def update_conv')

definition good_values :: "url_values \<Rightarrow> bool" where
  "good_values q \<longleftrightarrow> distinct (map fst q) \<and> (\<forall>(k, vs)\<in>set q. vs \<noteq> [])"

lemma val_set_good: "good_values q \<Longrightarrow> good_values (val_set kv q)"
proof -
  assume q: "good_values q"
  have "(k, vs) \<in> set (AList.update a [b] m) \<Longrightarrow> \<forall>(k, vs)\<in>set m. vs \<noteq> [] \<Longrightarrow> vs \<noteq> []" for k vs a b m
    by (induction m) (auto split: if_splits)
  with q show ?thesis by (cases kv) (fastforce simp: val_set_def good_values_def distinct_update)
qed

lemma fold_val_set_good: "good_values q \<Longrightarrow> good_values (fold val_set ps q)"
  by (induction ps arbitrary: q) (simp_all add: val_set_good)

lemma fold_val_set_lookup:
  "map_of (fold val_set ps q) k = (case map_of (rev ps) k of Some v \<Rightarrow> Some [v] | None \<Rightarrow> map_of q k)"
  by (induction ps arbitrary: q) (auto simp: val_set_lookup map_add_def split: option.splits)

text \<open>What the server reads from the query of a request.\<close>

lemma request_query:
  "\<exists>query. snd (request_url c (method, path, ps)) = pc_base c @ path @ ''?'' @ query
    \<and> map_of (parse_query query) k =
      (if k = ''X-Plex-Token'' then Some [pc_token c] else map_option (\<lambda>v. [v]) (map_of (rev ps) k))"
proof (intro exI conjI)
  let ?q = "val_set (''X-Plex-Token'', pc_token c) (fold val_set ps [])"
  show "snd (request_url c (method, path, ps)) = pc_base c @ path @ ''?'' @ encode_values ?q"
    by (simp add: request_url_def)
  have "good_values ?q" by (intro val_set_good fold_val_set_good) (simp add: good_values_def)
  then have "distinct (map fst ?q)" "\<forall>(k, vs)\<in>set ?q. vs \<noteq> []" by (simp_all add: good_values_def)
  from parse_encode [OF this] show "map_of (parse_query (encode_values ?q)) k =
      (if k = ''X-Plex-Token'' then Some [pc_token c] else map_option (\<lambda>v. [v]) (map_of (rev ps) k))"
    by (simp add: val_set_lookup fold_val_set_lookup split: option.split)
qed

text \<open>A snapshot has every key of the matrix, once.\<close>

lemma snapshot_keys: "SaveSnapshot float_text answer = Inr snap \<Longrightarrow> map fst snap = PrefMatrixIDs"
  by (auto simp: SaveSnapshot_def Let_def comp_def split: sum.splits option.splits)

end
