(* ===== verification/GoUnicode.thy ===== *)
theory GoUnicode
  imports GoHttp
begin

text \<open>
  UTF-8 (\<open>unicode/utf8\<close>) and quoted strings (\<open>strconv.Quote\<close>, \<open>strconv.Unquote\<close>, the verb \<open>%q\<close>) on byte strings. A
  rune is a natural number. Which runes outside ASCII are printable is an argument: the tables of
  \<open>strconv.IsPrint\<close> only choose between two spellings that read back alike.
\<close>

section \<open>UTF-8\<close>

abbreviation code :: "char \<Rightarrow> nat" where "code \<equiv> of_char"
abbreviation byte_char :: "nat \<Rightarrow> char" where "byte_char \<equiv> char_of"

definition rune_error :: nat where
  "rune_error = 0xFFFD"

definition valid_rune :: "nat \<Rightarrow> bool" where
  "valid_rune r \<longleftrightarrow> r < 0xD800 \<or> 0xE000 \<le> r \<and> r < 0x110000"

definition tail_byte :: "nat \<Rightarrow> bool" where
  "tail_byte b \<longleftrightarrow> 0x80 \<le> b \<and> b < 0xC0"

text \<open>\<open>utf8.AppendRune\<close>.\<close>

definition encode_rune :: "nat \<Rightarrow> string" where
  "encode_rune q =
     (let r = (if valid_rune q then q else rune_error)
      in if r < 0x80 then [byte_char r]
         else if r < 0x800 then [byte_char (0xC0 + r div 64), byte_char (0x80 + r mod 64)]
         else if r < 0x10000
         then [byte_char (0xE0 + r div 4096), byte_char (0x80 + r div 64 mod 64), byte_char (0x80 + r mod 64)]
         else [byte_char (0xF0 + r div 262144), byte_char (0x80 + r div 4096 mod 64),
               byte_char (0x80 + r div 64 mod 64), byte_char (0x80 + r mod 64)])"

text \<open>\<open>utf8.DecodeRuneInString\<close>: the rune and its width; a malformed start is \<open>rune_error\<close> of width 1.\<close>

definition decode2 :: "nat \<Rightarrow> nat \<Rightarrow> nat option" where
  "decode2 a b = (if 0xC2 \<le> a \<and> a < 0xE0 \<and> tail_byte b then Some ((a - 0xC0) * 64 + (b - 0x80)) else None)"

definition decode3 :: "nat \<Rightarrow> nat \<Rightarrow> nat \<Rightarrow> nat option" where
  "decode3 a b c =
     (if 0xE0 \<le> a \<and> a < 0xF0 \<and> tail_byte b \<and> tail_byte c \<and> (a = 0xE0 \<longrightarrow> 0xA0 \<le> b) \<and> (a = 0xED \<longrightarrow> b < 0xA0)
      then Some ((a - 0xE0) * 4096 + (b - 0x80) * 64 + (c - 0x80)) else None)"

definition decode4 :: "nat \<Rightarrow> nat \<Rightarrow> nat \<Rightarrow> nat \<Rightarrow> nat option" where
  "decode4 a b c d =
     (if 0xF0 \<le> a \<and> a < 0xF5 \<and> tail_byte b \<and> tail_byte c \<and> tail_byte d \<and> (a = 0xF0 \<longrightarrow> 0x90 \<le> b) \<and> (a = 0xF4 \<longrightarrow> b < 0x90)
      then Some ((a - 0xF0) * 262144 + (b - 0x80) * 4096 + (c - 0x80) * 64 + (d - 0x80)) else None)"

fun decode_rune :: "string \<Rightarrow> nat \<times> nat" where
  "decode_rune [] = (rune_error, 0)"
| "decode_rune (a # s) =
     (if code a < 0x80 then (code a, 1)
      else
        (case s of
           [] \<Rightarrow> (rune_error, 1)
         | b # s2 \<Rightarrow>
             (case decode2 (code a) (code b) of
                Some r \<Rightarrow> (r, 2)
              | None \<Rightarrow>
                  (case s2 of
                     [] \<Rightarrow> (rune_error, 1)
                   | c # s3 \<Rightarrow>
                       (case decode3 (code a) (code b) (code c) of
                          Some r \<Rightarrow> (r, 3)
                        | None \<Rightarrow>
                            (case s3 of
                               [] \<Rightarrow> (rune_error, 1)
                             | d # s4 \<Rightarrow>
                                 (case decode4 (code a) (code b) (code c) (code d) of
                                    Some r \<Rightarrow> (r, 4) | None \<Rightarrow> (rune_error, 1))))))))"

lemma code_less [simp]: "code c < 256"
  by (simp add: of_char_def)

lemma byte_code [simp]: "byte_char (code c) = c"
  by (rule char_of_char)

lemma code_byte: "n < 256 \<Longrightarrow> code (byte_char n) = n"
  by simp

text \<open>A well-formed rune is what its bytes encode, and its bytes alone decide.\<close>

lemma tail_split: "tail_byte n \<Longrightarrow> \<exists>x. n = 0x80 + x \<and> x < 64"
  by (rule exI [of _ "n - 0x80"]) (auto simp: tail_byte_def)

lemma lead_split:
  fixes l n u :: nat
  shows "l \<le> n \<Longrightarrow> n < u \<Longrightarrow> \<exists>x. n = l + x \<and> x < u - l"
  by (rule exI [of _ "n - l"]) linarith

lemma code_split: "code c = n \<Longrightarrow> c = byte_char n"
  by (metis byte_code)

lemma shift_div:
  fixes x y n :: nat assumes "y < n" shows "(x * n + y) div n = x"
  using assms by simp

lemma shift_mod:
  fixes x y n :: nat assumes "y < n" shows "(x * n + y) mod n = y"
  using assms by simp

lemma encode2: "decode2 (code a) (code b) = Some r \<Longrightarrow> encode_rune r = [a, b] \<and> valid_rune r \<and> 0x80 \<le> r"
proof -
  assume h: "decode2 (code a) (code b) = Some r"
  then obtain x y where a: "code a = 0xC0 + x" "x < 32" and b: "code b = 0x80 + y" "y < 64" and x: "2 \<le> x"
    using lead_split [of "0xC0" "code a" "0xE0"] tail_split [of "code b"] by (force simp: decode2_def split: if_splits)
  with h have r: "r = x * 64 + y" by (simp add: decode2_def tail_byte_def)
  show ?thesis using a b x unfolding r
    by (simp add: encode_rune_def valid_rune_def code_split [OF a(1)] code_split [OF b(1)])
qed

lemma encode3: "decode3 (code a) (code b) (code c) = Some r \<Longrightarrow> encode_rune r = [a, b, c] \<and> valid_rune r \<and> 0x80 \<le> r"
proof -
  assume h: "decode3 (code a) (code b) (code c) = Some r"
  then obtain x y z where a: "code a = 0xE0 + x" "x < 16" and b: "code b = 0x80 + y" "y < 64" and c: "code c = 0x80 + z" "z < 64"
    using lead_split [of "0xE0" "code a" "0xF0"] tail_split [of "code b"] tail_split [of "code c"]
    by (force simp: decode3_def split: if_splits)
  with h have r: "r = (x * 64 + y) * 64 + z" and x: "x = 0 \<longrightarrow> 32 \<le> y" "x = 13 \<longrightarrow> y < 32"
    by (auto simp: decode3_def tail_byte_def algebra_simps split: if_splits)
  have "r div 64 = x * 64 + y" "r mod 64 = z" unfolding r by (rule shift_div shift_mod; rule c(2))+
  moreover have "r div 4096 = x"
    using b(2) c(2) shift_div [where y = "y * 64 + z" and n = 4096 and x = x] by (simp add: r algebra_simps)
  ultimately have d: "r div 64 = x * 64 + y" "r mod 64 = z" "r div 4096 = x" .
  have l: "0x800 \<le> r" "r < 0x10000" using a(2) b(2) c(2) x by (cases "x = 0"; simp add: r)+
  have v: "r < 0xD800 \<or> 0xE000 \<le> r" using a(2) b(2) c(2) x(2) by (cases "x = 13"; cases "x < 13"; simp add: r)
  show ?thesis using d l v b(2) by (simp add: encode_rune_def valid_rune_def code_split [OF a(1)] code_split [OF b(1)] code_split [OF c(1)])
qed

lemma encode4: "decode4 (code a) (code b) (code c) (code d) = Some r \<Longrightarrow>
  encode_rune r = [a, b, c, d] \<and> valid_rune r \<and> 0x80 \<le> r"
proof -
  assume h: "decode4 (code a) (code b) (code c) (code d) = Some r"
  then obtain x y z u where a: "code a = 0xF0 + x" "x < 5" and b: "code b = 0x80 + y" "y < 64" and c: "code c = 0x80 + z" "z < 64"
    and d: "code d = 0x80 + u" "u < 64"
    using lead_split [of "0xF0" "code a" "0xF5"] tail_split [of "code b"] tail_split [of "code c"] tail_split [of "code d"]
    by (force simp: decode4_def split: if_splits)
  with h have r: "r = ((x * 64 + y) * 64 + z) * 64 + u" and x: "x = 0 \<longrightarrow> 16 \<le> y" "x = 4 \<longrightarrow> y < 16"
    by (auto simp: decode4_def tail_byte_def algebra_simps split: if_splits)
  have "r div 64 = (x * 64 + y) * 64 + z" "r mod 64 = u" unfolding r by (rule shift_div shift_mod; rule d(2))+
  moreover have "r div 4096 = x * 64 + y"
    using c(2) d(2) shift_div [where y = "z * 64 + u" and n = 4096 and x = "x * 64 + y"] by (simp add: r algebra_simps)
  moreover have "r div 262144 = x"
    using b(2) c(2) d(2) shift_div [where y = "(y * 64 + z) * 64 + u" and n = 262144 and x = x] by (simp add: r algebra_simps)
  ultimately have m: "r div 64 = (x * 64 + y) * 64 + z" "r mod 64 = u" "r div 4096 = x * 64 + y" "r div 262144 = x" .
  have l: "0x10000 \<le> r" "r < 0x110000" using a(2) b(2) c(2) d(2) x by (cases "x = 0"; cases "x = 4"; simp add: r)+
  have m5: "r div 64 mod 64 = z" "r div 4096 mod 64 = y" unfolding m by (rule shift_mod, rule c(2) b(2))+
  show ?thesis using m m5 l b(2) c(2)
    by (simp add: encode_rune_def valid_rune_def code_split [OF a(1)] code_split [OF b(1)] code_split [OF c(1)] code_split [OF d(1)])
qed

lemma decode_ascii: "code a < 0x80 \<Longrightarrow> encode_rune (code a) = [a] \<and> valid_rune (code a)"
  by (simp add: encode_rune_def valid_rune_def)

lemma decode_cases:
  assumes "decode_rune (a # s) = (r, w)" "\<not> (w = 1 \<and> r = rune_error)"
  shows "code a < 0x80 \<and> r = code a \<and> w = 1
    \<or> \<not> code a < 0x80 \<and> (\<exists>b t. s = b # t \<and> decode2 (code a) (code b) = Some r \<and> w = 2)
    \<or> \<not> code a < 0x80 \<and> (\<exists>b c t. s = b # c # t \<and> decode2 (code a) (code b) = None \<and> decode3 (code a) (code b) (code c) = Some r \<and> w = 3)
    \<or> \<not> code a < 0x80 \<and> (\<exists>b c d t. s = b # c # d # t \<and> decode2 (code a) (code b) = None \<and> decode3 (code a) (code b) (code c) = None
        \<and> decode4 (code a) (code b) (code c) (code d) = Some r \<and> w = 4)"
  using assms by (auto split: if_splits list.splits option.splits)

lemma decode_valid:
  assumes "decode_rune s = (r, w)" "s \<noteq> []" "\<not> (w = 1 \<and> r = rune_error)"
  shows "s = encode_rune r @ drop w s \<and> valid_rune r \<and> w = length (encode_rune r) \<and> 0 < w
    \<and> decode_rune (encode_rune r @ t) = (r, w)"
proof -
  obtain a u where s: "s = a # u" using assms(2) by (cases s) auto
  consider (1) "code a < 0x80" "r = code a" "w = 1"
    | (2) b v where "\<not> code a < 0x80" "u = b # v" "decode2 (code a) (code b) = Some r" "w = 2"
    | (3) b c v where "\<not> code a < 0x80" "u = b # c # v" "decode2 (code a) (code b) = None"
        "decode3 (code a) (code b) (code c) = Some r" "w = 3"
    | (4) b c d v where "\<not> code a < 0x80" "u = b # c # d # v" "decode2 (code a) (code b) = None"
        "decode3 (code a) (code b) (code c) = None" "decode4 (code a) (code b) (code c) (code d) = Some r" "w = 4"
    using decode_cases [OF assms(1) [unfolded s] assms(3)] by blast
  then show ?thesis
  proof cases
    case 1
    with decode_ascii [of a] show ?thesis by (simp add: s)
  next
    case 2
    with encode2 [OF 2(3)] show ?thesis by (simp add: s)
  next
    case 3
    with encode3 [OF 3(4)] show ?thesis by (simp add: s)
  next
    case 4
    with encode4 [OF 4(5)] show ?thesis by (simp add: s)
  qed
qed

lemma decode_width: "decode_rune s = (r, w) \<Longrightarrow> s \<noteq> [] \<Longrightarrow> 0 < w"
  using decode_valid [of s r w] by (cases "w = 1 \<and> r = rune_error") auto

section \<open>Quoting\<close>

definition lower_hex :: "nat \<Rightarrow> char" where
  "lower_hex d = ''0123456789abcdef'' ! d"

text \<open>\<open>n\<close> hexadecimal digits.\<close>

primrec hex_text :: "nat \<Rightarrow> nat \<Rightarrow> string" where
  "hex_text 0 r = []"
| "hex_text (Suc n) r = hex_text n (r div 16) @ [lower_hex (r mod 16)]"

definition backslash :: char where
  "backslash = CHR 0x5C"

definition quote_mark :: char where
  "quote_mark = CHR 0x22"

text \<open>The letters of the short escapes, with the bytes they stand for.\<close>

definition short_escapes :: "(char \<times> nat) list" where
  "short_escapes = [(CHR ''a'', 7), (CHR ''b'', 8), (CHR ''f'', 12), (CHR ''n'', 10), (CHR ''r'', 13), (CHR ''t'', 9), (CHR ''v'', 11)]"

text \<open>\<open>appendEscapedRune\<close>: a rune that is printed as it is, or an escape.\<close>

definition escape_rune :: "(nat \<Rightarrow> bool) \<Rightarrow> nat \<Rightarrow> string" where
  "escape_rune is_print r =
     (if r = code quote_mark \<or> r = code backslash then [backslash, byte_char r]
      else if (if r < 0x80 then 0x20 \<le> r \<and> r < 0x7F else is_print r) then encode_rune r
      else (case find (\<lambda>(c, b). b = r) short_escapes of
              Some (c, b) \<Rightarrow> [backslash, c]
            | None \<Rightarrow>
                if r < 0x20 \<or> r = 0x7F then [backslash, CHR ''x''] @ hex_text 2 r
                else if r < 0x10000 then [backslash, CHR ''u''] @ hex_text 4 r
                else [backslash, CHR ''U''] @ hex_text 8 r))"

function quote_text :: "(nat \<Rightarrow> bool) \<Rightarrow> string \<Rightarrow> string" where
  "quote_text is_print s =
     (if s = [] then []
      else (case decode_rune s of (r, w) \<Rightarrow>
         if w = 1 \<and> r = rune_error then [backslash, CHR ''x''] @ hex_text 2 (code (hd s)) @ quote_text is_print (tl s)
         else escape_rune is_print r @ quote_text is_print (drop w s)))"
  by pat_completeness auto
termination
  by (relation "measure (\<lambda>(p, s). length s)") (auto dest: decode_width [OF sym])

declare quote_text.simps [simp del]

definition go_quote :: "(nat \<Rightarrow> bool) \<Rightarrow> string \<Rightarrow> string" where
  "go_quote is_print s = [quote_mark] @ quote_text is_print s @ [quote_mark]"

text \<open>\<open>%q\<close> of a slice.\<close>

definition quote_slice :: "(nat \<Rightarrow> bool) \<Rightarrow> string list \<Rightarrow> string" where
  "quote_slice is_print args = ''['' @ join_with '' '' (map (go_quote is_print) args) @ '']''"

section \<open>Unquoting\<close>

fun hex_value :: "nat \<Rightarrow> string \<Rightarrow> nat option" where
  "hex_value acc [] = Some acc"
| "hex_value acc (c # s) = (case hex_val c of None \<Rightarrow> None | Some d \<Rightarrow> hex_value (acc * 16 + d) s)"

definition octal_digit :: "char \<Rightarrow> bool" where
  "octal_digit c \<longleftrightarrow> 48 \<le> code c \<and> code c < 56"

text \<open>\<open>unquoteChar\<close> between double quotes: the bytes it stands for, and the rest.\<close>

definition unquote_escape :: "char \<Rightarrow> string \<Rightarrow> (string \<times> string) option" where
  "unquote_escape c s =
     (case map_of short_escapes c of
        Some b \<Rightarrow> Some ([byte_char b], s)
      | None \<Rightarrow>
          if c = backslash \<or> c = quote_mark then Some ([c], s)
          else if c \<in> {CHR ''x'', CHR ''u'', CHR ''U''}
          then (let n = (if c = CHR ''x'' then 2 else if c = CHR ''u'' then 4 else 8)
                in if length s < n then None
                   else (case hex_value 0 (take n s) of
                           None \<Rightarrow> None
                         | Some v \<Rightarrow>
                             if c = CHR ''x'' then Some ([byte_char v], drop n s)
                             else if valid_rune v then Some (encode_rune v, drop n s) else None))
          else if octal_digit c
          then (if length s < 2 \<or> \<not> octal_digit (s ! 0) \<or> \<not> octal_digit (s ! 1) then None
                else (let v = (code c - 48) * 64 + (code (s ! 0) - 48) * 8 + (code (s ! 1) - 48)
                      in if 255 < v then None else Some ([byte_char v], drop 2 s)))
          else None)"

definition unquote_char :: "string \<Rightarrow> (string \<times> string) option" where
  "unquote_char s =
     (case s of
        [] \<Rightarrow> None
      | c # t \<Rightarrow>
          if c = quote_mark then None
          else if 0x80 \<le> code c then (case decode_rune s of (r, w) \<Rightarrow> Some (encode_rune r, drop w s))
          else if c \<noteq> backslash then Some ([c], t)
          else (case t of [] \<Rightarrow> None | e # u \<Rightarrow> unquote_escape e u))"

text \<open>The loop of \<open>unquote\<close> behind the opening quote, and \<open>strconv.Unquote\<close> of a text in double quotes. The fast
  path for text without escapes returns what the loop builds.\<close>

function unquote_loop :: "string \<Rightarrow> (string \<times> string) option" where
  "unquote_loop s =
     (if s = [] then None
      else if hd s = quote_mark then Some ([], tl s)
      else (case unquote_char s of
              None \<Rightarrow> None
            | Some (b, rest) \<Rightarrow>
                if hd s = CHR 0x0A \<or> \<not> length rest < length s then None
                else map_option (\<lambda>(out, u). (b @ out, u)) (unquote_loop rest)))"
  by pat_completeness auto
termination
  by (relation "measure length") auto

declare unquote_loop.simps [simp del]

definition go_unquote :: "string \<Rightarrow> string option" where
  "go_unquote s =
     (case s of
        [] \<Rightarrow> None
      | q # t \<Rightarrow>
          if q \<noteq> quote_mark then None
          else (case unquote_loop t of Some (out, []) \<Rightarrow> Some out | _ \<Rightarrow> None))"

section \<open>Quoting reads back\<close>

lemma length_hex_text [simp]: "length (hex_text n r) = n"
  by (induction n arbitrary: r) auto

lemma hex_value_append: "hex_value acc (s @ t) = (case hex_value acc s of None \<Rightarrow> None | Some v \<Rightarrow> hex_value v t)"
  by (induction s arbitrary: acc) (auto split: option.splits)

lemma hex_val_lower: "d < 16 \<Longrightarrow> hex_val (lower_hex d) = Some d"
proof -
  have "list_all (\<lambda>d. hex_val (lower_hex d) = Some d) [0..<16]" by code_simp
  then show "d < 16 \<Longrightarrow> hex_val (lower_hex d) = Some d" by (simp only: list_all_iff) simp
qed

lemma hex_value_text: "r < 16 ^ n \<Longrightarrow> hex_value acc (hex_text n r) = Some (acc * 16 ^ n + r)"
proof (induction n arbitrary: r)
  case (Suc n)
  then have "r div 16 < 16 ^ n" by (simp add: less_mult_imp_div_less)
  with Suc.IH [OF this] show ?case by (simp add: hex_value_append hex_val_lower algebra_simps)
qed simp

lemma marks [simp]: "quote_mark \<noteq> backslash" "code quote_mark = 0x22" "code backslash = 0x5C"
  by (simp_all add: quote_mark_def backslash_def)

lemma unquote_loop_step:
  "unquote_char s = Some (b, t) \<Longrightarrow> s \<noteq> [] \<Longrightarrow> hd s \<noteq> quote_mark \<Longrightarrow> hd s \<noteq> CHR 0x0A \<Longrightarrow> length t < length s \<Longrightarrow>
    unquote_loop s = map_option (\<lambda>(out, u). (b @ out, u)) (unquote_loop t)"
  by (subst unquote_loop.simps) simp

lemma unquote_loop_escape:
  assumes "unquote_escape c (x @ t) = Some (b, t)"
  shows "unquote_loop (backslash # c # x @ t) = map_option (\<lambda>(out, u). (b @ out, u)) (unquote_loop t)"
  by (rule unquote_loop_step) (use assms in \<open>auto simp: unquote_char_def backslash_def quote_mark_def\<close>)

lemma unquote_byte: "unquote_escape CHR ''x'' (hex_text 2 (code c) @ t) = Some ([c], t)"
  using hex_value_text [of "code c" 2 0] by (simp add: unquote_escape_def short_escapes_def backslash_def quote_mark_def)

lemma valid_rune_less: "valid_rune r \<Longrightarrow> r < 0x110000"
  by (auto simp: valid_rune_def)

lemma unquote_u:
  "valid_rune r \<Longrightarrow> r < 0x10000 \<Longrightarrow> unquote_escape CHR ''u'' (hex_text 4 r @ t) = Some (encode_rune r, t)"
  using hex_value_text [of r 4 0] by (simp add: unquote_escape_def short_escapes_def backslash_def quote_mark_def)

lemma unquote_U:
  assumes "valid_rune r" shows "unquote_escape CHR ''U'' (hex_text 8 r @ t) = Some (encode_rune r, t)"
proof -
  have "hex_value 0 (hex_text 8 r) = Some r"
    using hex_value_text [of r 8 0] valid_rune_less [OF assms] by simp
  then show ?thesis using assms by (simp add: unquote_escape_def short_escapes_def backslash_def quote_mark_def)
qed

lemma short_escapes_find:
  assumes "find (\<lambda>(c, b). b = r) short_escapes = Some (c, b)"
  shows "map_of short_escapes c = Some r" "r < 0x20"
proof -
  have "(c, b) \<in> set short_escapes" "b = r"
    using assms by (auto simp: find_Some_iff in_set_conv_nth)
  moreover have "list_all (\<lambda>(c, b). map_of short_escapes c = Some b \<and> b < 0x20) short_escapes"
    by code_simp
  ultimately show "map_of short_escapes c = Some r" "r < 0x20" by (auto simp: list_all_iff)
qed

lemma unquote_short:
  "find (\<lambda>(c, b). b = r) short_escapes = Some (c, b) \<Longrightarrow> unquote_escape c t = Some ([byte_char r], t)"
  by (simp add: unquote_escape_def short_escapes_find)

lemma unquote_mark: "c = quote_mark \<or> c = backslash \<Longrightarrow> unquote_escape c t = Some ([c], t)"
  by (auto simp: unquote_escape_def short_escapes_def backslash_def quote_mark_def)

lemma encode_small: "r < 0x80 \<Longrightarrow> encode_rune r = [byte_char r]"
  by (simp add: encode_rune_def valid_rune_def)

lemma encode_lead: "valid_rune r \<Longrightarrow> 0x80 \<le> r \<Longrightarrow> 0x80 \<le> code (hd (encode_rune r))"
  by (auto simp: encode_rune_def Let_def valid_rune_def)

lemma unquote_rune:
  assumes "valid_rune r" and "decode_rune (encode_rune r @ t) = (r, length (encode_rune r))"
  shows "unquote_loop (escape_rune p r @ t) = map_option (\<lambda>(out, u). (encode_rune r @ out, u)) (unquote_loop t)"
proof -
  consider (mark) "r = code quote_mark \<or> r = code backslash"
    | (ascii) "\<not> (r = code quote_mark \<or> r = code backslash)" "0x20 \<le> r" "r < 0x7F"
    | (wide) "0x80 \<le> r" "p r"
    | (short) c b where "r < 0x20" "find (\<lambda>(c, b). b = r) short_escapes = Some (c, b)"
    | (x) "r < 0x20 \<or> r = 0x7F" "find (\<lambda>(c, b). b = r) short_escapes = None"
    | (u) "0x80 \<le> r" "\<not> p r" "r < 0x10000"
    | (U) "0x80 \<le> r" "\<not> p r" "\<not> r < 0x10000"
  proof -
    have f: "find (\<lambda>(c, b). b = 0x7F) short_escapes = None" by code_simp
    consider "r < 0x20" | "0x20 \<le> r \<and> r < 0x7F" | "r = 0x7F" | "0x80 \<le> r" by linarith
    then show thesis
    proof cases
      case 1
      then show thesis using that(4,5) by (cases "find (\<lambda>(c, b). b = r) short_escapes") auto
    next
      case 2
      then show thesis using that(1,2) by blast
    next
      case 3
      then show thesis using that(5) f by simp
    next
      case 4
      then show thesis using that(3,6,7) by blast
    qed
  qed
  then show ?thesis
  proof cases
    case mark
    then obtain c where r: "r = code c" and c: "c = quote_mark \<or> c = backslash" by blast
    then have "escape_rune p r = [backslash, c]" by (auto simp: escape_rune_def)
    moreover have "encode_rune r = [c]" using c encode_small [of r] by (auto simp: r)
    ultimately show ?thesis using unquote_loop_escape [of c "[]" t "[c]"] unquote_mark [OF c] by simp
  next
    case ascii
    then have e: "escape_rune p r = [byte_char r]" "encode_rune r = [byte_char r]"
      by (simp_all add: escape_rune_def encode_small)
    have "byte_char r \<noteq> quote_mark" "byte_char r \<noteq> backslash" "byte_char r \<noteq> CHR 0x0A"
      using ascii by (auto dest: arg_cong [of _ _ code])
    with ascii show ?thesis unfolding e by (intro unquote_loop_step) (simp_all add: unquote_char_def)
  next
    case wide
    then have e: "escape_rune p r = encode_rune r" by (simp add: escape_rune_def)
    obtain c cs where c: "encode_rune r = c # cs" "0x80 \<le> code c"
      using encode_lead [OF assms(1) wide(1)] assms(2) by (cases "encode_rune r") (auto simp: encode_rune_def Let_def split: if_splits)
    then have "c \<noteq> quote_mark" "c \<noteq> CHR 0x0A" by auto
    with c assms(2) show ?thesis unfolding e by (intro unquote_loop_step) (simp_all add: unquote_char_def)
  next
    case short
    then have "escape_rune p r = [backslash, c]" by (simp add: escape_rune_def)
    with short(1) unquote_short [OF short(2), of t] unquote_loop_escape [of c "[]" t "[byte_char r]"] show ?thesis
      by (simp add: encode_small)
  next
    case x
    then have "escape_rune p r = backslash # CHR ''x'' # hex_text 2 (code (byte_char r))" "encode_rune r = [byte_char r]"
      by (auto simp: escape_rune_def encode_small short_escapes_def)
    then show ?thesis using unquote_loop_escape [OF unquote_byte [of "byte_char r"]] by simp
  next
    case u
    then have "escape_rune p r = backslash # CHR ''u'' # hex_text 4 r" by (simp add: escape_rune_def short_escapes_def)
    then show ?thesis using unquote_loop_escape [OF unquote_u [OF assms(1) u(3)]] by simp
  next
    case U
    then have "escape_rune p r = backslash # CHR ''U'' # hex_text 8 r" by (simp add: escape_rune_def short_escapes_def)
    then show ?thesis using unquote_loop_escape [OF unquote_U [OF assms(1)]] by simp
  qed
qed

lemma unquote_text: "unquote_loop (quote_text p s @ quote_mark # t) = Some (s, t)"
proof (induction p s rule: quote_text.induct)
  case (1 p s)
  show ?case
  proof (cases "s = []")
    case True
    then show ?thesis by (simp add: quote_text.simps unquote_loop.simps)
  next
    case False
    obtain r w where d: "decode_rune s = (r, w)" by (cases "decode_rune s") (simp only: fst_conv)
    show ?thesis
    proof (cases "w = 1 \<and> r = rune_error")
      case True
      with False d have "quote_text p s = backslash # CHR ''x'' # hex_text 2 (code (hd s)) @ quote_text p (tl s)"
        by (subst quote_text.simps) simp
      with "1.IH"(1) [OF False d [symmetric] True] False show ?thesis
        using unquote_loop_escape [OF unquote_byte [of "hd s"]] by simp
    next
      case nerr: False
      with False d have "quote_text p s = escape_rune p r @ quote_text p (drop w s)"
        by (subst quote_text.simps) (simp only: prod.case if_False)
      with "1.IH"(2) [OF False d [symmetric] nerr] decode_valid [OF d False nerr]
      show ?thesis by (metis append_assoc option.simps(9) prod.case unquote_rune)
    qed
  qed
qed

lemma unquote_quote: "go_unquote (go_quote p s) = Some s"
  using unquote_text [of p s "[]"] by (simp add: go_unquote_def go_quote_def)

section \<open>Words\<close>

text \<open>\<open>strings.Fields\<close> on ASCII text.\<close>

function str_fields :: "string \<Rightarrow> string list" where
  "str_fields s =
     (case dropWhile is_space s of
        [] \<Rightarrow> []
      | c # t \<Rightarrow> (c # takeWhile (\<lambda>c. \<not> is_space c) t) # str_fields (dropWhile (\<lambda>c. \<not> is_space c) t))"
  by pat_completeness auto
termination
proof (relation "measure length")
  fix s c t assume "dropWhile is_space s = c # t"
  then have "Suc (length t) \<le> length s" using length_dropWhile_le [of is_space s] by simp
  then show "(dropWhile (\<lambda>c. \<not> is_space c) t, s) \<in> measure length"
    using length_dropWhile_le [of "\<lambda>c. \<not> is_space c" t] by simp
qed simp

declare str_fields.simps [simp del]

text \<open>\<open>fmt.Sscanf\<close> with \<open>%d\<close>: a sign, then the digits that follow; the rest of the text is not looked at.\<close>

definition sscanf_int :: "string \<Rightarrow> int option" where
  "sscanf_int s =
     (let t = dropWhile (\<lambda>c. is_space c \<and> c \<noteq> CHR 0x0A) s;
          (sign, u) = (case t of [] \<Rightarrow> ([], []) | c # r \<Rightarrow> if c = CHR ''-'' \<or> c = CHR ''+'' then ([c], r) else ([], t))
      in atoi (sign @ takeWhile is_digit u))"

end
