(* ===== verification/ToolClips.thy ===== *)
theory ToolClips
  imports GoUnicode
begin

text \<open>
  The synthetic source clips of the corpus generator (\<open>src/cmd/optimize-corpus-gen/synth\<close>): the clips, their
  file names, the ffmpeg command of each, the subtitle sidecars, and the loop that builds what is missing.
  What the wrapped commands do is an argument.
\<close>

section \<open>Clips (\<open>spec.go\<close>)\<close>

record Spec =
  VideoCodec :: string
  VideoProfile :: string
  BitDepth :: int
  Transfer :: string
  Width :: int
  Height :: int
  FrameRate :: int
  DurationSec :: int
  AudioCodec :: string
  AudioChannels :: int
  AudioLayout :: string
  SubKind :: string

definition resolutionTag :: "Spec \<Rightarrow> string" where
  "resolutionTag s =
     (if Height s = 480 \<or> Height s = 540 then ''sd''
      else if Height s = 720 then ''720p''
      else if Height s = 1080 then ''1080p''
      else if Height s = 1440 then ''1440p''
      else if Height s = 2160 then ''2160p''
      else itoa (Height s) @ ''p'')"

definition hdrTag :: "Spec \<Rightarrow> string" where
  "hdrTag s = (if Transfer s = ''smpte2084'' then ''hdr10'' else if Transfer s = ''arib-std-b67'' then ''hlg'' else ''sdr'')"

definition subTag :: "Spec \<Rightarrow> string" where
  "subTag s = (if SubKind s = ''srt'' then ''sub-srt'' else if SubKind s = ''ass'' then ''sub-ass'' else ''nosub'')"

definition Filename :: "Spec \<Rightarrow> string" where
  "Filename s = join_with ''__'' [VideoCodec s, VideoProfile s, resolutionTag s, itoa (BitDepth s) @ ''bit'', hdrTag s,
     AudioCodec s @ ''-'' @ AudioLayout s, subTag s] @ ''.mkv''"

definition Title :: "Spec \<Rightarrow> string" where
  "Title s = trim_suffix (Filename s) ''.mkv''"

definition common :: "int \<Rightarrow> int \<Rightarrow> int \<Rightarrow> int \<Rightarrow> Spec" where
  "common width height fr dur =
     \<lparr>VideoCodec = [], VideoProfile = [], BitDepth = 0, Transfer = [], Width = width, Height = height, FrameRate = fr,
      DurationSec = dur, AudioCodec = [], AudioChannels = 0, AudioLayout = [], SubKind = []\<rparr>"

definition mk :: "Spec \<Rightarrow> string \<Rightarrow> string \<Rightarrow> int \<Rightarrow> string \<Rightarrow> string \<Rightarrow> string \<Rightarrow> int \<Rightarrow> string \<Rightarrow> Spec" where
  "mk s vc vp bd tr ac al ch sub =
     s\<lparr>VideoCodec := vc, VideoProfile := vp, BitDepth := bd, Transfer := tr, AudioCodec := ac, AudioLayout := al,
       AudioChannels := ch, SubKind := sub\<rparr>"

definition hd1080 :: Spec where "hd1080 = common 1920 1080 24 5"
definition hd720 :: Spec where "hd720 = common 1280 720 24 5"
definition uhd :: Spec where "uhd = common 3840 2160 24 5"

definition DefaultClips :: "Spec list" where
  "DefaultClips =
     [mk hd1080 ''h264'' ''high'' 8 ''bt709'' ''aac'' ''stereo'' 2 [],
      mk hd1080 ''h264'' ''high'' 8 ''bt709'' ''ac3'' ''5.1'' 6 [],
      mk hd720 ''h264'' ''high'' 8 ''bt709'' ''aac'' ''stereo'' 2 [],
      mk hd1080 ''hevc'' ''main'' 8 ''bt709'' ''eac3'' ''5.1'' 6 [],
      mk hd1080 ''hevc'' ''main10'' 10 ''bt709'' ''eac3'' ''5.1'' 6 [],
      mk uhd ''hevc'' ''main10'' 10 ''bt709'' ''eac3'' ''5.1'' 6 [],
      mk uhd ''hevc'' ''main10'' 10 ''smpte2084'' ''eac3'' ''5.1'' 6 [],
      mk hd1080 ''hevc'' ''main10'' 10 ''smpte2084'' ''eac3'' ''5.1'' 6 [],
      mk uhd ''hevc'' ''main10'' 10 ''arib-std-b67'' ''eac3'' ''5.1'' 6 [],
      mk hd1080 ''av1'' ''main'' 8 ''bt709'' ''eac3'' ''5.1'' 6 [],
      mk hd1080 ''av1'' ''main10'' 10 ''bt709'' ''eac3'' ''5.1'' 6 [],
      mk uhd ''av1'' ''main10'' 10 ''smpte2084'' ''eac3'' ''5.1'' 6 [],
      mk hd1080 ''h264'' ''high'' 8 ''bt709'' ''aac'' ''stereo'' 2 ''srt'',
      mk hd1080 ''h264'' ''high'' 8 ''bt709'' ''aac'' ''stereo'' 2 ''ass'',
      mk uhd ''hevc'' ''main10'' 10 ''smpte2084'' ''eac3'' ''5.1'' 6 ''srt'',
      mk hd1080 ''hevc'' ''main10'' 10 ''bt709'' ''eac3'' ''5.1'' 6 ''ass'',
      mk hd1080 ''h264'' ''high'' 8 ''bt709'' ''aac'' ''7.1'' 8 [],
      mk uhd ''hevc'' ''main10'' 10 ''smpte2084'' ''aac'' ''7.1'' 8 [],
      mk uhd ''av1'' ''main10'' 10 ''smpte2084'' ''eac3'' ''5.1'' 6 ''srt'']"

section \<open>Commands (\<open>build.go\<close>)\<close>

text \<open>A command is its program and its arguments.\<close>

record Builder =
  b_invoker :: "string list"
  b_outDir :: string

definition NewBuilder :: "string \<Rightarrow> string \<Rightarrow> Builder" where
  "NewBuilder invokerCmd outDir =
     \<lparr>b_invoker = (if invokerCmd \<noteq> [] then str_fields invokerCmd else []), b_outDir = trim_right (\<lambda>c. c = CHR ''/'') outDir\<rparr>"

definition wide_color :: "Spec \<Rightarrow> bool" where
  "wide_color s \<longleftrightarrow> Transfer s = ''smpte2084'' \<or> Transfer s = ''arib-std-b67''"

definition pixFmt :: "Spec \<Rightarrow> string" where
  "pixFmt s = (if BitDepth s = 10 then ''yuv420p10le'' else ''yuv420p'')"

definition colorPrimaries :: "Spec \<Rightarrow> string" where
  "colorPrimaries s = (if wide_color s then ''bt2020'' else ''bt709'')"

definition colorMatrix :: "Spec \<Rightarrow> string" where
  "colorMatrix s = (if wide_color s then ''bt2020nc'' else ''bt709'')"

definition colorPrimariesNumeric :: "Spec \<Rightarrow> string" where
  "colorPrimariesNumeric s = (if wide_color s then ''9'' else ''1'')"

definition transferNumeric :: "Spec \<Rightarrow> string" where
  "transferNumeric s = (if Transfer s = ''smpte2084'' then ''16'' else if Transfer s = ''arib-std-b67'' then ''18'' else ''1'')"

definition matrixNumeric :: "Spec \<Rightarrow> string" where
  "matrixNumeric s = (if wide_color s then ''9'' else ''1'')"

definition audioBitrate :: "Spec \<Rightarrow> string" where
  "audioBitrate s =
     (if AudioCodec s = ''aac'' \<and> AudioChannels s \<le> 2 then ''192k''
      else if AudioCodec s = ''ac3'' then ''640k''
      else if AudioCodec s = ''eac3'' \<and> AudioChannels s \<le> 6 then ''640k''
      else if AudioCodec s = ''eac3'' then ''768k''
      else ''192k'')"

definition audioArgs :: "Spec \<Rightarrow> argv" where
  "audioArgs s = [''-map'', ''1:0'', ''-c:a'', AudioCodec s, ''-ac'', itoa (AudioChannels s), ''-b:a'', audioBitrate s]"

definition videoArgs :: "Spec \<Rightarrow> argv" where
  "videoArgs s =
     (if VideoCodec s = ''h264'' then
        [''-map'', ''0:0'', ''-c:v'', ''libx264'', ''-profile:v'', ''high'', ''-pix_fmt'', ''yuv420p'',
         ''-preset'', ''ultrafast'', ''-tune'', ''stillimage'', ''-x264-params'', ''keyint=24:min-keyint=24'']
      else if VideoCodec s = ''hevc'' then
        [''-map'', ''0:0'', ''-c:v'', ''libx265'', ''-pix_fmt'', pixFmt s, ''-preset'', ''ultrafast'',
         ''-profile:v'', if VideoProfile s = ''main10'' then ''main10'' else ''main'',
         ''-color_primaries'', colorPrimaries s, ''-color_trc'', Transfer s, ''-colorspace'', colorMatrix s,
         ''-x265-params'', join_with '':'' (''keyint=24:min-keyint=24'' #
           (if Transfer s = ''smpte2084''
            then [''master-display=G(13250,34500)B(7500,3000)R(34000,16000)WP(15635,16450)L(10000000,1)'', ''max-cll=1000,400'']
            else []))]
      else if VideoCodec s = ''av1'' then
        [''-map'', ''0:0'', ''-c:v'', ''libsvtav1'', ''-pix_fmt'', pixFmt s, ''-preset'', ''10'',
         ''-svtav1-params'', join_with '':''
           ([''color-primaries='' @ colorPrimariesNumeric s, ''transfer-characteristics='' @ transferNumeric s,
             ''matrix-coefficients='' @ matrixNumeric s]
            @ (if Transfer s = ''smpte2084''
               then [''mastering-display=G(0.265,0.690)B(0.150,0.060)R(0.680,0.320)WP(0.3127,0.3290)L(1000.0,0.0001)'',
                     ''content-light=1000,400'']
               else []))]
      else [])"

text \<open>\<open>filepath.Join\<close> of a clean directory and two names.\<close>

definition sidecar_path :: "Builder \<Rightarrow> Spec \<Rightarrow> string" where
  "sidecar_path b s = b_outDir b @ ''/_sidecars/'' @ Title s @ ''.'' @ SubKind s"

definition ffmpegArgs :: "Builder \<Rightarrow> Spec \<Rightarrow> string \<Rightarrow> argv" where
  "ffmpegArgs b s outPath =
     [''-y'', ''-hide_banner'', ''-loglevel'', ''error'',
      ''-f'', ''lavfi'', ''-i'', ''color=black:s='' @ itoa (Width s) @ ''x'' @ itoa (Height s) @ '':r='' @ itoa (FrameRate s)
        @ '':d='' @ itoa (DurationSec s),
      ''-f'', ''lavfi'', ''-i'', ''aevalsrc=0:s=48000:channel_layout='' @ AudioLayout s @ '':d='' @ itoa (DurationSec s)]
     @ (if SubKind s \<noteq> [] then [''-f'', SubKind s, ''-i'', sidecar_path b s] else [])
     @ videoArgs s @ audioArgs s
     @ (if SubKind s \<noteq> [] then [''-map'', ''2:0'', ''-c:s'', ''copy''] else [])
     @ [outPath]"

definition run_wrapped :: "string list \<Rightarrow> string \<Rightarrow> argv \<Rightarrow> string \<times> argv" where
  "run_wrapped invoker prog args = (case invoker of [] \<Rightarrow> (prog, args) | p # ps \<Rightarrow> (p, ps @ args))"

definition build_command :: "Builder \<Rightarrow> Spec \<Rightarrow> string \<times> argv" where
  "build_command b s = run_wrapped (b_invoker b) ''ffmpeg'' (ffmpegArgs b s (b_outDir b @ ''/'' @ Filename s))"

definition tailLines :: "string \<Rightarrow> nat \<Rightarrow> string" where
  "tailLines s n =
     (let lines = split_on (CHR 0x0A) s
      in if length lines \<le> n then s else join_with ''\<newline>'' (drop (length lines - n) lines))"

section \<open>Sidecars (\<open>sidecar.go\<close>)\<close>

text \<open>The wrapper of a shell: the last word of the invoker is replaced.\<close>

definition shell_invoker :: "string list \<Rightarrow> string list" where
  "shell_invoker invoker = butlast invoker @ [''sh'']"

definition ensureKubectlStdin :: "string list \<Rightarrow> argv \<Rightarrow> argv" where
  "ensureKubectlStdin invoker args =
     (if invoker = [] \<or> hd invoker \<noteq> ''kubectl'' then args
      else (case index_of_arg args ''exec'' 0 of
              None \<Rightarrow> args
            | Some i \<Rightarrow>
                if list_ex (\<lambda>a. a = ''-i'' \<or> a = ''--stdin'') (takeWhile (\<lambda>a. a \<noteq> ''--'') (drop (i + 1) args)) then args
                else take (i + 1) args @ [''-i''] @ drop (i + 1) args))"

definition srtBody :: string where
  "srtBody = ''1\<newline>00:00:01,000 --> 00:00:04,000\<newline>scaleplex test sub\<newline>\<newline>''"

definition assBody :: string where
  "assBody =
     ''[Script Info]\<newline>ScriptType: v4.00+\<newline>PlayResX: 1920\<newline>PlayResY: 1080\<newline>\<newline>'' @
     ''[V4+ Styles]\<newline>Format: Name, Fontname, Fontsize, PrimaryColour, SecondaryColour, OutlineColour, BackColour, Bold, Italic, Underline, StrikeOut, ScaleX, ScaleY, Spacing, Angle, BorderStyle, Outline, Shadow, Alignment, MarginL, MarginR, MarginV, Encoding\<newline>'' @
     ''Style: Default,Arial,54,&H00FFFFFF,&H000000FF,&H00000000,&H80000000,0,0,0,0,100,100,0,0,1,2,1,2,10,10,10,1\<newline>\<newline>'' @
     ''[Events]\<newline>Format: Layer, Start, End, Style, Name, MarginL, MarginR, MarginV, Effect, Text\<newline>'' @
     ''Dialogue: 0,0:00:01.00,0:00:04.00,Default,,0,0,0,,scaleplex test sub\<newline>''"

definition sidecar_body :: "Spec \<Rightarrow> string" where
  "sidecar_body s = (if SubKind s = ''ass'' then assBody else srtBody)"

text \<open>The command that writes the sidecar. Its standard input is the body.\<close>

definition sidecar_command :: "(nat \<Rightarrow> bool) \<Rightarrow> Builder \<Rightarrow> Spec \<Rightarrow> string \<times> argv" where
  "sidecar_command is_print b s =
     (let shCmd = ''mkdir -p '' @ go_quote is_print (b_outDir b @ ''/_sidecars'') @ '' && cat > '' @ go_quote is_print (sidecar_path b s)
      in case b_invoker b of
           [] \<Rightarrow> (''sh'', [''-c'', shCmd])
         | p # ps \<Rightarrow>
             (let sh = shell_invoker (p # ps)
              in (hd sh, ensureKubectlStdin sh (tl sh @ [''-c'', shCmd]))))"

section \<open>Building what is missing (\<open>ensure.go\<close>)\<close>

definition list_command :: "(nat \<Rightarrow> bool) \<Rightarrow> Builder \<Rightarrow> string \<times> argv" where
  "list_command is_print b =
     (let shCmd = ''mkdir -p '' @ go_quote is_print (b_outDir b) @ '' && ls -1 '' @ go_quote is_print (b_outDir b) @ '' || true''
      in case b_invoker b of
           [] \<Rightarrow> (''sh'', [''-c'', shCmd])
         | p # ps \<Rightarrow> (let sh = shell_invoker (p # ps) in (hd sh, tl sh @ [''-c'', shCmd])))"

definition listed_clips :: "string \<Rightarrow> string list" where
  "listed_clips out = filter (\<lambda>n. has_suffix n ''.mkv'') (map trim_space (split_on (CHR 0x0A) out))"

text \<open>\<open>EnsureAll\<close>: \<open>existing\<close> is the listing, \<open>sidecar\<close> and \<open>runs\<close> say which commands succeed. The outcome: the paths, or
  \<open>None\<close> on an error, and what was built before it.\<close>

fun ensure_from :: "Builder \<Rightarrow> string list \<Rightarrow> (Spec \<Rightarrow> bool) \<Rightarrow> (Spec \<Rightarrow> bool) \<Rightarrow> Spec list \<Rightarrow> string list option \<times> Spec list" where
  "ensure_from b existing sidecar runs [] = (Some [], [])"
| "ensure_from b existing sidecar runs (s # specs) =
     (let path = b_outDir b @ ''/'' @ Filename s
      in if Filename s \<in> set existing
         then (case ensure_from b existing sidecar runs specs of (ps, built) \<Rightarrow> (map_option (Cons path) ps, built))
         else if SubKind s \<noteq> [] \<and> \<not> sidecar s then (None, [])
         else if \<not> runs s then (None, [])
         else (case ensure_from b existing sidecar runs specs of (ps, built) \<Rightarrow> (map_option (Cons path) ps, s # built)))"

definition EnsureAll :: "Builder \<Rightarrow> string option \<Rightarrow> (Spec \<Rightarrow> bool) \<Rightarrow> (Spec \<Rightarrow> bool) \<Rightarrow> Spec list \<Rightarrow> string list option \<times> Spec list" where
  "EnsureAll b listing sidecar runs specs =
     (case listing of None \<Rightarrow> (None, []) | Some out \<Rightarrow> ensure_from b (listed_clips out) sidecar runs specs)"

section \<open>Facts\<close>

text \<open>Nineteen clips, in files of their own.\<close>

lemma clips: "length DefaultClips = 19 \<and> distinct (map Filename DefaultClips)"
  by code_simp

text \<open>Only the declared HDR clips are marked as such, and every ten-bit clip gets a ten-bit pixel format.\<close>

lemma clip_formats:
  "list_all (\<lambda>s. (wide_color s \<longrightarrow> BitDepth s = 10) \<and> (VideoProfile s = ''main10'' \<longleftrightarrow> BitDepth s = 10)
     \<and> (VideoCodec s = ''h264'' \<longrightarrow> BitDepth s = 8)) DefaultClips"
  by code_simp

lemma ensure_from_built:
  "ensure_from b existing sidecar runs specs = (Some ps, built) \<Longrightarrow>
    ps = map (\<lambda>s. b_outDir b @ ''/'' @ Filename s) specs \<and> built = filter (\<lambda>s. Filename s \<notin> set existing) specs"
  by (induction specs arbitrary: ps built) (auto simp: Let_def split: if_splits prod.splits)

text \<open>A run on a directory that has what an earlier run built builds nothing and cannot fail.\<close>

lemma ensure_again:
  assumes "ensure_from b existing sidecar runs specs = (Some ps, built)"
    and "set existing \<union> Filename ` set built \<subseteq> set existing'"
  shows "ensure_from b existing' sidecar' runs' specs = (Some ps, [])"
proof -
  have "Filename s \<in> set existing'" if "s \<in> set specs" for s
    using ensure_from_built [OF assms(1)] assms(2) that by auto
  then have "ensure_from b existing' sidecar' runs' specs = (Some (map (\<lambda>s. b_outDir b @ ''/'' @ Filename s) specs), [])"
    by (induction specs) (simp_all add: Let_def)
  then show ?thesis using ensure_from_built [OF assms(1)] by simp
qed

lemma kubectl_stdin_again: "ensureKubectlStdin w (ensureKubectlStdin w args) = ensureKubectlStdin w args"
proof (cases "index_of_arg args ''exec'' 0")
  case (Some i)
  let ?p = "\<lambda>a. a = ''exec''"
  from Some have f: "find_from ?p args = Some i" by (simp add: index_of_arg_def)
  note s = find_from_split [OF f]
  have i: "i < length args" using find_from_Some [OF f] by simp
  have t: "take (Suc i) args = take i args @ [''exec'']" using s i by (simp add: take_Suc_conv_app_nth)
  have "index_of_arg (take (i + 1) args @ x) ''exec'' 0 = Some i" for x
    using s i by (simp add: t index_of_arg_def find_from_append)
  from this [of "[''-i''] @ drop (i + 1) args"] Some i show ?thesis by (simp add: ensureKubectlStdin_def)
qed (simp add: ensureKubectlStdin_def)

end
