(* ===== verification/ToolAnalyze.thy ===== *)
theory ToolAnalyze
  imports GoPrelude
begin

text \<open>
  The clustering of a captured corpus (\<open>src/cmd/optimize-corpus-gen/cmd_analyze.go\<close>): the fingerprint of an
  argument vector, the canonical form of its filter graph, and the buckets.
\<close>

section \<open>The canonical graph\<close>

definition label_text :: "nat \<Rightarrow> string" where
  "label_text i = ''['' @ utoa i @ '']''"

definition mask_labels :: "string \<Rightarrow> string" where
  "mask_labels g = fold (\<lambda>i out. replace_all out (label_text i) ''[N]'') [0..<30] g"

text \<open>One turn of the inner loop: the size behind the first occurrence of the prefix is masked, or the loop
  ends.\<close>

definition mask_once :: "string \<Rightarrow> string \<Rightarrow> string option" where
  "mask_once pre out =
     (case str_index out pre of
        None \<Rightarrow> None
      | Some i \<Rightarrow>
          (let j = i + length pre; after = dropWhile is_digit (drop j out)
           in if 3 < length after \<and> take 3 after = '':h=''
              then Some (take j out @ ''W:h=H'' @ dropWhile is_digit (drop 3 after)) else None))"

lemma mask_once_last:
  assumes "mask_once pre out = Some out'" shows "mask_once pre out' = None"
proof -
  obtain i where i: "str_index out pre = Some i"
    and o: "out' = take (i + length pre) out @ ''W:h=H'' @ dropWhile is_digit (drop 3 (dropWhile is_digit (drop (i + length pre) out)))"
    using assms by (auto simp: mask_once_def Let_def split: option.splits if_splits)
  have "str_index out' pre = Some i" unfolding o by (rule str_index_prefix [OF i])
  moreover have "length (take (i + length pre) out) = i + length pre" using str_index_le [OF i] by simp
  then have "drop (i + length pre) out' = ''W:h=H'' @ dropWhile is_digit (drop 3 (dropWhile is_digit (drop (i + length pre) out)))"
    unfolding o by simp
  moreover have "\<not> is_digit CHR ''W''" by code_simp
  ultimately show ?thesis by (simp add: mask_once_def)
qed

function mask_sizes :: "string \<Rightarrow> string \<Rightarrow> string" where
  "mask_sizes pre out = (case mask_once pre out of None \<Rightarrow> out | Some out' \<Rightarrow> mask_sizes pre out')"
  by pat_completeness auto
termination
  by (relation "measure (\<lambda>(pre, out). if mask_once pre out = None then 0 else 1)") (auto dest: mask_once_last)

declare mask_sizes.simps [simp del]

definition canonicalizeFilter :: "string \<Rightarrow> string" where
  "canonicalizeFilter g = mask_sizes ''scale_vaapi=w='' (mask_sizes ''scale=w='' (mask_labels g))"

section \<open>Fingerprints\<close>

definition subBurnFromFilter :: "string \<Rightarrow> string" where
  "subBurnFromFilter g =
     (if str_contains g ''inlineass'' then ''inlineass''
      else if str_contains g ''overlay_vaapi'' then ''overlay_vaapi''
      else if str_contains g ''subtitles='' then ''subtitles='' else [])"

definition tonemapFromFilter :: "string \<Rightarrow> string" where
  "tonemapFromFilter g =
     (if str_contains g ''tonemap_opencl'' then ''opencl''
      else if str_contains g ''tonemap_vaapi'' then ''vaapi''
      else if str_contains g ''tonemap='' then ''sw'' else [])"

record fingerprint =
  fp_DecodeCodec :: string
  fp_DecodeHWAccel :: string
  fp_EncodeCodec :: string
  fp_AudioCodec :: string
  fp_FilterShape :: string
  fp_SubBurn :: string
  fp_Tonemap :: string
  fp_NumMaps :: nat

text \<open>Indices; \<open>None\<close> is -1.\<close>

definition indexOfBefore :: "argv \<Rightarrow> string \<Rightarrow> nat option \<Rightarrow> nat option" where
  "indexOfBefore s v before = index_of_arg (case before of None \<Rightarrow> s | Some n \<Rightarrow> take n s) v 0"

definition indexOfAfter :: "argv \<Rightarrow> string \<Rightarrow> nat option \<Rightarrow> nat option" where
  "indexOfAfter s v after = index_of_arg s v (case after of None \<Rightarrow> 0 | Some n \<Rightarrow> n + 1)"

definition value_after :: "argv \<Rightarrow> nat option \<Rightarrow> string" where
  "value_after argv i = (case i of Some k \<Rightarrow> if k + 1 < length argv then argv ! (k + 1) else [] | None \<Rightarrow> [])"

definition fingerprintArgv :: "argv \<Rightarrow> fingerprint" where
  "fingerprintArgv argv =
     (let iIdx = index_of_arg argv ''-i'' 0;
          graph = (case index_of_arg argv ''-filter_complex'' 0 of
                     Some k \<Rightarrow> if k + 1 < length argv then Some (argv ! (k + 1)) else None | None \<Rightarrow> None)
      in \<lparr>fp_DecodeCodec = value_after argv (indexOfBefore argv ''-codec:0'' iIdx),
          fp_DecodeHWAccel = value_after argv (indexOfBefore argv ''-hwaccel:0'' iIdx),
          fp_EncodeCodec = value_after argv (indexOfAfter argv ''-codec:0'' iIdx),
          fp_AudioCodec = value_after argv (indexOfAfter argv ''-codec:1'' iIdx),
          fp_FilterShape = (case graph of Some g \<Rightarrow> canonicalizeFilter g | None \<Rightarrow> ''(none)''),
          fp_SubBurn = (case graph of Some g \<Rightarrow> subBurnFromFilter g | None \<Rightarrow> []),
          fp_Tonemap = (case graph of Some g \<Rightarrow> tonemapFromFilter g | None \<Rightarrow> []),
          fp_NumMaps = length (filter (\<lambda>a. a = ''-map'') argv)\<rparr>)"

definition fingerprint_text :: "fingerprint \<Rightarrow> string" where
  "fingerprint_text f = join_with '' ''
     ([''decode='' @ fp_DecodeCodec f, ''hwaccel='' @ fp_DecodeHWAccel f, ''encode='' @ fp_EncodeCodec f,
       ''audio='' @ fp_AudioCodec f, ''filter='' @ fp_FilterShape f]
      @ (if fp_SubBurn f \<noteq> [] then [''subburn='' @ fp_SubBurn f] else [])
      @ (if fp_Tonemap f \<noteq> [] then [''tonemap='' @ fp_Tonemap f] else [])
      @ [''maps='' @ utoa (fp_NumMaps f)])"

section \<open>Buckets\<close>

text \<open>Which files of the corpus directory are captures.\<close>

definition is_capture :: "string \<times> bool \<Rightarrow> bool" where
  "is_capture e = (case e of (name, isdir) \<Rightarrow>
     \<not> isdir \<and> has_suffix name ''.json'' \<and> \<not> has_suffix name ''.optimize-cell.json'' \<and> name \<noteq> ''manifest.json'')"

definition sidecar_of :: "string \<Rightarrow> string" where
  "sidecar_of p = trim_suffix p ''.json'' @ ''.optimize-cell.json''"

definition add_capture :: "'c \<times> argv \<Rightarrow> (string \<times> ('c \<times> argv) list) list \<Rightarrow> (string \<times> ('c \<times> argv) list) list" where
  "add_capture c buckets =
     (let key = fingerprint_text (fingerprintArgv (snd c))
      in AList.update key ((case map_of buckets key of None \<Rightarrow> [] | Some b \<Rightarrow> b) @ [c]) buckets)"

definition buckets_of :: "('c \<times> argv) list \<Rightarrow> (string \<times> ('c \<times> argv) list) list" where
  "buckets_of captures = fold add_capture captures []"

definition variety :: "nat \<Rightarrow> string" where
  "variety n = (if n \<le> 3 then ''LOW'' else if n \<le> 8 then ''MEDIUM'' else ''HIGH'')"

section \<open>Facts\<close>

text \<open>A sidecar is never taken for a capture, and every capture's sidecar is told from it.\<close>

lemma sidecar_is_none: "\<not> is_capture (sidecar_of p, d)"
  by (auto simp: is_capture_def sidecar_of_def has_suffix_iff)

text \<open>The buckets hold every capture once, in the order of the directory, under the text of its fingerprint.\<close>

lemma buckets_fold:
  "map_of (fold add_capture cs bs) key =
     (case (map_of bs key, filter (\<lambda>c. fingerprint_text (fingerprintArgv (snd c)) = key) cs) of
        (None, []) \<Rightarrow> None
      | (None, ds) \<Rightarrow> Some ds
      | (Some b, ds) \<Rightarrow> Some (b @ ds))"
  by (induction cs arbitrary: bs) (auto simp: add_capture_def Let_def update_conv' split: option.splits list.splits)

lemma buckets_by_fingerprint:
  "map_of (buckets_of cs) key =
     (case filter (\<lambda>c. fingerprint_text (fingerprintArgv (snd c)) = key) cs of [] \<Rightarrow> None | ds \<Rightarrow> Some ds)"
  by (simp add: buckets_of_def buckets_fold split: list.split)

text \<open>Only the first size behind a prefix is masked: graphs that differ in nothing but the size of a second
  scaler fall into different buckets.\<close>

lemma second_size_stays:
  "canonicalizeFilter ''[0:0]scale=w=1:h=2[3];[3]scale=w=4:h=5[6]'' = ''[0:0]scale=w=W:h=H[N];[N]scale=w=4:h=5[N]''"
  by code_simp

end
