(* ===== verification/ToolSource.thy ===== *)
theory ToolSource
  imports GoUnicode
begin

text \<open>
  What the corpus generator reads off a source file with ffprobe (\<open>src/cmd/optimize-corpus-gen/source/ffprobe.go\<close>):
  the command, the translation of paths, and the profile made of the streams. Decoding JSON is an
  argument.
\<close>

record AudioStream =
  au_Index :: int
  au_Codec :: string
  au_Profile :: string
  au_Channels :: int
  au_ChannelLayout :: string
  au_SampleRate :: int
  au_Language :: string

record SubStream =
  su_Index :: int
  su_Codec :: string
  su_Language :: string
  su_Forced :: bool
  su_Default :: bool

record Profile =
  pf_Path :: string
  pf_Format :: string
  pf_VideoCodec :: string
  pf_VideoProfile :: string
  pf_VideoLevel :: int
  pf_Width :: int
  pf_Height :: int
  pf_PixFmt :: string
  pf_ColorTransfer :: string
  pf_ColorPrimaries :: string
  pf_ColorSpace :: string
  pf_BitDepth :: int
  pf_HDRFormat :: string
  pf_Audio :: "AudioStream list"
  pf_Subs :: "SubStream list"

section \<open>The prober\<close>

record Prober =
  pr_invoker :: "string list"
  pr_rules :: "(string \<times> string) list"

text \<open>A rule needs a non-empty text on both sides of its first equals sign.\<close>

definition translate_rule :: "string \<Rightarrow> (string \<times> string) option" where
  "translate_rule r =
     (case str_cut r (CHR ''='') of
        None \<Rightarrow> None | Some (a, b) \<Rightarrow> if a = [] \<or> b = [] then None else Some (a, b))"

definition NewProber :: "string \<Rightarrow> string list \<Rightarrow> Prober option" where
  "NewProber invokerCmd translate =
     (let rules = map translate_rule translate
      in if None \<in> set rules then None
         else Some \<lparr>pr_invoker = (if invokerCmd \<noteq> [] then str_fields invokerCmd else []), pr_rules = map the rules\<rparr>)"

definition translate_path :: "(string \<times> string) list \<Rightarrow> string \<Rightarrow> string" where
  "translate_path rules path =
     (case find (\<lambda>(a, b). has_prefix path a) rules of None \<Rightarrow> path | Some (a, b) \<Rightarrow> b @ drop (length a) path)"

definition probe_command :: "Prober \<Rightarrow> string \<Rightarrow> string \<times> argv" where
  "probe_command p path =
     (let args = [''-v'', ''error'', ''-print_format'', ''json'', ''-show_streams'', ''-show_format'', translate_path (pr_rules p) path]
      in case pr_invoker p of [] \<Rightarrow> (''ffprobe'', args) | x # xs \<Rightarrow> (x, xs @ args))"

section \<open>The profile\<close>

definition bitDepth :: "string \<Rightarrow> int" where
  "bitDepth pixFmt =
     (if pixFmt = [] then 0 else if str_contains pixFmt ''12'' then 12 else if str_contains pixFmt ''10'' then 10 else 8)"

definition hdrFormat :: "string \<Rightarrow> string list \<Rightarrow> string" where
  "hdrFormat transfer sideData =
     (if ''DOVI configuration record'' \<in> set sideData then ''DV''
      else if transfer = ''smpte2084'' then ''HDR10''
      else if transfer = ''arib-std-b67'' then ''HLG'' else ''SDR'')"

text \<open>A stream as ffprobe prints it.\<close>

record raw_stream =
  rs_index :: int
  rs_type :: string
  rs_codec :: string
  rs_profile :: string
  rs_level :: int
  rs_width :: int
  rs_height :: int
  rs_pix_fmt :: string
  rs_transfer :: string
  rs_primaries :: string
  rs_space :: string
  rs_channels :: int
  rs_layout :: string
  rs_rate :: string
  rs_language :: string
  rs_default :: int
  rs_forced :: int
  rs_side_data :: "string list"

definition probe_stream :: "raw_stream \<Rightarrow> Profile \<times> bool \<Rightarrow> Profile \<times> bool" where
  "probe_stream s pv =
     (case pv of (p, videoSeen) \<Rightarrow>
        if rs_type s = ''video'' then
          (if videoSeen then (p, videoSeen)
           else (p\<lparr>pf_VideoCodec := rs_codec s, pf_VideoProfile := rs_profile s, pf_VideoLevel := rs_level s,
                   pf_Width := rs_width s, pf_Height := rs_height s, pf_PixFmt := rs_pix_fmt s,
                   pf_ColorTransfer := rs_transfer s, pf_ColorPrimaries := rs_primaries s, pf_ColorSpace := rs_space s,
                   pf_BitDepth := bitDepth (rs_pix_fmt s), pf_HDRFormat := hdrFormat (rs_transfer s) (rs_side_data s)\<rparr>, True))
        else if rs_type s = ''audio'' then
          (p\<lparr>pf_Audio := pf_Audio p @
              [\<lparr>au_Index = rs_index s, au_Codec = rs_codec s, au_Profile = rs_profile s, au_Channels = rs_channels s,
                au_ChannelLayout = rs_layout s, au_SampleRate = (case sscanf_int (rs_rate s) of Some n \<Rightarrow> n | None \<Rightarrow> 0),
                au_Language = rs_language s\<rparr>]\<rparr>, videoSeen)
        else if rs_type s = ''subtitle'' then
          (p\<lparr>pf_Subs := pf_Subs p @
              [\<lparr>su_Index = rs_index s, su_Codec = rs_codec s, su_Language = rs_language s, su_Forced = (rs_forced s = 1),
                su_Default = (rs_default s = 1)\<rparr>]\<rparr>, videoSeen)
        else (p, videoSeen))"

definition empty_profile :: "string \<Rightarrow> string \<Rightarrow> Profile" where
  "empty_profile path format =
     \<lparr>pf_Path = path, pf_Format = format, pf_VideoCodec = [], pf_VideoProfile = [], pf_VideoLevel = 0, pf_Width = 0,
      pf_Height = 0, pf_PixFmt = [], pf_ColorTransfer = [], pf_ColorPrimaries = [], pf_ColorSpace = [], pf_BitDepth = 0,
      pf_HDRFormat = [], pf_Audio = [], pf_Subs = []\<rparr>"

text \<open>\<open>raw\<close> is the decoded output: the format and the streams; \<open>None\<close> when ffprobe or the decoder fails.\<close>

definition Probe :: "string \<Rightarrow> (string \<times> raw_stream list) option \<Rightarrow> Profile option" where
  "Probe path raw =
     (case raw of
        None \<Rightarrow> None
      | Some (format, streams) \<Rightarrow>
          (case fold probe_stream streams (empty_profile path format, False) of
             (p, videoSeen) \<Rightarrow> if videoSeen then Some p else None))"

section \<open>Facts\<close>

text \<open>The digits are looked for anywhere in the name of the pixel format, so two eight-bit formats are misread.\<close>

lemma eight_bits_misread: "bitDepth ''nv12'' = 12" "bitDepth ''yuv410p'' = 10"
  by code_simp+

text \<open>The profile is that of the first video stream, wherever it stands; audio and subtitle streams keep
  their order.\<close>

lemma probe_streams:
  "fold probe_stream ss (p, seen) = (q, seen') \<Longrightarrow>
    seen' = (seen \<or> (\<exists>s\<in>set ss. rs_type s = ''video''))
    \<and> map au_Index (pf_Audio q) = map au_Index (pf_Audio p) @ map rs_index (filter (\<lambda>s. rs_type s = ''audio'') ss)
    \<and> map su_Index (pf_Subs q) = map su_Index (pf_Subs p) @ map rs_index (filter (\<lambda>s. rs_type s = ''subtitle'') ss)
    \<and> (seen \<longrightarrow> pf_VideoCodec q = pf_VideoCodec p \<and> pf_BitDepth q = pf_BitDepth p \<and> pf_HDRFormat q = pf_HDRFormat p)"
proof (induction ss arbitrary: p seen)
  case (Cons s ss)
  obtain p' seen1 where st: "probe_stream s (p, seen) = (p', seen1)" by (cases "probe_stream s (p, seen)")
  with Cons.prems have f: "fold probe_stream ss (p', seen1) = (q, seen')" by simp
  show ?case using Cons.IH [OF f] st by (auto simp: probe_stream_def split: if_splits)
qed simp

lemma probe_first_video:
  assumes "find (\<lambda>s. rs_type s = ''video'') streams = Some v"
  shows "\<exists>p. Probe path (Some (format, streams)) = Some p \<and> pf_VideoCodec p = rs_codec v
    \<and> pf_BitDepth p = bitDepth (rs_pix_fmt v) \<and> pf_HDRFormat p = hdrFormat (rs_transfer v) (rs_side_data v)
    \<and> map au_Index (pf_Audio p) = map rs_index (filter (\<lambda>s. rs_type s = ''audio'') streams)"
proof -
  obtain i where i: "i < length streams" "streams ! i = v" "rs_type v = ''video''" "\<forall>j<i. rs_type (streams ! j) \<noteq> ''video''"
    using assms by (auto simp: find_Some_iff)
  define us ws where "us = take i streams" and "ws = drop (Suc i) streams"
  with i have s: "streams = us @ v # ws" "rs_type v = ''video''" "\<forall>u\<in>set us. rs_type u \<noteq> ''video''"
    by (auto simp: id_take_nth_drop in_set_conv_nth)
  obtain p1 seen1 where p1: "fold probe_stream us (empty_profile path format, False) = (p1, seen1)"
    by (cases "fold probe_stream us (empty_profile path format, False)")
  note a = probe_streams [OF p1]
  then have n1: "\<not> seen1" using s(3) by auto
  obtain p2 where p2: "probe_stream v (p1, seen1) = (p2, True)" "pf_VideoCodec p2 = rs_codec v"
      "pf_BitDepth p2 = bitDepth (rs_pix_fmt v)" "pf_HDRFormat p2 = hdrFormat (rs_transfer v) (rs_side_data v)"
      "pf_Audio p2 = pf_Audio p1"
    using s(2) n1 by (simp add: probe_stream_def)
  obtain p3 seen3 where p3: "fold probe_stream ws (p2, True) = (p3, seen3)" by (cases "fold probe_stream ws (p2, True)")
  from probe_streams [OF p3] a p1 p2 p3 s show ?thesis by (auto simp: Probe_def empty_profile_def)
qed

end
