(* ===== verification/ToolSweep.thy ===== *)
theory ToolSweep
  imports ToolPlex ToolSource
begin

text \<open>
  The sweep of the corpus generator (\<open>src/cmd/optimize-corpus-gen\<close>): the matrix of cells (\<open>matrix/matrix.go\<close>), the
  manifest that makes a sweep resumable (\<open>matrix/manifest.go\<close>), the watcher of new captures
  (\<open>capture/watch.go\<close>), one cell and the loop over the cells (\<open>cmd_sweep.go\<close>), the smoke run and the clean-up
  (\<open>cmd_smoke.go\<close>, \<open>cmd_clean.go\<close>). The hash function is an argument, and so is what PMS and the file system
  answer. Time stamps are left out.
\<close>

section \<open>Cells\<close>

type_synonym prefset = "(string \<times> string) list"

record Cell =
  ce_RatingKey :: string
  ce_Title :: string
  ce_Path :: string
  ce_TagID :: int
  ce_TargetTitle :: string
  ce_Prefs :: prefset
  ce_ID :: string

definition DefaultPrefMatrix :: "prefset list" where
  "DefaultPrefMatrix =
     (let bools = [''true'', ''false''] in
      concat (map (\<lambda>hwc. concat (map (\<lambda>hwe. concat (map (\<lambda>tm. concat (map (\<lambda>hm. map (\<lambda>ho.
        [(''HardwareAcceleratedCodecs'', hwc), (''HardwareAcceleratedEncoders'', hwe), (''TranscoderToneMapping'', tm),
         (''TranscoderHEVCEncodingMode'', hm), (''TranscoderHEVCOptimize'', ho)])
        bools) [''always'', ''never''])) bools)) bools)) bools))"

record SourceRef =
  sr_RatingKey :: string
  sr_Title :: string
  sr_Path :: string

record TargetRef =
  tr_TagID :: int
  tr_Title :: string

text \<open>The generator's own \<open>itoa\<close>: the digits of the absolute value from the back. The negation wraps at 64 bits, so
  the least integer has no digits.\<close>

fun digits_back :: "nat \<Rightarrow> string \<Rightarrow> string" where
  "digits_back n buf = (if n = 0 then buf else digits_back (n div 10) (digit_char (n mod 10) # buf))"

declare digits_back.simps [simp del]

definition matrix_itoa :: "int \<Rightarrow> string" where
  "matrix_itoa n =
     (if n = 0 then ''0''
      else if n < 0 then CHR ''-'' # digits_back (nat (signed_take_bit 63 (- n))) [] else digits_back (nat n) [])"

definition cell_text :: "string \<Rightarrow> int \<Rightarrow> prefset \<Rightarrow> string" where
  "cell_text title tag prefs =
     title @ ''|'' @ matrix_itoa tag @ ''|'' @ concat (map (\<lambda>(k, v). k @ ''='' @ v @ '';'') (sort_key fst prefs))"

text \<open>\<open>hex_of\<close> is the hexadecimal text of the first six bytes of the SHA-1 sum.\<close>

definition cell_fingerprint :: "(string \<Rightarrow> string) \<Rightarrow> string \<Rightarrow> int \<Rightarrow> prefset \<Rightarrow> string" where
  "cell_fingerprint hex_of title tag prefs = hex_of (cell_text title tag prefs)"

definition Expand :: "(string \<Rightarrow> string) \<Rightarrow> SourceRef list \<Rightarrow> TargetRef list \<Rightarrow> prefset list \<Rightarrow> Cell list" where
  "Expand hex_of sources targets prefs =
     concat (map (\<lambda>s. concat (map (\<lambda>t. map (\<lambda>p.
       \<lparr>ce_RatingKey = sr_RatingKey s, ce_Title = sr_Title s, ce_Path = sr_Path s, ce_TagID = tr_TagID t,
        ce_TargetTitle = tr_Title t, ce_Prefs = p, ce_ID = cell_fingerprint hex_of (sr_Title s) (tr_TagID t) p\<rparr>)
       prefs) targets)) sources)"

section \<open>The manifest\<close>

datatype status = Captured | Timeout | Error | Skipped

record CellResult =
  cr_Status :: status
  cr_Captures :: "string list"
  cr_Error :: string

type_synonym results = "(string \<times> CellResult) list"

text \<open>The results in memory, and those of the last complete file.\<close>

record Manifest =
  mf_results :: results
  mf_disk :: results

text \<open>The file: absent, unreadable or not JSON, or decoded.\<close>

datatype manifest_file = NoFile | BadFile | Decoded results

definition LoadOrInit :: "manifest_file \<Rightarrow> Manifest option" where
  "LoadOrInit f =
     (case f of
        NoFile \<Rightarrow> Some \<lparr>mf_results = [], mf_disk = []\<rparr>
      | BadFile \<Rightarrow> None
      | Decoded r \<Rightarrow> Some \<lparr>mf_results = r, mf_disk = r\<rparr>)"

definition Done :: "results \<Rightarrow> string \<Rightarrow> bool" where
  "Done m cellID = (case map_of m cellID of None \<Rightarrow> False | Some r \<Rightarrow> cr_Status r = Captured \<or> cr_Status r = Skipped)"

text \<open>\<open>saved\<close>: the temporary file was written and renamed.\<close>

definition Record :: "bool \<Rightarrow> string \<Rightarrow> CellResult \<Rightarrow> Manifest \<Rightarrow> Manifest" where
  "Record saved cellID r m =
     (let results = AList.update cellID r (mf_results m)
      in \<lparr>mf_results = results, mf_disk = (if saved then results else mf_disk m)\<rparr>)"

record Summary =
  su_Total :: nat
  su_Captured :: nat
  su_Timeout :: nat
  su_Error :: nat
  su_Skipped :: nat
  su_Remaining :: nat

definition summary :: "nat \<Rightarrow> results \<Rightarrow> Summary" where
  "summary totalCells m =
     (let count = (\<lambda>s. length (filter (\<lambda>(k, r). cr_Status r = s) m))
      in \<lparr>su_Total = totalCells, su_Captured = count Captured, su_Timeout = count Timeout, su_Error = count Error,
          su_Skipped = count Skipped, su_Remaining = totalCells - count Captured - count Skipped\<rparr>)"

section \<open>New captures\<close>

text \<open>\<open>filepath.Join\<close> of two names, which cleans the path.\<close>

fun clean_stack :: "bool \<Rightarrow> string list \<Rightarrow> string list \<Rightarrow> string list" where
  "clean_stack rooted st [] = rev st"
| "clean_stack rooted st (c # cs) =
     (if c = [] \<or> c = ''.'' then clean_stack rooted st cs
      else if c = ''..'' then
        (case st of
           [] \<Rightarrow> clean_stack rooted (if rooted then [] else [c]) cs
         | t # ts \<Rightarrow> clean_stack rooted (if t = ''..'' then c # st else ts) cs)
      else clean_stack rooted (c # st) cs)"

definition path_clean :: "string \<Rightarrow> string" where
  "path_clean p =
     (let rooted = has_prefix p ''/'';
          s = (if rooted then ''/'' else []) @ join_with ''/'' (clean_stack rooted [] (split_on (CHR ''/'') p))
      in if s = [] then ''.'' else s)"

definition join_path :: "string \<Rightarrow> string \<Rightarrow> string" where
  "join_path a b =
     (if a = [] \<and> b = [] then [] else path_clean (join_with ''/'' (if a = [] then [b] else [a, b])))"


record Watcher =
  wa_localDir :: string
  wa_invoker :: "string list"
  wa_remoteDir :: string
  wa_baseline :: "string list option"

definition NewLocalWatcher :: "bool \<Rightarrow> string \<Rightarrow> Watcher option" where
  "NewLocalWatcher exists dir =
     (if exists then Some \<lparr>wa_localDir = dir, wa_invoker = [], wa_remoteDir = [], wa_baseline = None\<rparr> else None)"

definition NewRemoteWatcher :: "bool \<Rightarrow> string \<Rightarrow> string \<Rightarrow> string \<Rightarrow> Watcher option" where
  "NewRemoteWatcher made invokerCmd remoteDir sinkDir =
     (if invokerCmd = [] \<or> remoteDir = [] \<or> sinkDir = [] \<or> \<not> made then None
      else Some \<lparr>wa_localDir = sinkDir, wa_invoker = str_fields invokerCmd, wa_remoteDir = remoteDir, wa_baseline = None\<rparr>)"

definition capture_name :: "string \<Rightarrow> bool" where
  "capture_name n \<longleftrightarrow> has_suffix n ''.json'' \<and> \<not> has_suffix n ''.optimize-cell.json''"

definition listLocal :: "(string \<times> bool) list option \<Rightarrow> string list option" where
  "listLocal entries = map_option (\<lambda>es. map fst (filter (\<lambda>(n, isdir). \<not> isdir \<and> capture_name n) es)) entries"

definition list_remote_command :: "Watcher \<Rightarrow> string \<times> argv" where
  "list_remote_command w = (hd (wa_invoker w), tl (wa_invoker w) @ [''ls'', ''-1'', wa_remoteDir w])"

definition listRemote :: "string option \<Rightarrow> string list option" where
  "listRemote out = map_option (\<lambda>t. filter (\<lambda>n. n \<noteq> [] \<and> capture_name n) (map trim_space (split_on (CHR 0x0A) t))) out"

definition cat_command :: "Watcher \<Rightarrow> string \<Rightarrow> string \<times> argv" where
  "cat_command w name =
     (hd (wa_invoker w),
      tl (wa_invoker w) @ [''cat'', (if has_suffix (wa_remoteDir w) ''/'' then wa_remoteDir w else wa_remoteDir w @ ''/'') @ name])"

text \<open>A failed listing leaves the baseline.\<close>

definition Snapshot :: "string list option \<Rightarrow> Watcher \<Rightarrow> Watcher option" where
  "Snapshot files w = map_option (\<lambda>fs. w\<lparr>wa_baseline := Some fs\<rparr>) files"

text \<open>\<open>present\<close> are the files the sink has, \<open>cat\<close> the bytes of a remote file, \<open>writes\<close> whether a file is written. The
  local paths and the files written, or \<open>None\<close> at the first that fails.\<close>

fun materialize :: "Watcher \<Rightarrow> (string \<Rightarrow> bool) \<Rightarrow> (string \<Rightarrow> string option) \<Rightarrow> (string \<Rightarrow> bool) \<Rightarrow> string list
    \<Rightarrow> (string list \<times> (string \<times> string) list) option" where
  "materialize w present cat writes [] = Some ([], [])"
| "materialize w present cat writes (n # ns) =
     (let local = join_path (wa_localDir w) n;
          go = (\<lambda>ws. map_option (\<lambda>(ps, us). (local # ps, ws @ us)) (materialize w present cat writes ns))
      in if wa_invoker w = [] \<or> present local then go []
         else (case cat n of
                 None \<Rightarrow> None
               | Some body \<Rightarrow> if writes local then go [(local, body)] else None))"

text \<open>The polls of \<open>WaitForNew\<close>: each listing, with the flag that the deadline has passed. \<open>copied\<close> is what
  \<open>materialize\<close> and the sort by modification time make of the new names. \<open>None\<close>: the polls went on.\<close>

fun wait_polls :: "string list \<Rightarrow> (string list \<Rightarrow> string list option) \<Rightarrow> (string list option \<times> bool) list \<Rightarrow> (string + string list) option" where
  "wait_polls baseline copied [] = None"
| "wait_polls baseline copied ((files, late) # polls) =
     (case files of
        None \<Rightarrow> Some (Inl ''list'')
      | Some fs \<Rightarrow>
          (let fresh = filter (\<lambda>f. f \<notin> set baseline) fs
           in if fresh \<noteq> [] then Some (case copied fresh of None \<Rightarrow> Inl ''materialize'' | Some ps \<Rightarrow> Inr ps)
              else if late then Some (Inr []) else wait_polls baseline copied polls))"

definition WaitForNew :: "Watcher \<Rightarrow> (string list \<Rightarrow> string list option) \<Rightarrow> (string list option \<times> bool) list \<Rightarrow> (string + string list) option" where
  "WaitForNew w copied polls =
     (case wa_baseline w of
        None \<Rightarrow> Some (Inl ''WaitForNew called without Snapshot'')
      | Some b \<Rightarrow> wait_polls b copied polls)"

section \<open>The tag beside a capture (\<open>capture/tag.go\<close>)\<close>

record CellTag =
  ct_CellID :: string
  ct_RatingKey :: string
  ct_Title :: string
  ct_Probe :: "Profile option"
  ct_TagID :: int
  ct_TargetTitle :: string
  ct_Prefs :: prefset
  ct_CaptureFile :: string

definition baseName :: "string \<Rightarrow> string" where
  "baseName p = rev (takeWhile (\<lambda>c. c \<noteq> CHR ''/'') (rev p))"

text \<open>The file that is written, and its content before JSON.\<close>

definition tag_write :: "string \<Rightarrow> CellTag \<Rightarrow> string \<times> CellTag" where
  "tag_write captureFile t =
     (trim_suffix captureFile ''.json'' @ ''.optimize-cell.json'', t\<lparr>ct_CaptureFile := baseName captureFile\<rparr>)"

section \<open>One cell\<close>

text \<open>The writing operations of the client that are called, in order.\<close>

datatype pms_op = OpSetPrefs prefset | OpTrigger string string int | OpCancel int | OpStop string | OpDelete plex_call

text \<open>What the calls of one cell return; \<open>pa_jobs k\<close> is the k-th listing of the queue.\<close>

record pms_answers =
  pa_setprefs :: "string option"
  pa_snapshot :: "string option"
  pa_trigger :: "string option"
  pa_wait :: "string + string list"
  pa_jobs :: "nat \<Rightarrow> OptimizedItem list option"
  pa_sessions :: "TranscodeSession list option"
  pa_media :: "Media list option"
  pa_delete_ok :: "Media \<Rightarrow> bool"

definition job_prefix :: string where
  "job_prefix = ''scaleplex-corpus-gen-''"

text \<open>The queue is listed up to \<open>tries\<close> times, from listing \<open>k\<close> on, for a job of the title. Returns the number of
  the next listing too.\<close>

fun cancelCorpusJobByTitle :: "(nat \<Rightarrow> OptimizedItem list option) \<Rightarrow> string \<Rightarrow> nat \<Rightarrow> nat \<Rightarrow> pms_op list \<times> nat" where
  "cancelCorpusJobByTitle jobs title 0 k = ([], k)"
| "cancelCorpusJobByTitle jobs title (Suc tries) k =
     (case jobs k of
        None \<Rightarrow> ([], Suc k)
      | Some js \<Rightarrow>
          (case find (\<lambda>j. oi_Title j = title) js of
             Some j \<Rightarrow> ([OpCancel (oi_ID j)], Suc k)
           | None \<Rightarrow> cancelCorpusJobByTitle jobs title tries (Suc k)))"

definition cancelAllCorpusJobs :: "OptimizedItem list option \<Rightarrow> TranscodeSession list option \<Rightarrow> pms_op list" where
  "cancelAllCorpusJobs jobs sessions =
     (case jobs of None \<Rightarrow> []
      | Some js \<Rightarrow> map (\<lambda>j. OpCancel (oi_ID j)) (filter (\<lambda>j. has_prefix (oi_Title j) job_prefix) js))
     @ (case sessions of None \<Rightarrow> []
        | Some ss \<Rightarrow> map (\<lambda>s. OpStop (ts_Key s)) (filter (\<lambda>s. ts_Context s = ''static'') ss))"

definition DeleteOptimizeChildren :: "string \<Rightarrow> Media list option \<Rightarrow> (Media \<Rightarrow> bool) \<Rightarrow> pms_op list" where
  "DeleteOptimizeChildren key media oks =
     (case media of None \<Rightarrow> [] | Some ms \<Rightarrow> map OpDelete (fst (delete_children key oks ms)))"

text \<open>The deferred clean-up of a cell.\<close>

definition cell_cleanup :: "pms_answers \<Rightarrow> Cell \<Rightarrow> pms_op list" where
  "cell_cleanup a cell =
     (case cancelCorpusJobByTitle (pa_jobs a) (job_prefix @ ce_ID cell) 3 0 of
        (ops, k) \<Rightarrow> ops @ cancelAllCorpusJobs (pa_jobs a k) (pa_sessions a)
          @ DeleteOptimizeChildren (ce_RatingKey cell) (pa_media a) (pa_delete_ok a))"

definition exists_already :: "string \<Rightarrow> bool" where
  "exists_already e \<longleftrightarrow> str_contains e (''code'' @ [CHR 0x22] @ '':1006'') \<or> str_contains e ''already exists''"

definition cell_result :: "pms_answers \<Rightarrow> CellResult" where
  "cell_result a =
     (let err = (\<lambda>e. \<lparr>cr_Status = Error, cr_Captures = [], cr_Error = e\<rparr>)
      in case pa_setprefs a of
           Some e \<Rightarrow> err (''set prefs: '' @ e)
         | None \<Rightarrow>
             (case pa_snapshot a of
                Some e \<Rightarrow> err (''snapshot: '' @ e)
              | None \<Rightarrow>
                  (case pa_trigger a of
                     Some e \<Rightarrow>
                       if exists_already e then \<lparr>cr_Status = Skipped, cr_Captures = [], cr_Error = e\<rparr>
                       else err (''trigger: '' @ e)
                   | None \<Rightarrow>
                       (case pa_wait a of
                          Inl e \<Rightarrow> err (''wait: '' @ e)
                        | Inr [] \<Rightarrow> \<lparr>cr_Status = Timeout, cr_Captures = [], cr_Error = []\<rparr>
                        | Inr fresh \<Rightarrow> \<lparr>cr_Status = Captured, cr_Captures = fresh, cr_Error = []\<rparr>))))"

definition cell_tag :: "Profile option \<Rightarrow> Cell \<Rightarrow> CellTag" where
  "cell_tag probe cell =
     \<lparr>ct_CellID = ce_ID cell, ct_RatingKey = ce_RatingKey cell, ct_Title = ce_Title cell, ct_Probe = probe,
      ct_TagID = ce_TagID cell, ct_TargetTitle = ce_TargetTitle cell, ct_Prefs = ce_Prefs cell, ct_CaptureFile = []\<rparr>"

text \<open>The result, the calls, and the tags.\<close>

definition runCell :: "pms_answers \<Rightarrow> Cell \<Rightarrow> Profile option \<Rightarrow> CellResult \<times> pms_op list \<times> (string \<times> CellTag) list" where
  "runCell a cell probe =
     (cell_result a,
      [OpSetPrefs (ce_Prefs cell)]
      @ (if pa_setprefs a = None \<and> pa_snapshot a = None
         then [OpTrigger (job_prefix @ ce_ID cell) (ce_RatingKey cell) (ce_TagID cell)] else [])
      @ cell_cleanup a cell,
      map (\<lambda>f. tag_write f (cell_tag probe cell)) (cr_Captures (cell_result a)))"

section \<open>The loop over the cells\<close>

text \<open>What the outside does during a sweep: \<open>sw_answers\<close> is what PMS answers to the n-th cell that runs, \<open>sw_saves\<close>
  whether its result reaches the disk, and \<open>sw_stop\<close> how many cells are finished when the process is killed, if it
  is: the cell in flight then leaves nothing behind but its calls.\<close>

record sweep_env =
  sw_max :: nat
  sw_resume :: bool
  sw_answers :: "nat \<Rightarrow> pms_answers"
  sw_saves :: "nat \<Rightarrow> bool"
  sw_stop :: "nat option"

record sweep_state =
  ss_manifest :: Manifest
  ss_executed :: nat
  ss_ran :: "(string \<times> CellResult) list"
  ss_ops :: "pms_op list"
  ss_tags :: "(string \<times> CellTag) list"

definition sweep_cell :: "sweep_env \<Rightarrow> (string \<Rightarrow> Profile option) \<Rightarrow> Cell \<Rightarrow> sweep_state \<Rightarrow> sweep_state" where
  "sweep_cell e probes cell s =
     (case runCell (sw_answers e (ss_executed s)) cell (probes (ce_RatingKey cell)) of
        (res, ops, tags) \<Rightarrow>
          s\<lparr>ss_manifest := Record (sw_saves e (ss_executed s)) (ce_ID cell) res (ss_manifest s),
            ss_executed := Suc (ss_executed s), ss_ran := ss_ran s @ [(ce_ID cell, res)], ss_ops := ss_ops s @ ops,
            ss_tags := ss_tags s @ tags\<rparr>)"

text \<open>The loop, and whether the process lived to its end.\<close>

fun sweep_loop :: "sweep_env \<Rightarrow> (string \<Rightarrow> Profile option) \<Rightarrow> Cell list \<Rightarrow> sweep_state \<Rightarrow> sweep_state \<times> bool" where
  "sweep_loop e probes [] s = (s, True)"
| "sweep_loop e probes (cell # cells) s =
     (if 0 < sw_max e \<and> sw_max e \<le> ss_executed s then (s, True)
      else if sw_resume e \<and> Done (mf_results (ss_manifest s)) (ce_ID cell) then sweep_loop e probes cells s
      else if sw_stop e = Some (ss_executed s) then (s, False)
      else sweep_loop e probes cells (sweep_cell e probes cell s))"

definition sweep_start :: "Manifest \<Rightarrow> sweep_state" where
  "sweep_start m = \<lparr>ss_manifest = m, ss_executed = 0, ss_ran = [], ss_ops = [], ss_tags = []\<rparr>"

section \<open>A whole sweep\<close>

definition has_part :: "Item \<Rightarrow> bool" where
  "has_part i = (case it_Media i of [] \<Rightarrow> False | m # ms \<Rightarrow> me_Files m \<noteq> [])"

text \<open>The source of one item, with its profile: its metadata are asked for when the listing has no file.\<close>

definition sweep_source :: "(string \<Rightarrow> string + Item) \<Rightarrow> (string \<Rightarrow> Profile option) \<Rightarrow> Item \<Rightarrow> (SourceRef \<times> Profile) option" where
  "sweep_source meta probe i =
     (case (if has_part i then Inr i else meta (it_RatingKey i)) of
        Inl e \<Rightarrow> None
      | Inr it \<Rightarrow>
          if \<not> has_part it then None
          else (let file = hd (me_Files (hd (it_Media it)))
                in map_option (\<lambda>p. (\<lparr>sr_RatingKey = it_RatingKey it, sr_Title = it_Title it, sr_Path = file\<rparr>, p)) (probe file)))"

definition parseTagList :: "string \<Rightarrow> int list" where
  "parseTagList csv =
     List.map_filter (\<lambda>tok. if trim_space tok = [] then None else sscanf_int (trim_space tok)) (split_on (CHR '','') csv)"

definition sweep_targets :: "int list \<Rightarrow> TargetRef list \<Rightarrow> TargetRef list" where
  "sweep_targets allowed ts = filter (\<lambda>t. allowed = [] \<or> tr_TagID t \<in> set allowed) ts"

text \<open>What PMS answers before the first cell: the listing of the sections, the items of one, the metadata of an
  item, the targets, the preferences and the background list; and what the probe and the files give.\<close>

record sweep_inputs =
  si_sections :: "string + Section list"
  si_items :: "string \<Rightarrow> string + Item list"
  si_meta :: "string \<Rightarrow> string + Item"
  si_probe :: "string \<Rightarrow> Profile option"
  si_targets :: "string + TargetRef list"
  si_manifest :: manifest_file
  si_prefs :: "string + (string \<times> pref_value) list"
  si_background :: "string + string list"
  si_watcher :: "Watcher option"

text \<open>A sweep up to the loop: an error, or the cells, their profiles, the manifest and the snapshot.\<close>

definition sweep_setup :: "(string \<Rightarrow> string) \<Rightarrow> (rat \<Rightarrow> string) \<Rightarrow> string \<Rightarrow> string \<Rightarrow> sweep_inputs
    \<Rightarrow> string + (Cell list \<times> (string \<Rightarrow> Profile option) \<times> Manifest \<times> prefset)" where
  "sweep_setup hex_of float_text title only i =
     (case FindSectionByTitle title (si_sections i) of
        Inl e \<Rightarrow> Inl (''section: '' @ e)
      | Inr sec \<Rightarrow>
    (case si_items i (se_Key sec) of
        Inl e \<Rightarrow> Inl (''list items: '' @ e)
      | Inr [] \<Rightarrow> Inl ''section is empty''
      | Inr items \<Rightarrow>
    (let found = List.map_filter (sweep_source (si_meta i) (si_probe i)) items;
         probes = fold (\<lambda>(r, p) m. m(sr_RatingKey r \<mapsto> p)) found Map.empty
     in case si_targets i of
        Inl e \<Rightarrow> Inl (''targets: '' @ e)
      | Inr ts \<Rightarrow>
    (let targets = sweep_targets (parseTagList only) ts
     in if targets = [] then Inl ''no Optimize targets after filter''
        else
    (case LoadOrInit (si_manifest i) of
        None \<Rightarrow> Inl ''manifest''
      | Some mf \<Rightarrow>
    (case SaveSnapshot float_text (si_prefs i) of
        Inl e \<Rightarrow> Inl (''snapshot: '' @ e)
      | Inr snap \<Rightarrow>
    (case BackgroundProcessingKey (si_background i) of
        Inl e \<Rightarrow> Inl (''bg key: '' @ e)
      | Inr bgKey \<Rightarrow>
    (case si_watcher i of
        None \<Rightarrow> Inl ''watcher''
      | Some w \<Rightarrow> Inr (Expand hex_of (map fst found) targets DefaultPrefMatrix, probes, mf, snap)))))))))"

text \<open>The loop with its deferred calls: the snapshot is written back when the loop ends, or by the handler of
  SIGINT and SIGTERM; \<open>caught\<close> tells such a signal from a SIGKILL.\<close>

definition sweep_run :: "sweep_env \<Rightarrow> bool \<Rightarrow> (string \<Rightarrow> Profile option) \<Rightarrow> prefset \<Rightarrow> Cell list \<Rightarrow> Manifest \<Rightarrow> sweep_state" where
  "sweep_run e caught probes snap cells m =
     (case sweep_loop e probes cells (sweep_start m) of
        (s, ended) \<Rightarrow> if ended \<or> caught then s\<lparr>ss_ops := ss_ops s @ [OpSetPrefs snap]\<rparr> else s)"

definition runSweep :: "(string \<Rightarrow> string) \<Rightarrow> (rat \<Rightarrow> string) \<Rightarrow> string \<Rightarrow> string \<Rightarrow> sweep_inputs \<Rightarrow> sweep_env \<Rightarrow> bool \<Rightarrow> string + sweep_state" where
  "runSweep hex_of float_text title only i e caught =
     (case sweep_setup hex_of float_text title only i of
        Inl err \<Rightarrow> Inl err
      | Inr (cells, probes, mf, snap) \<Rightarrow> Inr (sweep_run e caught probes snap cells mf))"

text \<open>What the writing calls make of the preferences; \<open>took k\<close> tells whether the k-th call took effect.\<close>

fun prefs_after :: "(nat \<Rightarrow> bool) \<Rightarrow> nat \<Rightarrow> pms_op list \<Rightarrow> (string \<rightharpoonup> string) \<Rightarrow> string \<rightharpoonup> string" where
  "prefs_after took k [] prefs = prefs"
| "prefs_after took k (op # ops) prefs =
     prefs_after took (Suc k) ops (case op of OpSetPrefs vs \<Rightarrow> if took k then prefs ++ map_of vs else prefs | _ \<Rightarrow> prefs)"

section \<open>The smoke run\<close>

text \<open>The item: the one of the rating key, or the first; of a show, its first episode.\<close>

definition smoke_item :: "string \<Rightarrow> string \<Rightarrow> Item list \<Rightarrow> (string \<Rightarrow> string + Item list) \<Rightarrow> string + Item" where
  "smoke_item rating kind items episodes =
     (case items of
        [] \<Rightarrow> Inl ''section is empty''
      | i # is \<Rightarrow>
          (case (if rating \<noteq> [] then find (\<lambda>it. it_RatingKey it = rating) items else Some i) of
             None \<Rightarrow> Inl ''source-rating-key not in section''
           | Some src \<Rightarrow>
               if kind \<noteq> ''show'' then Inr src
               else (case episodes (it_RatingKey src) of
                       Inl e \<Rightarrow> Inl (''episodes: '' @ e)
                     | Inr [] \<Rightarrow> Inl ''series has no episodes''
                     | Inr (ep # eps) \<Rightarrow> Inr ep)))"

text \<open>The target: the first, or the last with the tag.\<close>

definition smoke_target :: "int \<Rightarrow> TargetRef list \<Rightarrow> TargetRef option" where
  "smoke_target tag ts =
     (case ts of
        [] \<Rightarrow> None
      | t # us \<Rightarrow> if tag = 0 then Some t else find (\<lambda>u. tr_TagID u = tag) (rev ts))"

definition smoke_prefs :: prefset where
  "smoke_prefs = [(''HardwareAcceleratedCodecs'', ''true''), (''HardwareAcceleratedEncoders'', ''true''),
     (''TranscoderToneMapping'', ''true''), (''TranscoderHEVCEncodingMode'', ''always''), (''TranscoderHEVCOptimize'', ''true'')]"

datatype smoke_end = Fatal string | Returned

text \<open>From the snapshot of the preferences on. \<open>log.Fatalf\<close> exits without running what is deferred.\<close>

definition smoke_calls :: "bool \<Rightarrow> Section \<Rightarrow> string \<Rightarrow> TargetRef \<Rightarrow> string \<Rightarrow> Watcher option \<Rightarrow> string + string list \<Rightarrow> pms_answers
    \<Rightarrow> pms_op list \<times> smoke_end" where
  "smoke_calls dryRun sec rating target title w background a =
     (let put = [OpSetPrefs smoke_prefs]
      in if dryRun then ([], Returned)
      else case pa_setprefs a of
        Some e \<Rightarrow> (put, Fatal (''set prefs: '' @ e))
      | None \<Rightarrow>
    (if w = None then (put, Fatal ''watcher'')
     else case pa_snapshot a of
        Some e \<Rightarrow> (put, Fatal (''snapshot: '' @ e))
      | None \<Rightarrow>
    (case BackgroundProcessingKey background of
        Inl e \<Rightarrow> (put, Fatal (''bg key: '' @ e))
      | Inr bgKey \<Rightarrow>
    (if se_UUID sec = [] then (put, Fatal ''section has no UUID'')
     else let trigger = put @ [OpTrigger title rating (tr_TagID target)]
     in case pa_trigger a of
        Some e \<Rightarrow> (trigger, Fatal (''trigger: '' @ e))
      | None \<Rightarrow>
    (case pa_wait a of
        Inl e \<Rightarrow> (trigger, Fatal (''wait: '' @ e))
      | Inr fresh \<Rightarrow> (trigger @ cancelAllCorpusJobs (pa_jobs a 0) (pa_sessions a), Returned))))))"

definition runSmoke :: "bool \<Rightarrow> Section \<Rightarrow> string \<Rightarrow> TargetRef \<Rightarrow> string \<Rightarrow> Watcher option \<Rightarrow> string + string list \<Rightarrow> pms_answers
    \<Rightarrow> prefset \<Rightarrow> pms_op list \<times> smoke_end" where
  "runSmoke dryRun sec rating target title w background a snap =
     (case smoke_calls dryRun sec rating target title w background a of
        (ops, Returned) \<Rightarrow> (ops @ [OpSetPrefs snap], Returned)
      | (ops, Fatal e) \<Rightarrow> (ops, Fatal e))"

text \<open>The clean-up subcommand.\<close>

definition runClean :: "string + string list \<Rightarrow> OptimizedItem list option \<Rightarrow> TranscodeSession list option \<Rightarrow> string + pms_op list" where
  "runClean background jobs sessions =
     (case BackgroundProcessingKey background of
        Inl e \<Rightarrow> Inl (''bg key: '' @ e)
      | Inr bgKey \<Rightarrow> Inr (cancelAllCorpusJobs jobs sessions))"

section \<open>Facts about one cell\<close>

text \<open>A capture never takes the name of a tag, and its tag is no capture.\<close>

lemma tag_is_no_capture: "\<not> capture_name (fst (tag_write f t))"
  by (simp add: capture_name_def tag_write_def has_suffix_iff)

text \<open>What is new was listed and is not in the baseline.\<close>

lemma new_captures:
  "wait_polls baseline copied polls = Some (Inr fresh) \<Longrightarrow> fresh \<noteq> [] \<Longrightarrow>
    \<exists>names. copied names = Some fresh \<and> names \<noteq> [] \<and> set names \<inter> set baseline = {}"
proof (induction baseline copied polls rule: wait_polls.induct)
  case (2 baseline copied files late polls)
  then show ?case
    by (auto simp: Let_def split: option.splits if_splits intro!: exI [of _ "filter (\<lambda>f. f \<notin> set baseline) _"])
qed simp

text \<open>The polls end at the latest with the deadline.\<close>

lemma polls_end: "(files, True) \<in> set polls \<Longrightarrow> wait_polls baseline copied polls \<noteq> None"
  by (induction baseline copied polls rule: wait_polls.induct) (auto simp: Let_def split: option.splits)

text \<open>The clean-up names the jobs of this tool only, and every static session.\<close>

lemma cleanup_calls:
  "OpStop k \<in> set (cancelAllCorpusJobs jobs sessions) \<longleftrightarrow> (\<exists>ss s. sessions = Some ss \<and> s \<in> set ss \<and> ts_Context s = ''static'' \<and> ts_Key s = k)"
  "OpCancel i \<in> set (cancelAllCorpusJobs jobs sessions) \<longleftrightarrow> (\<exists>js j. jobs = Some js \<and> j \<in> set js \<and> has_prefix (oi_Title j) job_prefix \<and> oi_ID j = i)"
  "OpSetPrefs p \<notin> set (cancelAllCorpusJobs jobs sessions)"
  by (auto simp: cancelAllCorpusJobs_def split: option.splits)

lemma cancel_title_sets_nothing: "OpSetPrefs p \<notin> set (fst (cancelCorpusJobByTitle jobs title n k))"
  by (induction jobs title n k rule: cancelCorpusJobByTitle.induct) (auto split: option.splits)

text \<open>A cell writes the preferences once, with its own, and ends with the clean-up whatever its result.\<close>

lemma cell_cleanup_sets_nothing: "OpSetPrefs p \<notin> set (cell_cleanup a cell)"
  using cancel_title_sets_nothing [of p "pa_jobs a" "job_prefix @ ce_ID cell" 3 0]
  by (cases "cancelCorpusJobByTitle (pa_jobs a) (job_prefix @ ce_ID cell) 3 0")
    (auto simp: cell_cleanup_def cleanup_calls DeleteOptimizeChildren_def split: option.split)

lemma cell_calls:
  "\<exists>trigger. fst (snd (runCell a cell probe)) = OpSetPrefs (ce_Prefs cell) # trigger @ cell_cleanup a cell
    \<and> set trigger \<subseteq> {OpTrigger (job_prefix @ ce_ID cell) (ce_RatingKey cell) (ce_TagID cell)}"
  by (simp add: runCell_def) blast

lemma cell_final:
  "cr_Status (cell_result a) = Captured \<or> cr_Status (cell_result a) = Skipped \<longleftrightarrow>
    pa_setprefs a = None \<and> pa_snapshot a = None
    \<and> (case pa_trigger a of Some e \<Rightarrow> exists_already e | None \<Rightarrow> (\<exists>f fs. pa_wait a = Inr (f # fs)))"
  by (auto simp: cell_result_def Let_def split: option.splits sum.splits list.splits)

section \<open>Facts about the loop\<close>

text \<open>The results on disk after cells ran.\<close>

definition recorded :: "(string \<times> CellResult) list \<Rightarrow> results \<Rightarrow> results" where
  "recorded runs m = fold (\<lambda>(i, r) m. AList.update i r m) runs m"

lemma recorded_lookup: "map_of (recorded runs m) k = (case map_of (rev runs) k of Some r \<Rightarrow> Some r | None \<Rightarrow> map_of m k)"
  by (induction runs arbitrary: m) (auto simp: recorded_def update_conv' map_add_def split: option.splits)

lemma recorded_append: "recorded (xs @ ys) m = recorded ys (recorded xs m)"
  by (simp add: recorded_def)

text \<open>No cell runs whose result was final when it ran.\<close>

definition fresh_runs :: "results \<Rightarrow> (string \<times> CellResult) list \<Rightarrow> bool" where
  "fresh_runs m runs \<longleftrightarrow> (\<forall>xs y ys. runs = xs @ y # ys \<longrightarrow> \<not> Done (recorded xs m) (fst y))"

lemma fresh_runs_snoc: "fresh_runs m (runs @ [y]) \<longleftrightarrow> fresh_runs m runs \<and> \<not> Done (recorded runs m) (fst y)"
proof (intro iffI conjI)
  assume l: "fresh_runs m (runs @ [y])"
  show "fresh_runs m runs" unfolding fresh_runs_def
  proof (intro allI impI)
    fix xs z zs assume "runs = xs @ z # zs"
    then have "runs @ [y] = xs @ z # (zs @ [y])" by simp
    with l show "\<not> Done (recorded xs m) (fst z)" unfolding fresh_runs_def by blast
  qed
  from l show "\<not> Done (recorded runs m) (fst y)" unfolding fresh_runs_def by blast
next
  assume r: "fresh_runs m runs \<and> \<not> Done (recorded runs m) (fst y)"
  show "fresh_runs m (runs @ [y])" unfolding fresh_runs_def
  proof (intro allI impI)
    fix xs z zs assume eq: "runs @ [y] = xs @ z # zs"
    show "\<not> Done (recorded xs m) (fst z)"
    proof (cases zs rule: rev_cases)
      case Nil
      with eq r show ?thesis by simp
    next
      case (snoc ws w)
      with eq have "runs = xs @ z # ws" by simp
      with r show ?thesis unfolding fresh_runs_def by blast
    qed
  qed
qed

lemma fresh_runs_append: "fresh_runs m runs \<Longrightarrow> fresh_runs (recorded runs m) runs' \<Longrightarrow> fresh_runs m (runs @ runs')"
proof (induction runs' rule: rev_induct)
  case (snoc y ys)
  from snoc.prems(2) have a: "fresh_runs (recorded runs m) ys" "\<not> Done (recorded ys (recorded runs m)) (fst y)"
    by (simp_all add: fresh_runs_snoc)
  have "fresh_runs m ((runs @ ys) @ [y])"
    using snoc.IH [OF snoc.prems(1) a(1)] a(2) unfolding fresh_runs_snoc recorded_append by simp
  then show ?case by simp
qed simp

lemma fresh_runs_once:
  assumes "fresh_runs m (xs @ (i, r) # ys)" and "cr_Status r = Captured \<or> cr_Status r = Skipped"
  shows "i \<notin> fst ` set ys"
proof
  assume "i \<in> fst ` set ys"
  then obtain y where "y \<in> set ys" "fst y = i" by auto
  then obtain as z bs where ys: "ys = as @ z # bs" "fst z = i" "\<forall>a\<in>set as. fst a \<noteq> i"
    using split_list_first_propE [of ys "\<lambda>y. fst y = i"] by metis
  have "map_of (rev as) i = None" using ys(3) by (auto simp: map_of_eq_None_iff)
  then have "map_of (recorded (xs @ (i, r) # as) m) i = Some r"
    by (simp add: recorded_lookup map_add_def)
  with assms(2) have "Done (recorded (xs @ (i, r) # as) m) (fst z)" using ys(2) by (simp add: Done_def)
  moreover have "xs @ (i, r) # ys = (xs @ (i, r) # as) @ z # bs" using ys(1) by simp
  ultimately show False using assms(1) by (metis fresh_runs_def)
qed

text \<open>What the loop keeps: results in memory and on disk are the recorded runs on what was loaded.\<close>

definition loop_inv :: "results \<Rightarrow> sweep_state \<Rightarrow> bool" where
  "loop_inv m s \<longleftrightarrow> mf_results (ss_manifest s) = recorded (ss_ran s) m \<and> mf_disk (ss_manifest s) = recorded (ss_ran s) m
     \<and> fresh_runs m (ss_ran s)"

lemma loop_inv_cell:
  assumes "loop_inv m s" "sw_saves e (ss_executed s)" "\<not> Done (mf_results (ss_manifest s)) (ce_ID cell)"
  shows "loop_inv m (sweep_cell e probes cell s)"
  using assms by (simp add: loop_inv_def sweep_cell_def runCell_def Record_def Let_def fresh_runs_snoc recorded_append)
    (simp add: recorded_def)

lemma loop_inv_loop:
  "loop_inv m s \<Longrightarrow> sw_resume e \<Longrightarrow> (\<And>n. sw_saves e n) \<Longrightarrow> loop_inv m (fst (sweep_loop e probes cells s))"
  by (induction e probes cells s rule: sweep_loop.induct) (auto intro: loop_inv_cell)

lemma loop_inv_run:
  assumes "sw_resume e" "\<And>n. sw_saves e n"
  shows "loop_inv m (sweep_run e caught probes snap cells \<lparr>mf_results = m, mf_disk = m\<rparr>)"
proof -
  have "loop_inv m (sweep_start \<lparr>mf_results = m, mf_disk = m\<rparr>)"
    by (simp add: loop_inv_def sweep_start_def recorded_def fresh_runs_def)
  then have "loop_inv m (fst (sweep_loop e probes cells (sweep_start \<lparr>mf_results = m, mf_disk = m\<rparr>)))"
    using assms by (rule loop_inv_loop)
  then show ?thesis
    by (cases "sweep_loop e probes cells (sweep_start \<lparr>mf_results = m, mf_disk = m\<rparr>)")
      (simp add: sweep_run_def loop_inv_def)
qed

text \<open>A loop without a bound and without a kill leaves a result for every cell.\<close>

lemma sweep_cell_results: "dom (map_of (mf_results (ss_manifest (sweep_cell e probes cell s))))
    = insert (ce_ID cell) (dom (map_of (mf_results (ss_manifest s))))"
  by (auto simp: sweep_cell_def runCell_def Record_def Let_def update_conv' dom_def)

lemma sweep_loop_covers:
  "sw_max e = 0 \<Longrightarrow> sw_stop e = None \<Longrightarrow> sweep_loop e probes cells s = (s', ended) \<Longrightarrow>
    ended \<and> ce_ID ` set cells \<union> dom (map_of (mf_results (ss_manifest s))) = dom (map_of (mf_results (ss_manifest s')))"
proof (induction e probes cells s rule: sweep_loop.induct)
  case (2 e probes cell cells s)
  show ?case
  proof (cases "sw_resume e \<and> Done (mf_results (ss_manifest s)) (ce_ID cell)")
    case True
    then have "ce_ID cell \<in> dom (map_of (mf_results (ss_manifest s)))" by (auto simp: Done_def split: option.splits)
    with 2 True show ?thesis by auto
  next
    case False
    with 2 show ?thesis by (auto simp: sweep_cell_results)
  qed
qed simp

text \<open>A loop that is not killed comes to its end.\<close>

lemma loop_ends: "sw_stop e = None \<Longrightarrow> sweep_loop e probes cells s = (s', ended) \<Longrightarrow> ended"
  by (induction e probes cells s rule: sweep_loop.induct) (auto split: if_splits)

section \<open>Facts about many sessions\<close>

text \<open>Sessions on the same directory, one after the other: each loads what the last left on disk. A session is its
  environment, whether a signal was caught, the profiles, the snapshot and the cells. The runs of all of them, and
  what is on disk then.\<close>

type_synonym session = "sweep_env \<times> bool \<times> (string \<Rightarrow> Profile option) \<times> prefset \<times> Cell list"

fun sweep_sessions :: "session list \<Rightarrow> results \<Rightarrow> (string \<times> CellResult) list \<times> results" where
  "sweep_sessions [] disk = ([], disk)"
| "sweep_sessions ((e, caught, probes, snap, cells) # rest) disk =
     (let s = sweep_run e caught probes snap cells \<lparr>mf_results = disk, mf_disk = disk\<rparr>
      in case sweep_sessions rest (mf_disk (ss_manifest s)) of (rs, disk') \<Rightarrow> (ss_ran s @ rs, disk'))"

definition resumes :: "session \<Rightarrow> bool" where
  "resumes s \<longleftrightarrow> sw_resume (fst s) \<and> (\<forall>n. sw_saves (fst s) n)"

lemma sessions_recorded:
  "list_all resumes ss \<Longrightarrow> sweep_sessions ss disk = (rs, disk') \<Longrightarrow> disk' = recorded rs disk \<and> fresh_runs disk rs"
proof (induction ss disk arbitrary: rs disk' rule: sweep_sessions.induct)
  case (1 disk)
  then show ?case by (simp add: recorded_def fresh_runs_def)
next
  case (2 e caught probes snap cells rest disk)
  let ?s = "sweep_run e caught probes snap cells \<lparr>mf_results = disk, mf_disk = disk\<rparr>"
  obtain rs1 d1 where r: "sweep_sessions rest (mf_disk (ss_manifest ?s)) = (rs1, d1)"
    using prod.exhaust by blast
  have l: "loop_inv disk ?s" using "2.prems"(1) by (intro loop_inv_run) (simp_all add: resumes_def)
  have d: "d1 = recorded rs1 (mf_disk (ss_manifest ?s)) \<and> fresh_runs (mf_disk (ss_manifest ?s)) rs1"
    using "2.IH" [OF refl] "2.prems"(1) r by simp
  have out: "rs = ss_ran ?s @ rs1" "disk' = d1" using "2.prems"(2) r by (simp_all add: Let_def)
  show ?case using l d unfolding out
    by (auto simp: loop_inv_def recorded_append intro: fresh_runs_append)
qed

section \<open>Facts about the preferences\<close>

lemma prefs_after_append:
  "prefs_after took k (xs @ ys) prefs = prefs_after took (k + length xs) ys (prefs_after took k xs prefs)"
  by (induction xs arbitrary: k prefs) simp_all

text \<open>Calls that write only preferences of the matrix leave the others.\<close>

lemma prefs_after_others:
  "\<forall>vs. OpSetPrefs vs \<in> set ops \<longrightarrow> set (map fst vs) \<subseteq> keys \<Longrightarrow> k \<notin> keys \<Longrightarrow> prefs_after took n ops prefs k = prefs k"
proof (induction ops arbitrary: n prefs)
  case (Cons op ops)
  have "map_of vs k = None" if "op = OpSetPrefs vs" for vs
    using Cons.prems that by (force simp: map_of_eq_None_iff)
  then show ?case using Cons by (auto simp: map_add_def split: pms_op.split)
qed simp

lemma loop_ops:
  "sweep_loop e probes cells s = (s', ended) \<Longrightarrow>
    \<exists>ops. ss_ops s' = ss_ops s @ ops \<and> (\<forall>vs. OpSetPrefs vs \<in> set ops \<longrightarrow> vs \<in> ce_Prefs ` set cells)"
proof (induction e probes cells s rule: sweep_loop.induct)
  case (2 e probes cell cells s)
  have one: "\<exists>ops. ss_ops (sweep_cell e probes cell s) = ss_ops s @ ops \<and> (\<forall>vs. OpSetPrefs vs \<in> set ops \<longrightarrow> vs = ce_Prefs cell)"
    using cell_cleanup_sets_nothing by (auto simp: sweep_cell_def runCell_def)
  show ?case
  proof (cases "0 < sw_max e \<and> sw_max e \<le> ss_executed s \<or> sw_resume e \<and> Done (mf_results (ss_manifest s)) (ce_ID cell)
      \<or> sw_stop e = Some (ss_executed s)")
    case True
    with 2 show ?thesis by (auto split: if_splits)
  next
    case False
    with 2 obtain ops where "ss_ops s' = ss_ops (sweep_cell e probes cell s) @ ops"
        "\<forall>vs. OpSetPrefs vs \<in> set ops \<longrightarrow> vs \<in> ce_Prefs ` set cells"
      by (auto split: if_splits)
    with one show ?thesis by fastforce
  qed
qed simp

lemma default_prefs_keys: "p \<in> set DefaultPrefMatrix \<Longrightarrow> map fst p = PrefMatrixIDs"
  by (auto simp: DefaultPrefMatrix_def PrefMatrixIDs_def Let_def)

lemma expand_prefs: "c \<in> set (Expand hex_of sources targets prefs) \<Longrightarrow> ce_Prefs c \<in> set prefs"
  by (auto simp: Expand_def)

lemma snapshot_restores:
  assumes ops: "\<forall>vs. OpSetPrefs vs \<in> set ops \<longrightarrow> set (map fst vs) \<subseteq> set PrefMatrixIDs"
    and snap: "map fst snap = PrefMatrixIDs" "\<forall>(k, v)\<in>set snap. prefs k = Some v"
    and took: "took (length ops)"
  shows "prefs_after took 0 (ops @ [OpSetPrefs snap]) prefs = prefs"
proof
  fix k
  show "prefs_after took 0 (ops @ [OpSetPrefs snap]) prefs k = prefs k"
  proof (cases "map_of snap k")
    case None
    then have "k \<notin> set PrefMatrixIDs" using snap(1) by (metis map_of_eq_None_iff set_map)
    then show ?thesis using prefs_after_others [OF ops] took None by (simp add: prefs_after_append map_add_def)
  next
    case (Some v)
    then have "prefs k = Some v" using snap(2) by (auto dest: map_of_SomeD)
    then show ?thesis using took Some by (simp add: prefs_after_append map_add_def)
  qed
qed

section \<open>Facts about the identifiers of cells\<close>

lemma digits_back_utoa: "digits_back n buf = (if n = 0 then buf else utoa n @ buf)"
proof (induction n buf rule: digits_back.induct)
  case (1 n buf)
  show ?case
  proof (cases "n = 0")
    case False
    with 1 have "digits_back n buf = (if n div 10 = 0 then [] else utoa (n div 10)) @ digit_char (n mod 10) # buf"
      by (simp add: digits_back.simps [of n])
    with False show ?thesis by (auto simp: utoa.simps [of n])
  qed (simp add: digits_back.simps)
qed

lemma zero_digit: "digit_char 0 = CHR ''0''"
  by code_simp

lemma matrix_itoa_eq:
  assumes "- (2 ^ 63) < n" "n < 2 ^ 63"
  shows "matrix_itoa n = itoa n"
proof -
  have "n < 0 \<Longrightarrow> signed_take_bit 63 (- n) = - n" using assms by (intro signed_take_bit_int_eq_self) simp_all
  then show ?thesis by (simp add: matrix_itoa_def itoa_def digits_back_utoa utoa.simps [of 0] zero_digit)
qed

lemma matrix_itoa_least: "matrix_itoa (- (2 ^ 63)) = ''-''"
  by code_simp

lemma first_split_unique: "b @ c # a = b' @ c # a' \<Longrightarrow> c \<notin> set b \<Longrightarrow> c \<notin> set b' \<Longrightarrow> b = b' \<and> a = a'"
proof (induction b arbitrary: b')
  case Nil
  then show ?case by (cases b') auto
next
  case (Cons x b)
  then show ?case by (cases b') auto
qed

lemma first_split_eq: "c \<notin> set b \<Longrightarrow> c \<notin> set b' \<Longrightarrow> b @ c # a = b' @ c # a' \<longleftrightarrow> b = b' \<and> a = a'"
  by (rule iffI, erule (2) first_split_unique, simp)

lemma last_split_unique:
  assumes "a @ c # b = a' @ c # b'" "c \<notin> set b" "c \<notin> set b'"
  shows "a = a' \<and> b = b'"
proof -
  have "rev b @ c # rev a = rev b' @ c # rev a'" using arg_cong [OF assms(1), of rev] by simp
  from first_split_unique [OF this] assms(2,3) show ?thesis by simp
qed

definition prefs_text :: "prefset \<Rightarrow> string" where
  "prefs_text prefs = concat (map (\<lambda>(k, v). k @ ''='' @ v @ '';'') (sort_key fst prefs))"

definition pref_row :: "string list \<Rightarrow> prefset" where
  "pref_row vs = zip PrefMatrixIDs vs"

definition pref_words :: "string set" where
  "pref_words = {''true'', ''false'', ''always'', ''never''}"

lemma default_rows:
  "p \<in> set DefaultPrefMatrix \<Longrightarrow> \<exists>a b c d e. p = pref_row [a, b, c, d, e] \<and> {a, b, c, d, e} \<subseteq> pref_words"
  by (auto simp: DefaultPrefMatrix_def pref_row_def PrefMatrixIDs_def pref_words_def Let_def)

lemma sorted_row:
  "sort_key fst (pref_row [a, b, c, d, e]) =
     [(''HardwareAcceleratedCodecs'', a), (''HardwareAcceleratedEncoders'', b), (''TranscoderHEVCEncodingMode'', d),
      (''TranscoderHEVCOptimize'', e), (''TranscoderToneMapping'', c)]"
  by code_simp

lemma row_text:
  "prefs_text (pref_row [a, b, c, d, e]) =
     ''HardwareAcceleratedCodecs='' @ a @ '';HardwareAcceleratedEncoders='' @ b @ '';TranscoderHEVCEncodingMode='' @ d
     @ '';TranscoderHEVCOptimize='' @ e @ '';TranscoderToneMapping='' @ c @ '';''"
  by (simp add: prefs_text_def sorted_row)

lemma prefs_text_inj:
  assumes "prefs_text p = prefs_text q" "p \<in> set DefaultPrefMatrix" "q \<in> set DefaultPrefMatrix"
  shows "p = q"
proof -
  obtain a b c d e where p: "p = pref_row [a, b, c, d, e]" "{a, b, c, d, e} \<subseteq> pref_words"
    using default_rows [OF assms(2)] by auto
  obtain a' b' c' d' e' where q: "q = pref_row [a', b', c', d', e']" "{a', b', c', d', e'} \<subseteq> pref_words"
    using default_rows [OF assms(3)] by auto
  have n: "CHR '';'' \<notin> set v" if "v \<in> pref_words" for v using that by (auto simp: pref_words_def)
  have "CHR '';'' \<notin> set v" if "v \<in> {a, b, c, d, e} \<union> {a', b', c', d', e'}" for v using that p(2) q(2) n by blast
  then show ?thesis using assms(1) unfolding p(1) q(1) row_text by (simp add: first_split_eq)
qed

lemma prefs_text_no_bar:
  assumes "p \<in> set DefaultPrefMatrix"
  shows "CHR ''|'' \<notin> set (prefs_text p)"
proof -
  obtain a b c d e where p: "p = pref_row [a, b, c, d, e]" "{a, b, c, d, e} \<subseteq> pref_words"
    using default_rows [OF assms] by auto
  have n: "CHR ''|'' \<notin> set v" if "v \<in> pref_words" for v using that by (auto simp: pref_words_def)
  have "CHR ''|'' \<notin> set v" if "v \<in> {a, b, c, d, e}" for v using that p(2) n by blast
  then show ?thesis unfolding p(1) row_text by simp
qed

lemma default_matrix_distinct: "distinct DefaultPrefMatrix" and default_matrix_length: "length DefaultPrefMatrix = 32"
  by (simp_all add: DefaultPrefMatrix_def Let_def)

lemma itoa_no_bar: "CHR ''|'' \<notin> set (itoa i)"
proof
  assume "CHR ''|'' \<in> set (itoa i)"
  then have "CHR ''|'' = CHR ''-'' \<or> is_digit (CHR ''|'')" using utoa_digits by (auto simp: itoa_def split: if_splits)
  then show False by (simp add: is_digit_def)
qed

lemma cell_text_inj:
  assumes "cell_text a i p = cell_text b j q" "p \<in> set DefaultPrefMatrix" "q \<in> set DefaultPrefMatrix"
    and "- (2 ^ 63) < i" "i < 2 ^ 63" "- (2 ^ 63) < j" "j < 2 ^ 63"
  shows "a = b \<and> i = j \<and> p = q"
proof -
  have t: "cell_text a i p = (a @ CHR ''|'' # itoa i) @ CHR ''|'' # prefs_text p"
    "cell_text b j q = (b @ CHR ''|'' # itoa j) @ CHR ''|'' # prefs_text q"
    using assms(4-) by (simp_all add: cell_text_def prefs_text_def matrix_itoa_eq)
  have "CHR ''|'' \<notin> set (prefs_text p)" "CHR ''|'' \<notin> set (prefs_text q)"
    using prefs_text_no_bar assms(2,3) by auto
  from last_split_unique [OF assms(1) [unfolded t] this]
  have "a @ CHR ''|'' # itoa i = b @ CHR ''|'' # itoa j" "prefs_text p = prefs_text q" by auto
  moreover from last_split_unique [OF this(1) itoa_no_bar itoa_no_bar] have "a = b" "i = j" by (auto simp: itoa_inj)
  moreover have "p = q" using calculation(2) prefs_text_inj assms(2,3) by blast
  ultimately show ?thesis by simp
qed

lemma expand_product:
  "map ce_ID (Expand hex_of sources targets prefs) =
     map (\<lambda>(s, t, p). hex_of (cell_text (sr_Title s) (tr_TagID t) p)) (List.product sources (List.product targets prefs))"
  by (simp add: Expand_def cell_fingerprint_def product_concat_map map_concat comp_def)

text \<open>Two sources of one title are one source to the manifest.\<close>

lemma same_title_same_cell:
  "cell_fingerprint hex_of (sr_Title s) tag prefs = cell_fingerprint hex_of (sr_Title (s\<lparr>sr_RatingKey := k, sr_Path := f\<rparr>)) tag prefs"
  by simp

text \<open>A smoke run that fails after the preferences were written leaves them.\<close>

lemma smoke_leaves_prefs:
  assumes "pa_setprefs a = None" "pa_snapshot a = None" "pa_trigger a = Some err" "w \<noteq> None"
    and "BackgroundProcessingKey background = Inr key" "se_UUID sec \<noteq> []"
  shows "runSmoke False sec rating target title w background a snap
    = ([OpSetPrefs smoke_prefs, OpTrigger title rating (tr_TagID target)], Fatal (''trigger: '' @ err))"
  using assms by (auto simp: runSmoke_def smoke_calls_def Let_def)

lemma smoke_restores:
  "runSmoke dryRun sec rating target title w background a snap = (ops, Returned) \<Longrightarrow> last ops = OpSetPrefs snap"
  by (auto simp: runSmoke_def split: prod.splits smoke_end.splits)

end
