(* ===== verification/ToolMain.thy ===== *)
theory ToolMain
  imports ToolPlex ToolClips ToolAnalyze ToolSweep
begin

text \<open>
  The subcommands of the corpus generator around the sweep (\<open>src/cmd/optimize-corpus-gen/main.go\<close>, \<open>cmd_common.go\<close>,
  \<open>cmd_library.go\<close>, \<open>cmd_synth.go\<close>) and the report of the analyzer (\<open>cmd_analyze.go\<close>). Flags are arguments: their values
  after parsing. Logs are left out.
\<close>

section \<open>Subcommands\<close>

datatype subcommand = Smoke | Synth | Library | Sweep | Clean | Analyze | Help

datatype start = Exit int | Run subcommand argv

text \<open>\<open>main\<close>: the subcommand with the arguments its flags are parsed from, the name of the program in front.\<close>

definition gen_main :: "argv \<Rightarrow> start" where
  "gen_main args =
     (case args of
        prog # sub # rest \<Rightarrow>
          (let run = (\<lambda>c. Run c ((prog @ '' '' @ sub) # rest))
           in if sub = ''smoke'' then run Smoke else if sub = ''synth'' then run Synth
              else if sub = ''library'' then run Library else if sub = ''sweep'' then run Sweep
              else if sub = ''clean'' then run Clean else if sub = ''analyze'' then run Analyze
              else if sub = ''-h'' \<or> sub = ''--help'' \<or> sub = ''help'' then run Help
              else Exit 2)
      | _ \<Rightarrow> Exit 2)"

record common_flags =
  fl_plexURL :: string
  fl_token :: string

definition resolve :: "env \<Rightarrow> common_flags \<Rightarrow> string + common_flags" where
  "resolve en cf =
     (let token = (if fl_token cf = [] then (case map_of en ''PLEX_TOKEN'' of Some t \<Rightarrow> t | None \<Rightarrow> []) else fl_token cf)
      in if fl_plexURL cf = [] then Inl ''--plex is required''
         else if token = [] then Inl ''--token or $PLEX_TOKEN is required''
         else Inr (cf\<lparr>fl_token := token\<rparr>))"

text \<open>\<open>library\<close>: the section is made or found, scanned, and its items are waited for when a number is expected. A
  time-out of the wait is only logged. The calls before the wait, and the section with the items seen.\<close>

definition runLibrary :: "env \<Rightarrow> common_flags \<Rightarrow> string \<Rightarrow> string \<Rightarrow> nat \<Rightarrow> string + Section list \<Rightarrow> string option \<Rightarrow> string + Section list \<Rightarrow> string option
    \<Rightarrow> ((string + Item list) \<times> bool) list \<Rightarrow> plex_call list \<times> (string + Section \<times> Item list option)" where
  "runLibrary en cf name location expected before created again refreshed polls =
     (case resolve en cf of
        Inl e \<Rightarrow> ([], Inl e)
      | Inr cf' \<Rightarrow>
      if location = [] then ([], Inl ''--location is required'')
      else case CreateOrFindSection name location before created again of
        (calls, Inl e) \<Rightarrow> (calls, Inl (''create-or-find: '' @ e))
      | (calls, Inr sec) \<Rightarrow>
          (calls @ [refresh_call (se_Key sec)],
           case refreshed of
             Some e \<Rightarrow> Inl (''refresh: '' @ e)
           | None \<Rightarrow>
               Inr (sec, if expected = 0 then None
                         else (case wait_items expected polls of Some (Inr items) \<Rightarrow> Some items | _ \<Rightarrow> None))))"

definition runSynth :: "string \<Rightarrow> string \<Rightarrow> string option \<Rightarrow> (Spec \<Rightarrow> bool) \<Rightarrow> (Spec \<Rightarrow> bool) \<Rightarrow> string + string list" where
  "runSynth outDir ffmpegExec listing sidecar runs =
     (if outDir = [] then Inl ''--out-dir is required''
      else case fst (EnsureAll (NewBuilder ffmpegExec outDir) listing sidecar runs DefaultClips) of
        None \<Rightarrow> Inl ''ensure''
      | Some ps \<Rightarrow> Inr ps)"

section \<open>The report of the analyzer\<close>

record cell_titles =
  tp_source :: string
  tp_target :: string
  tp_prefs :: prefset

definition no_titles :: cell_titles where
  "no_titles = \<lparr>tp_source = [], tp_target = [], tp_prefs = []\<rparr>"

text \<open>The captures of a directory: \<open>argv_of\<close> is what a file decodes to, \<open>titles_of\<close> what its sidecar does.\<close>

definition load_captures :: "string \<Rightarrow> (string \<Rightarrow> argv option) \<Rightarrow> (string \<Rightarrow> cell_titles option) \<Rightarrow> (string \<times> bool) list
    \<Rightarrow> (cell_titles \<times> argv) list" where
  "load_captures dir argv_of titles_of entries =
     List.map_filter (\<lambda>e.
       if \<not> is_capture e then None
       else (let p = join_path dir (fst e)
             in case argv_of p of
                  None \<Rightarrow> None
                | Some [] \<Rightarrow> None
                | Some a \<Rightarrow> Some (case titles_of (sidecar_of p) of Some t \<Rightarrow> t | None \<Rightarrow> no_titles, a))) entries"

text \<open>A row of the report: the number of cells, the shape and its representative. Rows are sorted by their
  number; how equal ones are ordered is not specified in Go.\<close>

definition report_rows :: "(cell_titles \<times> argv) list \<Rightarrow> (nat \<times> string \<times> cell_titles) list" where
  "report_rows cs =
     map (\<lambda>(key, b). (length b, key, fst (hd b))) (sort_key (\<lambda>(key, b). - int (length b)) (buckets_of cs))"

definition runAnalyze :: "string \<Rightarrow> (string \<Rightarrow> argv option) \<Rightarrow> (string \<Rightarrow> cell_titles option) \<Rightarrow> (string \<times> bool) list option
    \<Rightarrow> string + (nat \<times> string \<times> cell_titles) list \<times> string" where
  "runAnalyze dir argv_of titles_of entries =
     (case entries of
        None \<Rightarrow> Inl ''read''
      | Some es \<Rightarrow>
          (let cs = load_captures dir argv_of titles_of es
           in if cs = [] then Inl ''no captures found'' else Inr (report_rows cs, variety (length (report_rows cs)))))"

section \<open>Facts\<close>

lemma add_capture_distinct: "distinct (map fst bs) \<Longrightarrow> distinct (map fst (add_capture c bs))"
  by (simp add: add_capture_def Let_def distinct_update)

lemma add_capture_count:
  "distinct (map fst bs) \<Longrightarrow> (\<Sum>(k, b)\<leftarrow>add_capture c bs. length b) = Suc (\<Sum>(k, b)\<leftarrow>bs. length b)"
proof -
  have upd: "distinct (map fst bs) \<Longrightarrow> (\<Sum>(k, b)\<leftarrow>AList.update key ((case map_of bs key of None \<Rightarrow> [] | Some b \<Rightarrow> b) @ [c]) bs. length b)
      = Suc (\<Sum>(k, b)\<leftarrow>bs. length b)" for key
    by (induction bs) (auto simp: map_of_eq_None_iff split: option.split)
  assume "distinct (map fst bs)"
  then show ?thesis unfolding add_capture_def Let_def by (rule upd)
qed

text \<open>Every capture is counted in one row.\<close>

lemma rows_count: "(\<Sum>(n, key, rep)\<leftarrow>report_rows cs. n) = length cs"
proof -
  have f: "distinct (map fst bs) \<Longrightarrow> (\<Sum>(k, b)\<leftarrow>fold add_capture cs bs. length b) = length cs + (\<Sum>(k, b)\<leftarrow>bs. length b)" for bs
  proof (induction cs arbitrary: bs)
    case (Cons c cs)
    then show ?case using add_capture_distinct [of bs c] add_capture_count [of bs c] by simp
  qed simp
  have "(\<Sum>(n, key, rep)\<leftarrow>report_rows cs. n) = (\<Sum>(k, b)\<leftarrow>sort_key (\<lambda>(key, b). - int (length b)) (buckets_of cs). length b)"
    unfolding report_rows_def map_map by (rule arg_cong [of _ _ sum_list], rule map_cong) auto
  also have "\<dots> = sum_mset (mset (map (\<lambda>(k, b). length b) (sort_key (\<lambda>(key, b). - int (length b)) (buckets_of cs))))"
    by (simp only: sum_mset_sum_list)
  also have "\<dots> = sum_mset (mset (map (\<lambda>(k, b). length b) (buckets_of cs)))" by (simp only: mset_map mset_sort)
  also have "\<dots> = (\<Sum>(k, b)\<leftarrow>buckets_of cs. length b)" by (simp only: sum_mset_sum_list)
  also have "\<dots> = length cs" using f [of "[]"] by (simp add: buckets_of_def)
  finally show ?thesis .
qed

text \<open>The token comes from the flag, and from the environment only when the flag is empty.\<close>

lemma resolve_token:
  "resolve en cf = Inr cf' \<Longrightarrow> fl_token cf' \<noteq> [] \<and> (fl_token cf \<noteq> [] \<longrightarrow> cf' = cf)
    \<and> (fl_token cf = [] \<longrightarrow> map_of en ''PLEX_TOKEN'' = Some (fl_token cf'))"
  by (auto simp: resolve_def Let_def split: if_splits option.splits)

text \<open>A section that is there is scanned and returned whatever follows, when the scan is accepted.\<close>

lemma library_again:
  assumes "resolve en cf = Inr cf'" "location \<noteq> []" "find (\<lambda>s. se_Title s = name) secs = Some sec"
  shows "runLibrary en cf name location 0 (Inr secs) created again None polls = ([sections_call, refresh_call (se_Key sec)], Inr (sec, None))"
  using assms existing_section_wins [OF assms(3), of location created again] by (simp add: runLibrary_def)

end
