(* ===== verification/ToolExtract.thy ===== *)
theory ToolExtract
  imports GoUnicode GoRegexp
begin

text \<open>
  The tool that collects captured argument vectors (\<open>src/cmd/argv-extract/main.go\<close>): the parser of quoted
  slices in log lines, the two file formats of a sweep, what is read off a vector, how captures of one
  session are merged, and which files are written. Decoding JSON is an argument.
\<close>

section \<open>Captures\<close>

record CaptureClient =
  cl_Product :: string
  cl_DeviceName :: string
  cl_Platform :: string
  cl_Version :: string
  cl_Username :: string

record CaptureOutcome =
  ex_ExitStatus :: int
  ex_Signal :: string
  ex_DurationMs :: int
  ex_Segments :: int
  ex_EndedAt :: string

text \<open>The fields the tool sets or reads.\<close>

record Capture =
  SessionID :: string
  CaptureSource :: string
  CapturedAt :: string
  WorkerPod :: string
  WorkerHost :: string
  SessionCwd :: string
  Argv :: argv
  Env :: env
  Client :: "CaptureClient option"
  Outcome :: "CaptureOutcome option"
  RewriterApplied :: "bool option"
  RewriterChanges :: "string list"
  RewriterSkipWhy :: string
  OutputFormat :: string
  OutputCodec :: string
  OutputResolution :: string
  SourcePath :: string
  HasInputSeek :: bool
  SeekOffsetSec :: go_float
  HasMapInlineass :: bool
  InputCount :: nat
  SegmentTime :: string
  SegmentStartNum :: string
  SegmentsCreated :: int
  EncodeSpeed :: string
  ExitReason :: string

definition new_capture :: "string \<Rightarrow> string \<Rightarrow> Capture" where
  "new_capture sid src =
     \<lparr>SessionID = sid, CaptureSource = src, CapturedAt = [], WorkerPod = [], WorkerHost = [], SessionCwd = [], Argv = [],
      Env = [], Client = None, Outcome = None, RewriterApplied = None, RewriterChanges = [], RewriterSkipWhy = [],
      OutputFormat = [], OutputCodec = [], OutputResolution = [], SourcePath = [], HasInputSeek = False,
      SeekOffsetSec = 0, HasMapInlineass = False, InputCount = 0, SegmentTime = [], SegmentStartNum = [],
      SegmentsCreated = 0, EncodeSpeed = [], ExitReason = []\<rparr>"

definition sourceWorkerLog :: string where "sourceWorkerLog = ''worker_log''"
definition sourceWorkerNFSJSON :: string where "sourceWorkerNFSJSON = ''worker_nfs_json''"
definition sourcePlexWrapper :: string where "sourcePlexWrapper = ''plex_wrapper_nfs''"

type_synonym captures = "(string \<times> Capture) list"

section \<open>Quoted slices\<close>

text \<open>The text up to the closing quote, and what follows it.\<close>

fun close_quote :: "string \<Rightarrow> (string \<times> string) option" where
  "close_quote [] = None"
| "close_quote [c] = (if c = quote_mark then Some ([], []) else None)"
| "close_quote (c # d # s) =
     (if c = backslash then map_option (\<lambda>(q, u). (c # d # q, u)) (close_quote s)
      else if c = quote_mark then Some ([], d # s)
      else map_option (\<lambda>(q, u). (c # q, u)) (close_quote (d # s)))"

lemma close_quote_shorter: "close_quote s = Some (q, u) \<Longrightarrow> length u < length s"
  by (induction s arbitrary: q u rule: close_quote.induct) (auto split: if_splits)

function parseQuotedSlice :: "string \<Rightarrow> string list" where
  "parseQuotedSlice body =
     (case dropWhile (\<lambda>c. c = CHR '' '') body of
        [] \<Rightarrow> []
      | c # t \<Rightarrow>
          if c \<noteq> quote_mark then []
          else (case close_quote t of
                  None \<Rightarrow> []
                | Some (q, u) \<Rightarrow>
                    (case go_unquote (quote_mark # q @ [quote_mark]) of None \<Rightarrow> [] | Some s \<Rightarrow> [s]) @ parseQuotedSlice u))"
  by pat_completeness auto
termination
proof (relation "measure length")
  fix body c t p q u
  assume "dropWhile (\<lambda>c. c = CHR '' '') body = c # t" "close_quote t = Some p" "(q, u) = p"
  then show "(u, body) \<in> measure length"
    using length_dropWhile_le [of "\<lambda>c. c = CHR '' ''" body] close_quote_shorter [of t q u] by simp
qed simp

declare parseQuotedSlice.simps [simp del]

section \<open>What a vector tells\<close>

definition not_space :: rx where
  "not_space = RSet True (map (\<lambda>c. (c, c)) [CHR 0x09, CHR 0x0A, CHR 0x0C, CHR 0x0D, CHR 0x20])"

definition white :: rx where
  "white = RSet False (map (\<lambda>c. (c, c)) [CHR 0x09, CHR 0x0A, CHR 0x0C, CHR 0x0D, CHR 0x20])"

definition dot :: rx where
  "dot = RSet True [(CHR 0x0A, CHR 0x0A)]"

definition reFilterScale :: rx where
  "reFilterScale = rseq [lit ''scale'', ropt (lit ''_vaapi''), lit ''=w='', RGrp 1 (rplus rdigit), lit '':h='', RGrp 2 (rplus rdigit)]"

text \<open>One turn of the loop over an argument and its successor.\<close>

definition meta_pair :: "string \<times> string \<Rightarrow> Capture \<Rightarrow> Capture" where
  "meta_pair ab c =
     (case ab of (a, b) \<Rightarrow>
        if a = ''-ss''
        then c\<lparr>HasInputSeek := True,
               SeekOffsetSec := (case parse_float b of Some v \<Rightarrow> if SeekOffsetSec c = 0 then v else SeekOffsetSec c
                                 | None \<Rightarrow> SeekOffsetSec c)\<rparr>
        else if a = ''-map_inlineass'' then c\<lparr>HasMapInlineass := True\<rparr>
        else if a = ''-f'' then (if OutputFormat c = [] then c\<lparr>OutputFormat := b\<rparr> else c)
        else if a = ''-segment_time'' then c\<lparr>SegmentTime := b\<rparr>
        else if a = ''-segment_start_number'' then c\<lparr>SegmentStartNum := b\<rparr>
        else c)"

definition meta_source :: "Capture \<Rightarrow> Capture" where
  "meta_source c =
     (case index_of_arg (Argv c) ''-i'' 0 of
        None \<Rightarrow> c
      | Some i \<Rightarrow>
          if i + 1 < length (Argv c)
          then (let c1 = c\<lparr>SourcePath := Argv c ! (i + 1)\<rparr>
                in case index_of_arg (Argv c) ''-codec:0'' (i + 1) of
                     None \<Rightarrow> c1
                   | Some e \<Rightarrow> if e + 1 < length (Argv c) then c1\<lparr>OutputCodec := Argv c ! (e + 1)\<rparr> else c1)
          else c)"

definition meta_scale :: "Capture \<Rightarrow> Capture" where
  "meta_scale c =
     (case find (\<lambda>(a, b). a = ''-filter_complex'' \<and> has_prefix b ''[0:0]'') (zip (Argv c) (tl (Argv c))) of
        None \<Rightarrow> c
      | Some (a, b) \<Rightarrow>
          (case rx_submatch reFilterScale b of
             None \<Rightarrow> c | Some m \<Rightarrow> c\<lparr>OutputResolution := m 1 @ ''x'' @ m 2\<rparr>))"

definition extractStructuralMeta :: "Capture \<Rightarrow> Capture" where
  "extractStructuralMeta c =
     (let c1 = fold meta_pair (zip (Argv c) (tl (Argv c))) c;
          c2 = c1\<lparr>InputCount := InputCount c1 + length (filter (\<lambda>a. a = ''-i'') (Argv c))\<rparr>
      in meta_scale (meta_source c2))"

section \<open>Log lines\<close>

definition rePodPrefix :: rx where
  "rePodPrefix = rseq [RBol, lit ''[pod/'', RGrp 1 (rplus not_space), RLit CHR ''/'', rplus not_space, RLit CHR '']'', rplus white]"

definition reTime :: rx where
  "reTime = rseq [RBol, RGrp 1 (rseq [rdigit, rdigit, rdigit, rdigit, RLit CHR ''/'', rdigit, rdigit, RLit CHR ''/'', rdigit, rdigit,
     RLit CHR '' '', rdigit, rdigit, RLit CHR '':'', rdigit, rdigit, RLit CHR '':'', rdigit, rdigit])]"

text \<open>The patterns behind \<open>session\<close>; the group of the session id is the first.\<close>

definition session_rx :: "rx list \<Rightarrow> rx" where
  "session_rx rs = RSeq (lit ''session '') (rseq (RGrp 1 (rplus not_space) # rs))"

definition reArgv :: rx where
  "reArgv = session_rx [lit '': argv=['', RGrp 2 (RStar dot), RLit CHR '']'', REol]"

definition reRewriter :: rx where
  "reRewriter = session_rx [lit '': rewriter applied: '', RGrp 2 (RStar dot), REol]"

definition reRewriterSkip :: rx where
  "reRewriterSkip = session_rx [lit '': rewriter NOT applied ('', RGrp 2 (RStar (rnone '')'')), RLit CHR '')'']"

definition reExit :: rx where
  "reExit = session_rx [lit '': ffmpeg exit: '', RGrp 2 (RStar (rnone ''='')), lit '' stderr_tail='', RGrp 3 (RStar dot), REol]"

definition reChunkCreate :: rx where
  "reChunkCreate = session_rx [lit '': chunk-renumber raw event op=CREATE name='', RGrp 2 (rplus not_space)]"

definition reSpeed :: rx where
  "reSpeed = rseq [lit ''speed='', RStar white, RGrp 1 (rplus not_space), RLit CHR ''x'']"

definition reSeekOffsetTag :: rx where
  "reSeekOffsetTag = rseq [lit ''seek-offset:captured='',
     RGrp 1 (rplus (RSet False [(CHR ''0'', CHR ''9''), (CHR ''.'', CHR ''.'')])), RLit CHR ''s'']"

definition reMediaSegmentTS :: rx where
  "reMediaSegmentTS = rseq [RBol, lit ''media-'', rplus rdigit, RLit CHR ''.'', RAlt (lit ''ts'') (lit ''m4s''), REol]"

text \<open>\<open>get\<close> of \<open>readStdinLogs\<close>.\<close>

definition get_capture :: "string \<Rightarrow> captures \<Rightarrow> Capture" where
  "get_capture sid cs = (case map_of cs sid of Some c \<Rightarrow> c | None \<Rightarrow> new_capture sid sourceWorkerLog)"

text \<open>The lines of a run of the tool: the vector, the tags of the rewriter, its bail, the exit, a new chunk. Each
  returns the capture it leaves behind.\<close>

definition argv_seen :: "string \<Rightarrow> string \<Rightarrow> (nat \<Rightarrow> string) \<Rightarrow> Capture \<Rightarrow> Capture" where
  "argv_seen pod ts m c =
     (let argv = parseQuotedSlice (m 2)
      in if argv = [] then c
         else extractStructuralMeta
           (c\<lparr>Argv := argv, CapturedAt := (if CapturedAt c = [] then ts else CapturedAt c),
              WorkerPod := (if WorkerPod c = [] then pod else WorkerPod c)\<rparr>))"

definition applied_seen :: "(nat \<Rightarrow> string) \<Rightarrow> Capture \<Rightarrow> Capture" where
  "applied_seen m c =
     (let c1 = c\<lparr>RewriterApplied := Some True, RewriterChanges := map trim_space (split_on (CHR '','') (m 2))\<rparr>
      in case rx_submatch reSeekOffsetTag (m 2) of
           None \<Rightarrow> c1
         | Some mt \<Rightarrow> (case parse_float (mt 1) of None \<Rightarrow> c1 | Some v \<Rightarrow> c1\<lparr>SeekOffsetSec := v\<rparr>))"

definition skip_seen :: "(nat \<Rightarrow> string) \<Rightarrow> Capture \<Rightarrow> Capture" where
  "skip_seen m c = c\<lparr>RewriterApplied := Some False, RewriterSkipWhy := m 2\<rparr>"

definition exit_seen :: "(nat \<Rightarrow> string) \<Rightarrow> Capture \<Rightarrow> Capture" where
  "exit_seen m c =
     (let c1 = c\<lparr>ExitReason := trim_space (m 2)\<rparr>
      in case rx_submatch reSpeed (m 3) of None \<Rightarrow> c1 | Some sm \<Rightarrow> c1\<lparr>EncodeSpeed := sm 1 @ ''x''\<rparr>)"

definition chunk_seen :: "(nat \<Rightarrow> string) \<Rightarrow> Capture \<Rightarrow> Capture" where
  "chunk_seen m c = (if rx_matches reMediaSegmentTS (m 2) then c\<lparr>SegmentsCreated := SegmentsCreated c + 1\<rparr> else c)"

definition pod_prefix :: "string \<Rightarrow> string \<times> string" where
  "pod_prefix line =
     (case rx_find rePodPrefix line of
        None \<Rightarrow> ([], line) | Some (pre, m, rest, caps) \<Rightarrow> (cap caps 1, rest))"

definition line_time :: "string \<Rightarrow> string" where
  "line_time line = (case rx_submatch reTime line of None \<Rightarrow> [] | Some m \<Rightarrow> m 1)"

definition put_capture :: "string \<Rightarrow> (Capture \<Rightarrow> Capture) \<Rightarrow> captures \<Rightarrow> captures" where
  "put_capture sid f cs = AList.update sid (f (get_capture sid cs)) cs"

definition log_capture :: "string \<Rightarrow> captures \<Rightarrow> captures" where
  "log_capture raw cs =
     (case pod_prefix raw of (pod, line) \<Rightarrow>
        case rx_submatch reArgv line of
          Some m \<Rightarrow> put_capture (m 1) (argv_seen pod (line_time line) m) cs
        | None \<Rightarrow>
       (case rx_submatch reRewriter line of
          Some m \<Rightarrow> put_capture (m 1) (applied_seen m) cs
        | None \<Rightarrow>
       (case rx_submatch reRewriterSkip line of
          Some m \<Rightarrow> put_capture (m 1) (skip_seen m) cs
        | None \<Rightarrow>
       (case rx_submatch reExit line of
          Some m \<Rightarrow> put_capture (m 1) (exit_seen m) cs
        | None \<Rightarrow>
       (case rx_submatch reChunkCreate line of
          Some m \<Rightarrow> put_capture (m 1) (chunk_seen m) cs
        | None \<Rightarrow> cs)))))"

definition readStdinLogs :: "string list \<Rightarrow> captures \<Rightarrow> captures" where
  "readStdinLogs lines cs = fold log_capture lines cs"

section \<open>The files of the tee wrapper\<close>

definition parseClientLine :: "string \<Rightarrow> CaptureClient \<Rightarrow> CaptureClient" where
  "parseClientLine kv c =
     (case str_cut kv (CHR ''='') of
        None \<Rightarrow> c
      | Some (k, raw) \<Rightarrow>
          (let v = trim_space raw
           in if v = [] then c
              else if k = ''PRODUCT'' then c\<lparr>cl_Product := v\<rparr>
              else if k = ''DEVICE_NAME'' then c\<lparr>cl_DeviceName := v\<rparr>
              else if k = ''PLATFORM'' then c\<lparr>cl_Platform := v\<rparr>
              else if k = ''VERSION'' then c\<lparr>cl_Version := v\<rparr>
              else if k = ''USERNAME'' then c\<lparr>cl_Username := v\<rparr>
              else c))"

definition no_client :: CaptureClient where
  "no_client = \<lparr>cl_Product = [], cl_DeviceName = [], cl_Platform = [], cl_Version = [], cl_Username = []\<rparr>"

definition outcome_field :: "string \<Rightarrow> CaptureOutcome \<times> bool \<Rightarrow> CaptureOutcome \<times> bool" where
  "outcome_field tok om =
     (case om of (o1, matched) \<Rightarrow>
        case str_cut tok (CHR ''='') of
          None \<Rightarrow> (o1, matched)
        | Some (k, v) \<Rightarrow>
            (let int_field = (\<lambda>f. case atoi v of Some n \<Rightarrow> (f n, True) | None \<Rightarrow> (o1, matched))
             in if k = ''exit_status'' then int_field (\<lambda>n. o1\<lparr>ex_ExitStatus := n\<rparr>)
                else if k = ''signal'' then (o1\<lparr>ex_Signal := v\<rparr>, True)
                else if k = ''duration_ms'' then int_field (\<lambda>n. o1\<lparr>ex_DurationMs := n\<rparr>)
                else if k = ''segments_created'' then int_field (\<lambda>n. o1\<lparr>ex_Segments := n\<rparr>)
                else if k = ''ended_at'' then (o1\<lparr>ex_EndedAt := v\<rparr>, True)
                else (o1, matched)))"

definition parseOutcomeLine :: "string \<Rightarrow> CaptureOutcome option" where
  "parseOutcomeLine s =
     (case fold outcome_field (str_fields s)
        (\<lparr>ex_ExitStatus = 0, ex_Signal = [], ex_DurationMs = 0, ex_Segments = 0, ex_EndedAt = []\<rparr>, False) of
        (o1, matched) \<Rightarrow> if matched then Some o1 else None)"

definition client_tag :: string where "client_tag = ''CLIENT:''"
definition outcome_tag :: string where "outcome_tag = ''OUTCOME:''"

text \<open>The loop over the header lines.\<close>

function header_lines :: "string \<Rightarrow> CaptureClient option \<times> CaptureOutcome option \<Rightarrow>
    string \<times> CaptureClient option \<times> CaptureOutcome option" where
  "header_lines rest co =
     (case str_cut rest (CHR 0x0A) of
        None \<Rightarrow> (rest, co)
      | Some (line, after) \<Rightarrow>
          if has_prefix line client_tag
          then (let cl = (case fst co of Some c \<Rightarrow> c | None \<Rightarrow> no_client)
                in header_lines after (Some (parseClientLine (drop (length client_tag) line) cl), snd co))
          else if has_prefix line outcome_tag
          then header_lines after (fst co, parseOutcomeLine (drop (length outcome_tag) line))
          else (rest, co))"
  by pat_completeness auto
termination
proof (relation "measure (\<lambda>(rest, co). length rest)")
  have len: "length after < length rest" if "str_cut rest (CHR 0x0A) = Some (line, after)" for rest line after
    using that by (cases rest) (auto simp: str_cut_def split: option.splits if_splits)
  show "((after, Some (parseClientLine (drop (length client_tag) line) cl), snd co), rest, co) \<in> measure (\<lambda>(rest, co). length rest)"
    if "str_cut rest (CHR 0x0A) = Some x" "(line, after) = x" for rest co x line after cl
    using len [of rest line after] that by simp
  show "((after, fst co, parseOutcomeLine (drop (length outcome_tag) line)), rest, co) \<in> measure (\<lambda>(rest, co). length rest)"
    if "str_cut rest (CHR 0x0A) = Some x" "(line, after) = x" for rest co x line after
    using len [of rest line after] that by simp
qed simp

declare header_lines.simps [simp del]

text \<open>The outcome as the last line, when the header had none.\<close>

definition footer_line :: "string \<Rightarrow> string \<times> CaptureOutcome option" where
  "footer_line rest =
     (if rest = [] \<or> last rest \<noteq> CHR 0x0A then (rest, None)
      else
        (let body = butlast rest
         in case str_last_index body [CHR 0x0A] of
              Some i \<Rightarrow>
                (let lastLine = drop (i + 1) body
                 in if has_prefix lastLine outcome_tag
                    then (take (i + 1) rest, parseOutcomeLine (drop (length outcome_tag) lastLine)) else (rest, None))
            | None \<Rightarrow>
                if has_prefix body outcome_tag
                then ([], parseOutcomeLine (drop (length outcome_tag) body)) else (rest, None)))"

definition wrapper_args :: "string \<Rightarrow> argv" where
  "wrapper_args rest = filter (\<lambda>a. a \<noteq> []) (map trim_space (split_on (CHR 0x00) rest))"

definition parsePlexWrapper :: "string \<Rightarrow> string \<Rightarrow> Capture option" where
  "parsePlexWrapper body basename =
     (case (case str_cut body (CHR 0x0A) of None \<Rightarrow> ([], body) | Some (l, r) \<Rightarrow> (trim_space l, r)) of (ts, rest0) \<Rightarrow>
      case header_lines rest0 (None, None) of (rest1, client, outcome1) \<Rightarrow>
      case (if outcome1 = None then footer_line rest1 else (rest1, outcome1)) of (rest, outcome) \<Rightarrow>
        (let argv = wrapper_args rest; sid = trim_suffix basename ''.argv''
         in if argv = [] \<or> sid = [] then None
            else
              (let c = extractStructuralMeta ((new_capture sid sourcePlexWrapper)
                     \<lparr>CapturedAt := ts, Argv := argv, Client := client, Outcome := outcome\<rparr>)
               in Some (case outcome of
                          Some o1 \<Rightarrow>
                            if SegmentsCreated c = 0 \<and> 0 < ex_Segments o1 then c\<lparr>SegmentsCreated := ex_Segments o1\<rparr> else c
                        | None \<Rightarrow> c))))"

section \<open>Sweeps\<close>

text \<open>What \<open>json.Unmarshal\<close> finds in a capture of the worker.\<close>

record nfs_capture =
  nf_session :: string
  nf_at :: string
  nf_pod :: string
  nf_host :: string
  nf_cwd :: string
  nf_argv :: argv
  nf_env :: env

definition parseWorkerNFSJSON :: "nfs_capture option \<Rightarrow> Capture option" where
  "parseWorkerNFSJSON decoded =
     (case decoded of
        None \<Rightarrow> None
      | Some s \<Rightarrow>
          if nf_session s = [] \<or> nf_argv s = [] then None
          else Some (extractStructuralMeta ((new_capture (nf_session s) sourceWorkerNFSJSON)
            \<lparr>CapturedAt := nf_at s, WorkerPod := nf_pod s, WorkerHost := nf_host s, SessionCwd := nf_cwd s,
             Argv := nf_argv s, Env := nf_env s\<rparr>)))"

definition readSweepFile :: "(string \<Rightarrow> nfs_capture option) \<Rightarrow> string option \<Rightarrow> string \<Rightarrow> Capture option" where
  "readSweepFile unmarshal content basename =
     (case content of
        None \<Rightarrow> None
      | Some body \<Rightarrow>
          if body = [] then None
          else if hd body = CHR ''{'' then parseWorkerNFSJSON (unmarshal body)
          else parsePlexWrapper body basename)"

definition score :: "Capture \<Rightarrow> nat" where
  "score c = (if RewriterApplied c \<noteq> None then 4 else 0) + (if RewriterChanges c \<noteq> [] then 2 else 0)
     + (if ExitReason c \<noteq> [] then 1 else 0) + (if 0 < SegmentsCreated c then 1 else 0) + (if Env c \<noteq> [] then 1 else 0)"

definition richer :: "Capture \<Rightarrow> Capture \<Rightarrow> bool" where
  "richer a b \<longleftrightarrow> score b < score a"

text \<open>An entry of a directory: its name, whether it is a directory, and what can be read of it.\<close>

definition sweep_entry :: "(string \<Rightarrow> nfs_capture option) \<Rightarrow> string \<times> bool \<times> string option \<Rightarrow> captures \<Rightarrow> captures" where
  "sweep_entry unmarshal ent cs =
     (case ent of (name, isdir, content) \<Rightarrow>
        if isdir \<or> has_prefix name ''.'' then cs
        else (case readSweepFile unmarshal content name of
                None \<Rightarrow> cs
              | Some c \<Rightarrow>
                  (case map_of cs (SessionID c) of
                     Some old \<Rightarrow> if richer old c then cs else AList.update (SessionID c) c cs
                   | None \<Rightarrow> AList.update (SessionID c) c cs)))"

definition readSweepDir :: "(string \<Rightarrow> nfs_capture option) \<Rightarrow> (string \<times> bool \<times> string option) list option \<Rightarrow> captures \<Rightarrow> captures" where
  "readSweepDir unmarshal entries cs = (case entries of None \<Rightarrow> cs | Some es \<Rightarrow> fold (sweep_entry unmarshal) es cs)"

section \<open>The run\<close>

text \<open>The files of the corpus by session; \<open>creates\<close> says which of them can be created. A session that is there
  is left alone.\<close>

definition write_capture :: "(string \<Rightarrow> bool) \<Rightarrow> string \<times> Capture \<Rightarrow> captures \<Rightarrow> captures" where
  "write_capture creates kc corpus =
     (case kc of (sid, c) \<Rightarrow>
        if Argv c = [] \<or> map_of corpus sid \<noteq> None \<or> \<not> creates sid then corpus else corpus @ [(sid, c)])"

definition extract_main ::
    "(string \<Rightarrow> nfs_capture option) \<Rightarrow> (string \<times> bool \<times> string option) list option list \<Rightarrow> string list option
      \<Rightarrow> (string \<Rightarrow> bool) \<Rightarrow> captures \<Rightarrow> captures" where
  "extract_main unmarshal dirs stdin creates corpus =
     (let cs = fold (readSweepDir unmarshal) dirs [];
          cs' = (case stdin of None \<Rightarrow> cs | Some lines \<Rightarrow> readStdinLogs lines cs)
      in fold (write_capture creates) (map (\<lambda>k. (k, the (map_of cs' k))) (sort (map fst cs'))) corpus)"

section \<open>A dumped vector is read back\<close>

text \<open>The line in which the worker (\<open>src/worker/agent/main.go\<close>) and the shim (\<open>src/shim/cmd/shim/main.go\<close>) dump the
  arguments of a session. \<open>pre\<close> is what stands before it: a time stamp, or the name of the shim.\<close>

definition argv_line :: "(nat \<Rightarrow> bool) \<Rightarrow> string \<Rightarrow> string \<Rightarrow> argv \<Rightarrow> string" where
  "argv_line is_print pre sid args = pre @ ''session '' @ sid @ '': argv='' @ quote_slice is_print args"

definition sid_char :: "char \<Rightarrow> bool" where
  "sid_char = in_class True (map (\<lambda>c. (c, c)) [CHR 0x09, CHR 0x0A, CHR 0x0C, CHR 0x0D, CHR 0x20])"

lemma close_quote_plain:
  "list_all (\<lambda>c. c \<noteq> quote_mark \<and> c \<noteq> backslash) x \<Longrightarrow>
    close_quote (x @ t) = map_option (\<lambda>(q, u). (x @ q, u)) (close_quote t)"
proof (induction x)
  case (Cons c x)
  then show ?case by (cases "x @ t"; cases "close_quote t") auto
qed (cases "close_quote t"; auto)

lemma close_quote_escape: "close_quote (backslash # c # t) = map_option (\<lambda>(q, u). (backslash # c # q, u)) (close_quote t)"
  by simp

lemma hex_text_chars: "list_all (\<lambda>c. c \<in> set ''0123456789abcdef'') (hex_text n r)"
proof (induction n arbitrary: r)
  case (Suc n)
  have "''0123456789abcdef'' ! (r mod 16) \<in> set ''0123456789abcdef''" by (rule nth_mem) simp
  with Suc show ?case by (simp add: lower_hex_def)
qed simp

lemma hex_text_plain: "list_all (\<lambda>c. c \<noteq> quote_mark \<and> c \<noteq> backslash \<and> c \<noteq> CHR 0x0A) (hex_text n r)"
  by (rule list.pred_mono_strong [OF hex_text_chars]) (auto simp: quote_mark_def backslash_def)

text \<open>What quoting makes of one rune: plain text, or an escape whose rest is plain.\<close>

definition quoted_piece :: "string \<Rightarrow> bool" where
  "quoted_piece x \<longleftrightarrow> list_all (\<lambda>c. c \<noteq> CHR 0x0A) x
     \<and> (list_all (\<lambda>c. c \<noteq> quote_mark \<and> c \<noteq> backslash) x
        \<or> (\<exists>c y. x = backslash # c # y \<and> list_all (\<lambda>c. c \<noteq> quote_mark \<and> c \<noteq> backslash) y))"

lemma quoted_piece_close:
  "quoted_piece x \<Longrightarrow> close_quote (x @ t) = map_option (\<lambda>(q, u). (x @ q, u)) (close_quote t)"
  by (cases "close_quote t") (auto simp: quoted_piece_def close_quote_plain)

lemma encode_wide: "0x80 \<le> r \<Longrightarrow> valid_rune r \<Longrightarrow> list_all (\<lambda>c. 0x80 \<le> code c) (encode_rune r)"
  by (auto simp: encode_rune_def Let_def valid_rune_def)

lemma hex_piece: "c \<noteq> CHR 0x0A \<Longrightarrow> quoted_piece (backslash # c # hex_text n r)"
  using hex_text_plain [of n r] by (auto simp: quoted_piece_def list_all_iff backslash_def)

lemma escape_piece: "valid_rune r \<Longrightarrow> quoted_piece (escape_rune p r)"
proof (cases "0x80 \<le> r")
  case True
  assume v: "valid_rune r"
  have "quoted_piece (encode_rune r)"
    using encode_wide [OF True v] by (fastforce simp: quoted_piece_def list_all_iff)
  with True show ?thesis using hex_piece by (auto simp: escape_rune_def short_escapes_def)
next
  case False
  have nl: "byte_char r \<noteq> CHR 0x0A" if "0x20 \<le> r" "r < 0x7F"
    using that by (auto dest: arg_cong [of _ _ code])
  show ?thesis
  proof (cases "r = code quote_mark \<or> r = code backslash")
    case True
    then have "escape_rune p r = [backslash, byte_char r]" "byte_char r \<noteq> CHR 0x0A" using nl by (auto simp: escape_rune_def)
    then show ?thesis by (auto simp: quoted_piece_def backslash_def)
  next
    case noq: False
    show ?thesis
    proof (cases "0x20 \<le> r \<and> r < 0x7F")
      case True
      with noq have "escape_rune p r = [byte_char r]" by (simp add: escape_rune_def encode_small)
      moreover have "byte_char r \<noteq> quote_mark" "byte_char r \<noteq> backslash"
        using noq True by (auto dest: arg_cong [of _ _ code])
      ultimately show ?thesis using nl True by (simp add: quoted_piece_def)
    next
      case low: False
      show ?thesis
      proof (cases "find (\<lambda>(c, b). b = r) short_escapes")
        case None
        with noq low False show ?thesis using hex_piece [of "CHR ''x''" 2 r] by (auto simp: escape_rune_def)
      next
        case (Some cb)
        obtain c b where cb: "cb = (c, b)" by (cases cb)
        with Some noq low False have e: "escape_rune p r = [backslash, c]" by (auto simp: escape_rune_def)
        have "map_of short_escapes c = Some r" using short_escapes_find(1) Some cb by blast
        then have "c \<noteq> CHR 0x0A" by (auto simp: short_escapes_def)
        then show ?thesis by (auto simp: e quoted_piece_def backslash_def)
      qed
    qed
  qed
qed

lemma quote_text_close: "close_quote (quote_text p s @ quote_mark # t) = Some (quote_text p s, t)"
  and quote_text_line: "CHR 0x0A \<notin> set (quote_text p s)"
proof -
  have end_mark: "close_quote (quote_mark # t) = Some ([], t)" for t by (cases t) simp_all
  have "close_quote (quote_text p s @ quote_mark # t) = Some (quote_text p s, t) \<and> CHR 0x0A \<notin> set (quote_text p s)"
  proof (induction p s rule: quote_text.induct)
    case (1 p s)
    show ?case
    proof (cases "s = []")
      case True
      then show ?thesis by (simp add: quote_text.simps end_mark)
    next
      case False
      obtain r w where d: "decode_rune s = (r, w)" by (cases "decode_rune s") (simp only: fst_conv)
      have "\<exists>x u. quote_text p s = x @ quote_text p u \<and> quoted_piece x
        \<and> close_quote (quote_text p u @ quote_mark # t) = Some (quote_text p u, t) \<and> CHR 0x0A \<notin> set (quote_text p u)"
      proof (cases "w = 1 \<and> r = rune_error")
        case True
        have "quote_text p s = (backslash # CHR ''x'' # hex_text 2 (code (hd s))) @ quote_text p (tl s)"
          using False d True by (subst quote_text.simps) simp
        with "1.IH"(1) [OF False d [symmetric] True] hex_piece [of "CHR ''x''" 2 "code (hd s)"] show ?thesis by blast
      next
        case nerr: False
        have "quote_text p s = escape_rune p r @ quote_text p (drop w s)"
          using False d nerr by (subst quote_text.simps) (simp only: prod.case if_False)
        moreover have "quoted_piece (escape_rune p r)" using decode_valid [OF d False nerr] escape_piece by blast
        ultimately show ?thesis using "1.IH"(2) [OF False d [symmetric] nerr] by blast
      qed
      then obtain x u where x: "quote_text p s = x @ quote_text p u" "quoted_piece x"
        "close_quote (quote_text p u @ quote_mark # t) = Some (quote_text p u, t)" "CHR 0x0A \<notin> set (quote_text p u)"
        by blast
      from x(2) have "CHR 0x0A \<notin> set x" by (auto simp: quoted_piece_def list_all_iff)
      with x show ?thesis by (simp add: quoted_piece_close)
    qed
  qed
  then show "close_quote (quote_text p s @ quote_mark # t) = Some (quote_text p s, t)"
    and "CHR 0x0A \<notin> set (quote_text p s)" by simp_all
qed

lemma parse_space: "parseQuotedSlice (CHR '' '' # s) = parseQuotedSlice s"
  by (subst (1 2) parseQuotedSlice.simps) simp

lemma parse_quoted: "parseQuotedSlice (go_quote p a @ t) = a # parseQuotedSlice t"
proof -
  have b: "go_quote p a @ t = quote_mark # quote_text p a @ quote_mark # t" by (simp add: go_quote_def)
  have "quote_mark \<noteq> CHR '' ''" by (simp add: quote_mark_def)
  moreover have "go_unquote (quote_mark # quote_text p a @ [quote_mark]) = Some a"
    using unquote_quote [of p a] by (simp add: go_quote_def)
  ultimately show ?thesis
    unfolding b by (subst parseQuotedSlice.simps) (simp add: quote_text_close)
qed

lemma parse_quote_slice: "parseQuotedSlice (join_with '' '' (map (go_quote p) args)) = args"
proof (induction args)
  case (Cons a args)
  show ?case
  proof (cases args)
    case Nil
    have "parseQuotedSlice [] = []" by (subst parseQuotedSlice.simps) simp
    then show ?thesis using parse_quoted [of p a "[]"] Nil by simp
  next
    case (Cons b bs)
    then have "join_with '' '' (map (go_quote p) (a # args)) = go_quote p a @ CHR '' '' # join_with '' '' (map (go_quote p) args)"
      by simp
    then show ?thesis using Cons.IH by (simp only: parse_quoted parse_space)
  qed
qed (subst parseQuotedSlice.simps, simp)

lemma slice_line: "CHR 0x0A \<notin> set (join_with '' '' (map (go_quote p) args))"
proof -
  have "CHR 0x0A \<notin> set (go_quote p a)" for a by (simp add: go_quote_def quote_text_line quote_mark_def)
  then show ?thesis using set_join [of "'' ''" "map (go_quote p) args"] by auto
qed

lemma dot_class: "in_class True [(CHR 0x0A, CHR 0x0A)] c \<longleftrightarrow> c \<noteq> CHR 0x0A"
proof -
  have "code (CHR 0x0A) = 10" by simp
  then have "code c = 10 \<longleftrightarrow> c = CHR 0x0A" by (metis of_char_eq_iff)
  then show ?thesis by (auto simp: in_class_def)
qed

lemma sid_char_facts: "sid_char CHR '':''" "\<not> sid_char CHR '' ''"
  by code_simp+

lemma sid_match:
  assumes "sid \<noteq> []" "list_all sid_char sid"
  shows "\<exists>others. rx_all (RGrp 1 (rplus not_space)) (False, sid @ CHR '':'' # CHR '' '' # s, []) =
    (False, CHR '' '' # s, [(1, sid @ '':'')]) # (False, CHR '':'' # CHR '' '' # s, [(1, sid)]) # others"
proof -
  have "\<exists>others. rx_all (rplus not_space) (False, sid @ CHR '':'' # CHR '' '' # s, []) =
    (False, CHR '' '' # s, []) # (False, CHR '':'' # CHR '' '' # s, []) # others"
    unfolding not_space_def
    by (rule plus_back) (use assms sid_char_facts in \<open>auto simp: list_all_iff sid_char_def\<close>)
  then obtain others where "rx_all (rplus not_space) (False, sid @ CHR '':'' # CHR '' '' # s, []) =
    (False, CHR '' '' # s, []) # (False, CHR '':'' # CHR '' '' # s, []) # others" ..
  from grp_back [OF this, of 1] show ?thesis by blast
qed

lemma argv_match:
  assumes "sid \<noteq> []" "list_all sid_char sid" and "CHR 0x0A \<notin> set body" and "str_index (pre @ ''session '') ''session '' = Some (length pre)"
  shows "\<exists>m. rx_submatch reArgv (pre @ ''session '' @ sid @ '': argv=['' @ body @ '']'') = Some m \<and> m 1 = sid \<and> m 2 = body"
proof -
  let ?tail = "'': argv=['' @ body @ '']''"
  let ?rest = "rseq [lit '': argv=['', RGrp 2 (RStar dot), RLit CHR '']'', REol]"
  obtain others where star: "rx_all (RStar dot) (False, body @ '']'', [(1, sid)]) =
      (False, [], [(1, sid)]) # (False, '']'', [(1, sid)]) # others"
    using star_back [of body True "[(CHR 0x0A, CHR 0x0A)]" "CHR '']''" "[]" "[(1, sid)]"] assms(3)
    unfolding dot_def by (auto simp: dot_class)
  have "prefers (RSeq (RGrp 2 (RStar dot)) (RSeq (RLit CHR '']'') REol)) (False, body @ '']'', [(1, sid)])
      (False, [], [(2, body), (1, sid)])"
    by (rule prefers_seq_back [OF grp_back [OF star]]) (simp_all add: prefers_def)
  then have rest: "prefers ?rest (False, ?tail, [(1, sid)]) (False, [], [(2, body), (1, sid)])"
    using prefers_seq [OF prefers_lit [of "'': argv=[''" False "body @ '']''" "[(1, sid)]"]] by simp
  obtain others' where grp: "rx_all (RGrp 1 (rplus not_space)) (False, sid @ ?tail, []) =
      (False, '' argv=['' @ body @ '']'', [(1, sid @ '':'')]) # (False, ?tail, [(1, sid)]) # others'"
    using sid_match [OF assms(1,2), of "''argv=['' @ body @ '']''"] by auto
  have "rx_all ?rest (False, '' argv=['' @ body @ '']'', [(1, sid @ '':'')]) = []"
    by (simp add: rx_lit has_prefix_def)
  from prefers_seq_back [OF grp this rest]
  have "prefers (RSeq (RGrp 1 (rplus not_space)) ?rest) (False, sid @ ?tail, []) (False, [], [(2, body), (1, sid)])" .
  then have "prefers reArgv (pre = [], ''session '' @ sid @ ?tail, []) (False, [], [(2, body), (1, sid)])"
    unfolding reArgv_def session_rx_def
    using prefers_seq [OF prefers_lit [of "''session ''" "pre = []" "sid @ ?tail" "[]"]] by simp
  then have "rx_here reArgv (pre = []) ((''session '' @ sid @ ?tail) @ []) = Some (''session '' @ sid @ ?tail, [], [(2, body), (1, sid)])"
    by (intro prefers_here) simp
  then have "rx_submatch reArgv (pre @ ''session '' @ sid @ ?tail) = Some (cap [(2, body), (1, sid)])"
    unfolding reArgv_def session_rx_def by (intro submatch_behind [OF assms(4)]) simp
  then show ?thesis by (auto simp: cap_def)
qed

lemma bol_lit: "(b \<longrightarrow> \<not> has_prefix s q) \<Longrightarrow> rx_all (RSeq RBol (RSeq (lit q) r)) (b, s, caps) = []"
  by (auto simp: rx_lit)

lemma no_pod:
  assumes "\<not> has_prefix line ''[pod/''" shows "pod_prefix line = ([], line)"
proof -
  have "rx_all rePodPrefix (b, s, []) = []" if "b \<longrightarrow> \<not> has_prefix s ''[pod/''" for b s
    unfolding rePodPrefix_def rseq.simps by (rule bol_lit) (rule that)
  then have here: "rx_here rePodPrefix b s = None" if "b \<longrightarrow> \<not> has_prefix s ''[pod/''" for b s
    using that by (simp add: rx_here_def)
  have later: "rx_find_from rePodPrefix False s = None" for s by (induction s) (simp_all add: here)
  have "rx_find_from rePodPrefix True line = None"
    using assms by (cases line) (simp_all add: here later)
  then show ?thesis by (simp add: pod_prefix_def rx_find_def)
qed

text \<open>What \<open>readStdinLogs\<close> makes of a dumped vector, whatever was known of the session before.\<close>

lemma dump_read_back:
  assumes "sid \<noteq> []" "list_all sid_char sid" "args \<noteq> []"
    and "str_index (pre @ ''session '') ''session '' = Some (length pre)" "\<not> has_prefix pre ''[pod/''" "5 \<le> length pre"
  shows "\<exists>ts c. map_of (log_capture (argv_line p pre sid args) cs) sid = Some (extractStructuralMeta c)
    \<and> c = (get_capture sid cs)\<lparr>Argv := args, CapturedAt := (if CapturedAt (get_capture sid cs) = [] then ts else CapturedAt (get_capture sid cs)),
        WorkerPod := (if WorkerPod (get_capture sid cs) = [] then [] else WorkerPod (get_capture sid cs))\<rparr>"
proof -
  let ?b = "join_with '' '' (map (go_quote p) args)" and ?l = "argv_line p pre sid args"
  have l: "?l = pre @ ''session '' @ sid @ '': argv=['' @ ?b @ '']''" by (simp add: argv_line_def quote_slice_def)
  obtain m where m: "rx_submatch reArgv ?l = Some m" "m 1 = sid" "m 2 = ?b"
    using argv_match [OF assms(1,2) slice_line assms(4)] unfolding l by blast
  have "\<not> has_prefix ?l ''[pod/''" using assms(5,6) by (simp add: argv_line_def has_prefix_def)
  then have "pod_prefix ?l = ([], ?l)" by (rule no_pod)
  with m assms(3) show ?thesis
    by (auto simp: log_capture_def put_capture_def argv_seen_def parse_quote_slice update_conv')
qed

section \<open>What the structural pass leaves alone\<close>

lemma meta_pair_keeps [simp]:
  "Argv (meta_pair ab c) = Argv c" "Client (meta_pair ab c) = Client c" "Outcome (meta_pair ab c) = Outcome c"
  "SessionID (meta_pair ab c) = SessionID c" "InputCount (meta_pair ab c) = InputCount c"
  "SegmentsCreated (meta_pair ab c) = SegmentsCreated c"
  by (simp_all add: meta_pair_def split: prod.split)

lemma fold_meta_keeps [simp]:
  "Argv (fold meta_pair ps c) = Argv c" "Client (fold meta_pair ps c) = Client c" "Outcome (fold meta_pair ps c) = Outcome c"
  "SessionID (fold meta_pair ps c) = SessionID c" "InputCount (fold meta_pair ps c) = InputCount c"
  "SegmentsCreated (fold meta_pair ps c) = SegmentsCreated c"
  by (induction ps arbitrary: c) simp_all

lemma meta_source_keeps [simp]:
  "Argv (meta_source c) = Argv c" "Client (meta_source c) = Client c" "Outcome (meta_source c) = Outcome c"
  "SessionID (meta_source c) = SessionID c" "InputCount (meta_source c) = InputCount c"
  "SegmentsCreated (meta_source c) = SegmentsCreated c"
  by (simp_all add: meta_source_def Let_def split: option.split)

lemma meta_scale_keeps [simp]:
  "Argv (meta_scale c) = Argv c" "Client (meta_scale c) = Client c" "Outcome (meta_scale c) = Outcome c"
  "SessionID (meta_scale c) = SessionID c" "InputCount (meta_scale c) = InputCount c"
  "SegmentsCreated (meta_scale c) = SegmentsCreated c"
  by (simp_all add: meta_scale_def split: option.split prod.split)

lemma meta_keeps [simp]:
  "Argv (extractStructuralMeta c) = Argv c" "Client (extractStructuralMeta c) = Client c"
  "Outcome (extractStructuralMeta c) = Outcome c" "SessionID (extractStructuralMeta c) = SessionID c"
  "SegmentsCreated (extractStructuralMeta c) = SegmentsCreated c"
  by (simp_all add: extractStructuralMeta_def Let_def)

text \<open>The number of inputs is added up, not set: a vector that is seen twice, in a sweep and in the log or
  in two log lines, is counted twice.\<close>

lemma inputs_counted_again:
  "InputCount (extractStructuralMeta c) = InputCount c + length (filter (\<lambda>a. a = ''-i'') (Argv c))"
  by (simp add: extractStructuralMeta_def Let_def)

section \<open>A wrapper file is read back\<close>

definition wrapper_file :: "string \<Rightarrow> string list \<Rightarrow> argv \<Rightarrow> string option \<Rightarrow> string" where
  "wrapper_file ts clients args foot =
     ts @ ''\<newline>'' @ concat (map (\<lambda>kv. client_tag @ kv @ ''\<newline>'') clients) @ concat (map (\<lambda>a. a @ [CHR 0x00]) args)
     @ (case foot of None \<Rightarrow> [] | Some o1 \<Rightarrow> ''\<newline>'' @ outcome_tag @ o1 @ ''\<newline>'')"

abbreviation one_line :: "string \<Rightarrow> bool" where
  "one_line s \<equiv> list_all (\<lambda>c. c \<noteq> CHR 0x0A) s"

lemma str_cut_line: "one_line l \<Longrightarrow> str_cut (l @ CHR 0x0A # r) (CHR 0x0A) = Some (l, r)"
proof -
  assume l: "one_line l"
  have "index_byte (l @ CHR 0x0A # r) (\<lambda>c. c = CHR 0x0A) = Some (length l)" using l by (induction l) auto
  then show ?thesis by (simp add: str_cut_def)
qed

lemma str_cut_prefix: "str_cut s d = Some (l, r) \<Longrightarrow> \<exists>t. s = l @ t"
  by (auto simp: str_cut_def split: option.splits) (metis append_take_drop_id)

lemma header_lines_stop:
  assumes "\<not> has_prefix rest client_tag" "\<not> has_prefix rest outcome_tag"
  shows "header_lines rest co = (rest, co)"
proof (cases "str_cut rest (CHR 0x0A)")
  case (Some lr)
  obtain l r where lr: "lr = (l, r)" by (cases lr)
  from Some lr obtain t where t: "rest = l @ t" using str_cut_prefix by blast
  have "\<not> has_prefix l client_tag" "\<not> has_prefix l outcome_tag" using assms by (auto simp: has_prefix_iff t)
  with Some lr show ?thesis by (subst header_lines.simps) simp
qed (subst header_lines.simps, simp)

lemma header_lines_clients:
  assumes "list_all one_line clients"
  shows "header_lines (concat (map (\<lambda>kv. client_tag @ kv @ ''\<newline>'') clients) @ rest) (cl, o1) =
    header_lines rest (if clients = [] then cl
      else Some (fold parseClientLine clients (case cl of Some c \<Rightarrow> c | None \<Rightarrow> no_client)), o1)"
  using assms
proof (induction clients arbitrary: cl)
  case (Cons kv clients)
  let ?rest = "concat (map (\<lambda>kv. client_tag @ kv @ ''\<newline>'') clients) @ rest"
  have "one_line (client_tag @ kv)" using Cons.prems by (simp add: client_tag_def)
  then have "str_cut (client_tag @ kv @ CHR 0x0A # ?rest) (CHR 0x0A) = Some (client_tag @ kv, ?rest)"
    using str_cut_line [of "client_tag @ kv" ?rest] by simp
  then have "header_lines (client_tag @ kv @ CHR 0x0A # ?rest) (cl, o1) =
      header_lines ?rest (Some (parseClientLine kv (case cl of Some c \<Rightarrow> c | None \<Rightarrow> no_client)), o1)"
    by (subst header_lines.simps) simp
  with Cons show ?case by simp
qed simp

lemma str_last_index_tail: "d \<notin> set u \<Longrightarrow> str_last_index (s @ d # u) [d] = Some (length s)"
proof -
  assume u: "d \<notin> set u"
  then have "str_last_index u [d] = None" by (induction u) (auto simp: has_prefix_def)
  then show ?thesis by (induction s) (simp_all add: has_prefix_def)
qed

lemma nul_join: "concat (map (\<lambda>a. a @ [d]) args) @ t = join_with [d] (args @ [t])"
  by (induction args rule: induct_list012) simp_all

lemma nul_last: "args \<noteq> [] \<Longrightarrow> concat (map (\<lambda>a. a @ [d]) args) \<noteq> [] \<and> last (concat (map (\<lambda>a. a @ [d]) args)) = d"
  by (induction args rule: induct_list012) simp_all

definition wrapper_arg :: "string \<Rightarrow> bool" where
  "wrapper_arg a \<longleftrightarrow> a \<noteq> [] \<and> code (hd a) < 0x80 \<and> code (last a) < 0x80 \<and> trim_space a = a \<and> CHR 0x00 \<notin> set a"

lemma wrapper_args_join:
  assumes "list_all wrapper_arg args" "trim_space t = []" "CHR 0x00 \<notin> set t"
  shows "wrapper_args (concat (map (\<lambda>a. a @ [CHR 0x00]) args) @ t) = args"
proof -
  have s: "split_on (CHR 0x00) (join_with [CHR 0x00] (args @ [t])) = args @ [t]"
    using assms by (intro split_on_join) (auto simp: list_all_iff wrapper_arg_def)
  have "filter (\<lambda>a. a \<noteq> []) (map trim_space args) = args"
    using assms(1) by (induction args) (auto simp: wrapper_arg_def)
  then show ?thesis unfolding wrapper_args_def nul_join s using assms(2) by simp
qed

lemma not_tagged:
  assumes "\<not> has_prefix a tag" "CHR 0x00 \<notin> set tag"
  shows "\<not> has_prefix (a @ CHR 0x00 # t) tag"
proof
  assume "has_prefix (a @ CHR 0x00 # t) tag"
  then obtain u where "a @ CHR 0x00 # t = tag @ u" by (auto simp: has_prefix_iff)
  then consider v where "a = tag @ v" | v where "tag = a @ v" "CHR 0x00 # t = v @ u" by (auto simp: append_eq_append_conv2)
  then show False
  proof cases
    case 2
    then have "v = [] \<or> CHR 0x00 \<in> set tag" by (cases v) auto
    then show False using assms 2 by (auto simp: has_prefix_iff)
  qed (use assms in \<open>auto simp: has_prefix_iff\<close>)
qed

lemma wrapper_read_back:
  assumes "one_line ts" "list_all one_line clients" "args \<noteq> []" "list_all wrapper_arg args"
    and "\<not> has_prefix (hd args) client_tag" "\<not> has_prefix (hd args) outcome_tag"
    and "case foot of None \<Rightarrow> True | Some o1 \<Rightarrow> one_line o1" and "sid \<noteq> []"
  shows "\<exists>c. parsePlexWrapper (wrapper_file ts clients args foot) (sid @ ''.argv'') = Some c
    \<and> SessionID c = sid \<and> Argv c = args
    \<and> Client c = (if clients = [] then None else Some (fold parseClientLine clients no_client))
    \<and> Outcome c = (case foot of None \<Rightarrow> None | Some o1 \<Rightarrow> parseOutcomeLine o1)"
proof -
  let ?nul = "concat (map (\<lambda>a. a @ [CHR 0x00]) args)"
  let ?foot = "case foot of None \<Rightarrow> [] | Some o1 \<Rightarrow> ''\<newline>'' @ outcome_tag @ o1 @ ''\<newline>''"
  let ?cl = "if clients = [] then None else Some (fold parseClientLine clients no_client)"
  have tags: "CHR 0x00 \<notin> set client_tag" "CHR 0x00 \<notin> set outcome_tag" "CHR 0x0A \<notin> set outcome_tag"
    by (simp_all add: client_tag_def outcome_tag_def)
  obtain a as where as: "args = a # as" using assms(3) by (cases args) auto
  then have stop: "header_lines (?nul @ ?foot) co = (?nul @ ?foot, co)" for co
    using assms(5,6) not_tagged tags by (intro header_lines_stop) simp_all
  have cut: "str_cut (wrapper_file ts clients args foot) (CHR 0x0A) =
      Some (ts, concat (map (\<lambda>kv. client_tag @ kv @ ''\<newline>'') clients) @ ?nul @ ?foot)"
    using str_cut_line [OF assms(1)] by (simp add: wrapper_file_def)
  have head: "header_lines (concat (map (\<lambda>kv. client_tag @ kv @ ''\<newline>'') clients) @ ?nul @ ?foot) (None, None) = (?nul @ ?foot, ?cl, None)"
    by (simp add: header_lines_clients [OF assms(2)] stop)
  have ne: "?nul \<noteq> []" "last ?nul = CHR 0x00" using nul_last [OF assms(3), of "CHR 0x00"] by simp_all
  have foot: "\<exists>t. footer_line (?nul @ ?foot) = (?nul @ t, case foot of None \<Rightarrow> None | Some o1 \<Rightarrow> parseOutcomeLine o1)
      \<and> trim_space t = [] \<and> CHR 0x00 \<notin> set t"
  proof (cases foot)
    case None
    have "trim_space [] = []" by (simp add: trim_space_def trim_right_def)
    with None ne show ?thesis by (simp add: footer_line_def)
  next
    case (Some o1)
    let ?line = "outcome_tag @ o1"
    have o1: "CHR 0x0A \<notin> set ?line" using assms(7) Some tags by (auto simp: list_all_iff)
    have b: "butlast (?nul @ ''\<newline>'' @ ?line @ ''\<newline>'') = ?nul @ CHR 0x0A # ?line"
      by (simp add: butlast_append)
    have "str_last_index (?nul @ CHR 0x0A # ?line) [CHR 0x0A] = Some (length ?nul)"
      by (rule str_last_index_tail [OF o1])
    then have "footer_line (?nul @ ''\<newline>'' @ ?line @ ''\<newline>'') = (?nul @ ''\<newline>'', parseOutcomeLine o1)"
      unfolding footer_line_def b by simp
    moreover have "trim_space ''\<newline>'' = []" by code_simp
    ultimately show ?thesis using Some by (intro exI [of _ "''\<newline>''"]) simp
  qed
  then obtain t where t: "footer_line (?nul @ ?foot) = (?nul @ t, case foot of None \<Rightarrow> None | Some o1 \<Rightarrow> parseOutcomeLine o1)"
    "trim_space t = []" "CHR 0x00 \<notin> set t" by blast
  have sid: "trim_suffix (sid @ ''.argv'') ''.argv'' = sid" by (simp add: trim_suffix_def has_suffix_def)
  show ?thesis
    unfolding parsePlexWrapper_def cut option.case prod.case head if_P [OF refl] t(1)
    using wrapper_args_join [OF assms(4) t(2,3)] assms(3,8)
    by (simp add: sid Let_def new_capture_def split: option.split)
qed

end
