(* ===== verification/ToolSynthesize.thy ===== *)
theory ToolSynthesize
  imports GoPrelude
begin

text \<open>
  The generator of synthetic corpus cells (\<open>src/cmd/corpus-synthesize\<close>): the axis matrix and the token
  rewrites that turn one captured argument vector into a cell per point of the matrix.
\<close>

section \<open>Cells and shapes\<close>

record synth_cell =
  sc_SessionID :: string
  sc_CaptureSource :: string
  sc_Argv :: argv
  sc_Env :: env
  sc_SourcePath :: string
  sc_HasMapInlineass :: bool
  sc_Synthesized :: bool

record Shape =
  StreamSpec :: string
  DecodeCodec :: string
  EncodeCodec :: string

definition sig :: "Shape \<Rightarrow> string" where
  "sig s = DecodeCodec s @ ''__'' @ EncodeCodec s @ ''__'' @ StreamSpec s @ ''__dash-extsrt''"

definition DefaultShapes :: "Shape list" where
  "DefaultShapes = concat (map (\<lambda>spec. concat (map (\<lambda>dec.
     map (\<lambda>enc. \<lparr>StreamSpec = spec, DecodeCodec = dec, EncodeCodec = enc\<rparr>) [''hevc_vaapi'', ''h264_vaapi''])
     [''av1'', ''hevc''])) [''ordinal'', ''hex''])"

definition hexVideoSpecPrefixes :: "string list" where
  "hexVideoSpecPrefixes = [''-codec:'', ''-hwaccel:'', ''-hwaccel_output_format:'', ''-hwaccel_device:'']"

section \<open>The rewrites\<close>

text \<open>Indices, \<open>None\<close> for -1.\<close>

definition firstCodecValueIdx :: "argv \<Rightarrow> nat \<Rightarrow> nat option" where
  "firstCodecValueIdx argv limit =
     map_option Suc (find (\<lambda>i. has_prefix (argv ! i) ''-codec:'') [0..<limit - 1])"

definition tokenIdxAfter :: "argv \<Rightarrow> nat \<Rightarrow> string \<Rightarrow> nat option" where
  "tokenIdxAfter argv after tok = index_of_arg argv tok (after + 1)"

definition set_decode :: "string \<Rightarrow> nat \<Rightarrow> argv \<Rightarrow> string + argv" where
  "set_decode dec i argv =
     (if dec = ''av1'' then Inr argv
      else (case firstCodecValueIdx argv i of
              None \<Rightarrow> Inl ''base argv: no decode -codec before -i''
            | Some d \<Rightarrow>
                if argv ! d \<noteq> ''av1'' then Inl ''base decode codec, expected av1 (template drift)''
                else Inr (argv[d := dec])))"

definition set_encode :: "string \<Rightarrow> nat \<Rightarrow> argv \<Rightarrow> string + argv" where
  "set_encode enc i argv =
     (if enc = ''hevc_vaapi'' then Inr argv
      else (case tokenIdxAfter argv i ''hevc_vaapi'' of
              None \<Rightarrow> Inl ''base argv: no hevc_vaapi encoder after -i''
            | Some e \<Rightarrow> Inr (argv[e := enc])))"

definition hex_spec :: "string \<Rightarrow> string" where
  "hex_spec a = (case find (\<lambda>p. a = p @ ''0'') hexVideoSpecPrefixes of None \<Rightarrow> a | Some p \<Rightarrow> p @ ''#0x01'')"

definition set_spec :: "string \<Rightarrow> nat \<Rightarrow> argv \<Rightarrow> string + argv" where
  "set_spec spec i argv =
     (if spec \<noteq> ''hex'' then Inr argv
      else if \<not> (\<exists>a\<in>set (take i argv). hex_spec a \<noteq> a)
      then Inl ''base argv: no decode-side :0 specs to hex-flip (template drift)''
      else Inr (map hex_spec (take i argv) @ drop i argv))"

definition build :: "synth_cell \<Rightarrow> Shape \<Rightarrow> string + synth_cell" where
  "build base s =
     (case index_of_arg (sc_Argv base) ''-i'' 0 of
        None \<Rightarrow> Inl ''base argv has no -i''
      | Some i \<Rightarrow>
          (case set_decode (DecodeCodec s) i (sc_Argv base) of
             Inl e \<Rightarrow> Inl e
           | Inr a1 \<Rightarrow>
               (case set_encode (EncodeCodec s) i a1 of
                  Inl e \<Rightarrow> Inl e
                | Inr a2 \<Rightarrow>
                    (case set_spec (StreamSpec s) i a2 of
                       Inl e \<Rightarrow> Inl e
                     | Inr a3 \<Rightarrow>
                         Inr \<lparr>sc_SessionID = ''synth__'' @ sig s, sc_CaptureSource = ''synthesized'', sc_Argv = a3,
                           sc_Env = [], sc_SourcePath = sc_SourcePath base, sc_HasMapInlineass = True, sc_Synthesized = True\<rparr>))))"

text \<open>The run: the files that are written, or the first error.\<close>

fun synth_cells :: "synth_cell \<Rightarrow> Shape list \<Rightarrow> (string \<times> synth_cell) list \<Rightarrow> string + (string \<times> synth_cell) list" where
  "synth_cells base [] out = Inr out"
| "synth_cells base (s # ss) out =
     (case build base s of
        Inl e \<Rightarrow> Inl e
      | Inr c \<Rightarrow> synth_cells base ss (AList.update (sc_SessionID c @ ''.json'') c out))"

section \<open>Facts\<close>

text \<open>The eight cells go to eight files.\<close>

lemma shapes_distinct: "length DefaultShapes = 8 \<and> distinct (map sig DefaultShapes)"
  by code_simp

lemma set_decode_ok:
  assumes "set_decode dec i argv = Inr a" "i < length argv"
  shows "length a = length argv \<and> drop i a = drop i argv
    \<and> (a = argv \<or> (\<exists>d. Suc d < i \<and> has_prefix (argv ! d) ''-codec:'' \<and> argv ! Suc d = ''av1'' \<and> a = argv[Suc d := dec]))"
proof (cases "dec = ''av1''")
  case False
  with assms(1) obtain d where d: "find (\<lambda>i. has_prefix (argv ! i) ''-codec:'') [0..<i - 1] = Some d"
    and a: "argv ! Suc d = ''av1''" "a = argv[Suc d := dec]"
    by (auto simp: set_decode_def firstCodecValueIdx_def split: option.splits if_splits)
  from d have "has_prefix (argv ! d) ''-codec:''" "Suc d < i" by (auto simp: find_Some_iff)
  with a have "\<exists>d. Suc d < i \<and> has_prefix (argv ! d) ''-codec:'' \<and> argv ! Suc d = ''av1'' \<and> a = argv[Suc d := dec]"
    by blast
  with a(2) \<open>Suc d < i\<close> show ?thesis by simp
qed (use assms in \<open>simp add: set_decode_def\<close>)

lemma hex_spec_idle: "find (\<lambda>p. a = p @ ''0'') hexVideoSpecPrefixes = None \<Longrightarrow> hex_spec a = a"
  by (simp add: hex_spec_def)

lemma set_encode_ok:
  assumes "set_encode enc i argv = Inr a"
  shows "length a = length argv \<and> take i a = take i argv
    \<and> (a = argv \<or> (\<exists>e. i < e \<and> e < length argv \<and> argv ! e = ''hevc_vaapi'' \<and> a = argv[e := enc]))"
proof (cases "enc = ''hevc_vaapi''")
  case False
  with assms obtain e where e: "index_of_arg argv ''hevc_vaapi'' (i + 1) = Some e" and a: "a = argv[e := enc]"
    by (auto simp: set_encode_def tokenIdxAfter_def split: option.splits)
  from index_of_arg_Some [OF e] have k: "i < e" "e < length argv" "argv ! e = ''hevc_vaapi''" by auto
  with a have "\<exists>e. i < e \<and> e < length argv \<and> argv ! e = ''hevc_vaapi'' \<and> a = argv[e := enc]" by blast
  with a k(1) show ?thesis by simp
qed (use assms in \<open>simp add: set_encode_def\<close>)

lemma set_spec_ok:
  "set_spec spec i argv = Inr a \<Longrightarrow> i \<le> length argv \<Longrightarrow> length a = length argv \<and> drop i a = drop i argv
    \<and> take i a = (if spec = ''hex'' then map hex_spec (take i argv) else take i argv)"
  by (auto simp: set_spec_def split: if_splits)

text \<open>A cell is the base with the axis values put in: behind the input only the encoder changes, in front of it
  only the decoder and the stream specifiers.\<close>

lemma build_transforms:
  assumes "build base s = Inr c" "index_of_arg (sc_Argv base) ''-i'' 0 = Some i"
  shows "length (sc_Argv c) = length (sc_Argv base)
    \<and> (drop i (sc_Argv c) = drop i (sc_Argv base)
       \<or> (\<exists>e. i < e \<and> e < length (sc_Argv base) \<and> sc_Argv base ! e = ''hevc_vaapi''
            \<and> drop i (sc_Argv c) = drop i ((sc_Argv base)[e := EncodeCodec s])))
    \<and> (\<exists>hd. (hd = take i (sc_Argv base)
         \<or> (\<exists>d. Suc d < i \<and> has_prefix (sc_Argv base ! d) ''-codec:'' \<and> sc_Argv base ! Suc d = ''av1''
              \<and> hd = take i ((sc_Argv base)[Suc d := DecodeCodec s])))
        \<and> take i (sc_Argv c) = (if StreamSpec s = ''hex'' then map hex_spec hd else hd))"
proof -
  from assms obtain a1 a2 a3 where a: "set_decode (DecodeCodec s) i (sc_Argv base) = Inr a1"
    "set_encode (EncodeCodec s) i a1 = Inr a2" "set_spec (StreamSpec s) i a2 = Inr a3" "sc_Argv c = a3"
    by (auto simp: build_def split: sum.splits)
  have i: "i < length (sc_Argv base)" using index_of_arg_Some [OF assms(2)] by simp
  note d = set_decode_ok [OF a(1) i] and e = set_encode_ok [OF a(2)] 
  have "i \<le> length a2" using i d e by simp
  note sp = set_spec_ok [OF a(3) this]
  have e2: "drop i a2 = drop i (sc_Argv base) \<or> (\<exists>e. i < e \<and> e < length (sc_Argv base) \<and> sc_Argv base ! e = ''hevc_vaapi''
      \<and> drop i a2 = drop i ((sc_Argv base)[e := EncodeCodec s]))"
  proof (cases "a2 = a1")
    case False
    with e obtain k where k: "i < k" "k < length a1" "a1 ! k = ''hevc_vaapi''" "a2 = a1[k := EncodeCodec s]" by auto
    have "a1 ! k = sc_Argv base ! k" using d k(1) by (metis le_add_diff_inverse less_imp_le_nat nth_drop i)
    moreover have "drop i a2 = drop i ((sc_Argv base)[k := EncodeCodec s])" using d k by (simp add: drop_update_swap)
    ultimately show ?thesis using k d by auto
  qed (use d in simp)
  have hd: "take i a2 = take i (sc_Argv base) \<or> (\<exists>d. Suc d < i \<and> has_prefix (sc_Argv base ! d) ''-codec:''
      \<and> sc_Argv base ! Suc d = ''av1'' \<and> take i a2 = take i ((sc_Argv base)[Suc d := DecodeCodec s]))"
    using d e by auto
  show ?thesis using d e sp e2 hd by (auto simp: a(4))
qed

end
