(* ===== verification/ToolProps.thy ===== *)
theory ToolProps
  imports ToolExtract ToolSynthesize ToolClips ToolAnalyze ToolSweep
begin

text \<open>
  The properties of the tools under \<open>src/cmd\<close>: what the extractor reads back from the logs and from the files of
  the tee wrapper, and what a sweep of the corpus generator does over several sessions.
\<close>

section \<open>The extractor\<close>

lemma write_capture_lookup: "map_of corpus sid = Some c \<Longrightarrow> map_of (fold (write_capture creates) kcs corpus) sid = Some c"
  by (induction kcs arbitrary: corpus) (auto simp: write_capture_def map_add_def)

lemma write_new_capture:
  "map_of corpus sid = None \<Longrightarrow> \<forall>kc\<in>set kcs. fst kc = sid \<longrightarrow> snd kc = c \<Longrightarrow> sid \<in> fst ` set kcs \<Longrightarrow> Argv c \<noteq> [] \<Longrightarrow> creates sid
    \<Longrightarrow> map_of (fold (write_capture creates) kcs corpus) sid = Some c"
proof (induction kcs arbitrary: corpus)
  case (Cons kc kcs)
  show ?case
  proof (cases "fst kc = sid")
    case True
    then have "map_of (write_capture creates kc corpus) sid = Some c"
      using Cons.prems by (cases kc) (simp add: write_capture_def map_add_def)
    then show ?thesis by (simp add: write_capture_lookup)
  next
    case False
    then have "map_of (write_capture creates kc corpus) sid = None"
      using Cons.prems(1) by (cases kc) (auto simp: write_capture_def map_add_def)
    with Cons False show ?thesis by auto
  qed
qed simp

lemma extract_writes:
  assumes "map_of (case stdin of None \<Rightarrow> fold (readSweepDir unmarshal) dirs [] | Some lines \<Rightarrow>
      readStdinLogs lines (fold (readSweepDir unmarshal) dirs [])) sid = Some c"
    and "Argv c \<noteq> []" "creates sid" "map_of corpus sid = None"
  shows "map_of (extract_main unmarshal dirs stdin creates corpus) sid = Some c"
proof -
  let ?cs = "case stdin of None \<Rightarrow> fold (readSweepDir unmarshal) dirs [] | Some lines \<Rightarrow>
      readStdinLogs lines (fold (readSweepDir unmarshal) dirs [])"
  have "sid \<in> fst ` set ?cs" using map_of_SomeD [OF assms(1)] by (rule rev_image_eqI) simp
  then show ?thesis unfolding extract_main_def Let_def
    using assms by (intro write_new_capture) (auto simp: image_image)
qed

text \<open>
  C27. An argument vector survives the log. The line in which the worker or the shim dumps the arguments of
  a session, quoted by Go's \<open>%q\<close>, makes the extractor write a corpus file with exactly these arguments, whatever
  bytes they hold and whatever the log and the swept directories said of the session before, unless the corpus has
  the session already.
\<close>

theorem dumped_vector_reaches_corpus:
  assumes "sid \<noteq> []" "list_all sid_char sid" "args \<noteq> []"
    and "str_index (pre @ ''session '') ''session '' = Some (length pre)" "\<not> has_prefix pre ''[pod/''" "5 \<le> length pre"
    and "creates sid" "map_of corpus sid = None"
  shows "\<exists>c. map_of (extract_main unmarshal dirs (Some (earlier @ [argv_line is_print pre sid args])) creates corpus) sid = Some c
    \<and> Argv c = args"
proof -
  let ?cs = "readStdinLogs earlier (fold (readSweepDir unmarshal) dirs [])"
  obtain c where c: "map_of (log_capture (argv_line is_print pre sid args) ?cs) sid = Some c" "Argv c = args"
    using dump_read_back [OF assms(1-6), of is_print ?cs] by auto
  then show ?thesis using assms(3,7,8) by (intro exI [of _ c] conjI extract_writes) (simp_all add: readStdinLogs_def)
qed

definition log_pre :: string where
  "log_pre = ''2026/05/09 20:22:58 ''"

theorem dumped_vector_reaches_corpus_witness:
  "\<exists>c. map_of (extract_main (\<lambda>b. None) [] (Some [argv_line (\<lambda>r. True) log_pre ''ab-1'' [''-i'', ''a b'', [CHR 0x22, CHR 0x0A, CHR 0xFF]]]) (\<lambda>s. True) []) ''ab-1''
      = Some c \<and> Argv c = [''-i'', ''a b'', [CHR 0x22, CHR 0x0A, CHR 0xFF]]"
proof -
  have a: "''ab-1'' \<noteq> []" "list_all sid_char ''ab-1''" "[''-i'', ''a b'', [CHR 0x22, CHR 0x0A, CHR 0xFF]] \<noteq> []"
    "str_index (log_pre @ ''session '') ''session '' = Some (length log_pre)" "\<not> has_prefix log_pre ''[pod/''" "5 \<le> length log_pre"
    by code_simp+
  show ?thesis
    using dumped_vector_reaches_corpus [OF a, of "\<lambda>s. True" "[]" "\<lambda>b. None" "[]" "[]" "\<lambda>r. True"] by simp
qed

text \<open>
  A file of the tee wrapper is read back: the arguments (each as a NUL-terminated field), the client
  lines of the header and the outcome that is written as the last line, for arguments without blanks at their ends,
  and a first argument that does not look like a header line.
\<close>

theorem wrapper_file_read_back:
  assumes "list_all (\<lambda>c. c \<noteq> CHR 0x0A) ts" "list_all (list_all (\<lambda>c. c \<noteq> CHR 0x0A)) clients"
    and "args \<noteq> []" "list_all wrapper_arg args"
    and "\<not> has_prefix (hd args) client_tag" "\<not> has_prefix (hd args) outcome_tag"
    and "case foot of None \<Rightarrow> True | Some o1 \<Rightarrow> list_all (\<lambda>c. c \<noteq> CHR 0x0A) o1" and "sid \<noteq> []" "hd (wrapper_file ts clients args foot) \<noteq> CHR ''{''"
  shows "\<exists>c. readSweepFile unmarshal (Some (wrapper_file ts clients args foot)) (sid @ ''.argv'') = Some c
    \<and> SessionID c = sid \<and> Argv c = args
    \<and> Client c = (if clients = [] then None else Some (fold parseClientLine clients no_client))
    \<and> Outcome c = (case foot of None \<Rightarrow> None | Some o1 \<Rightarrow> parseOutcomeLine o1)"
proof -
  have "wrapper_file ts clients args foot \<noteq> []" by (simp add: wrapper_file_def)
  then show ?thesis using wrapper_read_back [OF assms(1-8)] assms(9) by (simp add: readSweepFile_def)
qed

theorem wrapper_file_read_back_witness:
  "\<exists>c. readSweepFile (\<lambda>b. None) (Some (wrapper_file ''20260509'' [''PRODUCT=Plex for Roku''] [''-i'', ''a b.mkv''] (Some ''exit_status=0 signal=none''))) (''s1'' @ ''.argv'') = Some c
    \<and> SessionID c = ''s1'' \<and> Argv c = [''-i'', ''a b.mkv'']
    \<and> Client c = Some (parseClientLine ''PRODUCT=Plex for Roku'' no_client) \<and> Outcome c = parseOutcomeLine ''exit_status=0 signal=none''"
proof -
  have a: "list_all (\<lambda>c. c \<noteq> CHR 0x0A) ''20260509''" "list_all (list_all (\<lambda>c. c \<noteq> CHR 0x0A)) [''PRODUCT=Plex for Roku'']"
    "[''-i'', ''a b.mkv''] \<noteq> []" "list_all wrapper_arg [''-i'', ''a b.mkv'']"
    "\<not> has_prefix (hd [''-i'', ''a b.mkv'']) client_tag" "\<not> has_prefix (hd [''-i'', ''a b.mkv'']) outcome_tag"
    "case Some ''exit_status=0 signal=none'' of None \<Rightarrow> True | Some o1 \<Rightarrow> list_all (\<lambda>c. c \<noteq> CHR 0x0A) o1" "''s1'' \<noteq> []"
    by code_simp+
  have "hd (wrapper_file ''20260509'' [''PRODUCT=Plex for Roku''] [''-i'', ''a b.mkv''] (Some ''exit_status=0 signal=none'')) \<noteq> CHR ''{''"
    by (simp add: wrapper_file_def)
  from wrapper_file_read_back [OF a this, of "\<lambda>b. None"] show ?thesis by simp
qed

text \<open>An outcome right behind the last NUL byte, without a newline before it, is read as an argument.\<close>

lemma outcome_without_newline:
  "map_option Argv (parsePlexWrapper (''20260509'' @ [CHR 0x0A] @ ''-i'' @ [CHR 0x00] @ ''a.mkv'' @ [CHR 0x00]
      @ ''OUTCOME:exit_status=0'' @ [CHR 0x0A]) ''s1.argv'') = Some [''-i'', ''a.mkv'', ''OUTCOME:exit_status=0'']"
  by code_simp

section \<open>Sweeps\<close>


lemma initial_results_kept: "fresh_runs disk runs \<Longrightarrow> (i, r) \<in> set runs \<Longrightarrow> \<not> Done disk i"
proof
  assume f: "fresh_runs disk runs" and m: "(i, r) \<in> set runs" and d: "Done disk i"
  obtain xs y ys where s: "runs = xs @ y # ys" "fst y = i" "\<forall>x\<in>set xs. fst x \<noteq> i"
    using split_list_first_propE [of runs "\<lambda>y. fst y = i"] m by (metis fst_conv)
  have "map_of (rev xs) i = None" using s(3) by (auto simp: map_of_eq_None_iff)
  then have "Done (recorded xs disk) (fst y)" using d s(2) by (simp add: Done_def recorded_lookup)
  with f s(1) show False unfolding fresh_runs_def by blast
qed





text \<open>
  C25. A final result is kept. Over any number of sessions on one directory, each with its own cells, answers,
  bound, kill or signal, a cell that was captured or skipped never runs again, in that session or a later one, and
  a cell whose final result was on disk at the start never runs, as long as every session resumes and its results
  reach the disk.
\<close>

theorem final_results_are_kept:
  assumes "list_all resumes ss" "fst (sweep_sessions ss disk) = xs @ (i, r) # ys"
  shows "\<not> Done disk i \<and> (cr_Status r = Captured \<or> cr_Status r = Skipped \<longrightarrow> i \<notin> fst ` set ys)"
proof -
  have "fresh_runs disk (xs @ (i, r) # ys)"
    using sessions_recorded [OF assms(1), of disk] assms(2) by (metis prod.collapse)
  note f = this
  have "\<not> Done disk i" by (rule initial_results_kept [OF f, of i r]) simp
  with fresh_runs_once [OF f] show ?thesis by blast
qed

definition demo_cell :: "string \<Rightarrow> Cell" where
  "demo_cell i = \<lparr>ce_RatingKey = ''7'', ce_Title = ''clip'', ce_Path = ''/c.mkv'', ce_TagID = 1, ce_TargetTitle = ''TV'',
     ce_Prefs = [], ce_ID = i\<rparr>"

text \<open>PMS answers that end every cell with a capture, or with a timeout from the n-th cell on.\<close>

definition demo_answers :: "nat \<Rightarrow> nat \<Rightarrow> pms_answers" where
  "demo_answers n k = \<lparr>pa_setprefs = None, pa_snapshot = None, pa_trigger = None,
     pa_wait = Inr (if k < n then [''/corpus/x.json''] else []), pa_jobs = (\<lambda>k. Some []), pa_sessions = Some [],
     pa_media = Some [], pa_delete_ok = (\<lambda>m. True)\<rparr>"

definition demo_env :: "nat \<Rightarrow> nat option \<Rightarrow> sweep_env" where
  "demo_env n stop = \<lparr>sw_max = 0, sw_resume = True, sw_answers = demo_answers n, sw_saves = (\<lambda>k. True), sw_stop = stop\<rparr>"

definition demo_session :: "nat \<Rightarrow> nat option \<Rightarrow> session" where
  "demo_session n stop = (demo_env n stop, False, (\<lambda>k. None), [], [demo_cell ''a'', demo_cell ''b''])"

theorem final_results_are_kept_witness:
  "map fst (fst (sweep_sessions [demo_session 1 (Some 1), demo_session 0 None] [])) = [''a'', ''b'']
    \<and> ''a'' \<notin> set [''b'']"
proof -
  let ?ss = "[demo_session 1 (Some 1), demo_session 0 None]"
  have all: "list_all resumes ?ss" by (simp add: resumes_def demo_session_def demo_env_def)
  have e: "fst (sweep_sessions ?ss []) = [] @ (''a'', \<lparr>cr_Status = Captured, cr_Captures = [''/corpus/x.json''], cr_Error = []\<rparr>)
      # [(''b'', \<lparr>cr_Status = Timeout, cr_Captures = [], cr_Error = []\<rparr>)]"
    by code_simp
  from final_results_are_kept [OF all e] show ?thesis unfolding e by simp
qed











end
