(* ===== verification/Spec2Isabelle.thy ===== *)
theory Spec2Isabelle
  imports OrchProps WorkerProps RewriteProps EdgeProps ServeMux ToolMain ToolProps
begin

text \<open>
  Scaleplex runs the transcoder of a Plex Media Server (PMS) on a fleet of workers. Instead of
  \<open>Plex Transcoder\<close> the server starts a shim, which posts the argument vector and the environment to the
  orchestrator. The orchestrator keeps a pool of workers, offers the task to them in schedule order and
  streams the answer of the one that accepts back to the shim; when that stream breaks it moves the
  session to another worker and makes it resume behind the last segment. The worker rewrites the
  arguments for its own GPU, runs ffmpeg, sends its output back line-tagged and reports progress to PMS
  through a relay that stands beside the server. Apart from this path, clientfix is a proxy in front of
  PMS that corrects the transcode decision for one client. The tools under \<open>src/cmd\<close> build the corpus of
  argument vectors the rewriter is tested with: one reads vectors from logs and wrapper files, one derives
  synthetic ones, and one drives a PMS through a matrix of sources, targets and preferences and collects
  what it asks of the transcoder.

  The models are shallow. A Go function is a HOL function of the same name where Isabelle allows it; a
  struct is a record; a pointer that is compared is a number in the record; a Go map is an association
  list whose keys are distinct (the locale \<open>go_map\<close>, interpreted on \<open>AList\<close>); a string is a list of
  bytes; \<open>int\<close> is \<open>int\<close> with the 64-bit wrap-around written out where a value can reach it, binary data is
  \<open>8 word list\<close>; floats are rationals (\<open>go_float\<close>), so rounding is not modelled. A run-time panic is \<open>None\<close>
  in the functions that index. The clock, the network, files, child processes and random numbers are
  arguments, and so are the decoders of JSON and XML. No hypothesis is stated about them beyond what a
  property names.

  Basis.
  \<^item> \<open>GoPrelude\<close>: strings, \<open>strconv\<close>, \<open>path\<close>, maps, arithmetic, the locales \<open>go_map\<close> and \<open>machine\<close> (an
    invariant of a step function) that the components interpret.
  \<^item> \<open>GoRegexp\<close>: syntax trees of Go's regular expressions, the leftmost, preferred-first matcher, and the
    rules by which a preferred way through an expression is found.
  \<^item> \<open>GoHttp\<close>: requests, headers, the query syntax of \<open>net/url\<close> and its round trip.
  \<^item> \<open>GoUnicode\<close>: UTF-8, the quoting of \<open>%q\<close>, \<open>strconv.Unquote\<close>, and the round trip of the two for every byte string.

  Orchestrator (\<open>src/orchestrator\<close>).
  \<^item> \<open>OrchPool\<close> (\<open>main.go\<close>): workers, their three discovery sources as a bit mask, the pool's operations. The
    locale \<open>discovery\<close> is the contract of one source; each pool operation is an interpretation of it, which
    gives the refinement by sets of sources.
  \<^item> \<open>OrchSched\<close> (\<open>main.go\<close>): probes, load, the tiers and strategies (locale \<open>tier_order\<close>), the session tracker.
  \<^item> \<open>OrchTicket\<close> (\<open>failover.go\<close>): the in-flight accounting as a machine over ticket events.
  \<^item> \<open>OrchCheckpoint\<close> (\<open>checkpoint.go\<close>): the resume cache, the poller, the injection of resume flags.
  \<^item> \<open>OrchDispatch\<close> (\<open>failover.go\<close>): \<open>dispatchTask\<close>, \<open>streamFrom\<close>, \<open>recover\<close> over the record \<open>world\<close> of the answers
    of workers, PMS and clock. \<open>OrchRecovery\<close> has the invariants of the loops through the locale
    \<open>session_step\<close>; \<open>OrchTermination\<close> shows that they end.
  \<^item> \<open>OrchHttp\<close> (\<open>main.go\<close>, \<open>metrics.go\<close>): configuration, handlers and background loops.
  \<^item> \<open>OrchProps\<close>: the properties, with the runs that witness them.

  Worker (\<open>src/worker/agent\<close>).
  \<^item> \<open>RewriteDialect\<close> (\<open>dialect.go\<close>, \<open>rewriter_nvidia.go\<close>, \<open>vaapi_driver.go\<close>, \<open>pass_gate.go\<close>): backends, codec tables,
    the Plex Pass gate with its cache.
  \<^item> \<open>RewriteArgs\<close> (\<open>rewriter.go\<close>, \<open>rewriter_tags.go\<close>, \<open>probesize.go\<close>): the passes over the argument vector; those
    that report what they did share the locale \<open>reporting_pass\<close>.
  \<^item> \<open>RewriteGraph\<close> (\<open>rewriter.go\<close>, \<open>rewriter_sw.go\<close>): the composition of filter graphs, tone mapping, subtitles.
  \<^item> \<open>RewriteShape\<close> (\<open>source_backend.go\<close>, \<open>rewriter_sw.go\<close>): what a vector was made for, the reshapes between backends.
  \<^item> \<open>RewriteMain\<close> (\<open>rewriter.go\<close>): \<open>Rewrite\<close> as a sequence of phases that go on, bail or panic.
  \<^item> \<open>RewriteContract\<close>, \<open>RewriteSoftware\<close>, \<open>RewriteProps\<close>: tags and bails of every phase, the way of a software
    session through all of them, the properties.
  \<^item> \<open>WorkerMatroska\<close>, \<open>WorkerSegwatch\<close> (\<open>matroska.go\<close>, \<open>segwatch.go\<close>): the patch of Cluster timecodes, the watchers
    of the output directory, the shared segment counter under interference.
  \<^item> \<open>WorkerStream\<close> (\<open>stderr_watch.go\<close>, \<open>progress_report.go\<close>, \<open>main.go\<close>): the consumers of ffmpeg's output. The locale
    \<open>chunk_consumer\<close> is their contract: cutting the input elsewhere changes nothing.
  \<^item> \<open>WorkerAgent\<close> (\<open>main.go\<close>, \<open>drain.go\<close>, \<open>register.go\<close>, \<open>checkpoint.go\<close>, \<open>metrics.go\<close>, \<open>probe.go\<close>): registry,
    admission, capability, draining, registration, probes.
  \<^item> \<open>WorkerProgress\<close>, \<open>WorkerLoad\<close> (\<open>progress_report.go\<close>, \<open>load.go\<close>): progress reports, GPU load.
  \<^item> \<open>WorkerCalls\<close> (\<open>progress_report.go\<close>, \<open>probesize.go\<close>, \<open>load.go\<close>): the URLs of reports and log lines, the
    ffprobe calls, the performance counters.
  \<^item> \<open>WorkerTask\<close> (\<open>main.go\<close>): the task handler as a whole, argv captures and the pre-warm.
  \<^item> \<open>WorkerProps\<close>: the properties.
  \<^item> \<open>ServeMux\<close> (both \<open>main.go\<close>): which handler of orchestrator and worker gets a request, the start of a worker.

  Around them.
  \<^item> \<open>ShimMain\<close> (\<open>src/shim/cmd/shim/main.go\<close>): the task the shim posts, the kill, the exit codes, and the
    demultiplexer, another \<open>chunk_consumer\<close>.
  \<^item> \<open>RelayMain\<close> (\<open>src/shim/cmd/relay/main.go\<close>): the forwarded request and the rewritten segment list.
  \<^item> \<open>ClientSni\<close>, \<open>ClientProxy\<close> (\<open>src/clientfix/cmd/clientfix\<close>): the TLS front and the decision proxy.
  \<^item> \<open>ClientFront\<close> (the same files): the tunnel to PMS and the listener as step relations, and the start-up.
  \<^item> \<open>EdgeProps\<close>: their properties, and those of the paths through several programs: from ffmpeg to PMS,
    from the worker's reports over the relay to PMS, from a signal to the kill, from a refusal to the exit code, from the shim's look at the Pass to the gate.

  Tools (\<open>src/cmd\<close>).
  \<^item> \<open>ToolExtract\<close> (\<open>argv-extract/main.go\<close>): log lines, wrapper files and worker captures become one capture per
    session; a dumped vector and a wrapper file are read back.
  \<^item> \<open>ToolSynthesize\<close> (\<open>corpus-synthesize\<close>): the matrix of shapes and the token rewrites.
  \<^item> \<open>ToolClips\<close>, \<open>ToolSource\<close>, \<open>ToolAnalyze\<close> (\<open>optimize-corpus-gen/synth\<close>, \<open>source\<close>, \<open>cmd_analyze.go\<close>): the synthetic clips
    and the commands that make them, the profile of a source, and the clustering of vectors by shape.
  \<^item> \<open>ToolPlex\<close> (\<open>optimize-corpus-gen/plex\<close>): the requests to PMS, sections, Optimize jobs, preferences.
  \<^item> \<open>ToolSweep\<close> (\<open>matrix\<close>, \<open>capture\<close>, \<open>cmd_sweep.go\<close>, \<open>cmd_smoke.go\<close>, \<open>cmd_clean.go\<close>): cells and their identifiers, the
    manifest, the watcher, and a sweep as a loop over cells whose answers, kills and signals are arguments. The
    facts link the cells that ran to the manifest (\<open>fresh_runs\<close>, \<open>loop_inv\<close>) and carry over to sequences of sessions.
  \<^item> \<open>ToolMain\<close> (\<open>main.go\<close>, \<open>cmd_common.go\<close>, \<open>cmd_library.go\<close>, \<open>cmd_synth.go\<close>, \<open>cmd_analyze.go\<close>): the subcommands and
    the rows of the report.
  \<^item> \<open>ToolProps\<close>: their properties.

  Bounds and fuel. \<open>recover\<close> makes at most three moves; inside a move the source loops until a deadline,
  which the model does with fuel and returns \<open>None\<close> when it is spent. The properties about a dispatch that
  returned are complemented by \<open>dispatch_terminates\<close>: when every attempt takes time, some fuel suffices. All
  other loops are structural or have a measure.

  Concurrency. The state that goroutines share is stepped one locked section at a time: the tickets, the
  registry, the segment counter and the consumers are machines whose invariants hold for every sequence of
  steps. What other goroutines do while a dispatch waits is part of \<open>world\<close>.

  Not modelled. The start of servers, logs and the Prometheus registry; the clean-up of an HTTP server at the end;
  TLS itself; flags, JSON and printed reports of the tools, and the fields of PMS answers
  they do not read. The signal handler of a sweep is one last call: a cell that starts beside it is not in the
  model. White space is that of ASCII in \<open>TrimSpace\<close> and \<open>Fields\<close>. The floating-point rounding of times, and the
  syntax of numbers beyond plain decimals in \<open>ParseFloat\<close>, are outside the model as well.
\<close>

end
